(* ===== verification/Go_Prelude.thy ===== *)
theory Go_Prelude
  imports Main "HOL-Library.AList" "HOL-Library.Multiset" "HOL-Library.Sublist"
begin

text \<open>
  What the Go sources use of the language and its standard library, and the generic lemmas the
  components share.

  \<^item> A Go \<open>error\<close> is a \<open>goerror\<close>; a function that returns \<open>(T, error)\<close> returns the pair
    \<open>'a go = 'a \<times> goerror option\<close>, since the code often returns a partial value beside the error.
  \<^item> A Go \<open>map[string]T\<close> is an association list with distinct keys (\<open>'v gomap\<close>). The language
    leaves the iteration order of \<open>range\<close> over a map open; definitions that range over a map take
    the order as a parameter.
  \<^item> A slice whose nil-ness the code inspects is \<open>'a list option\<close> (\<open>None\<close> is nil); every other
    slice is a list.
  \<^item> Strings are byte lists; \<open>itoa\<close> is \<open>%d\<close> and \<open>quote\<close> is \<open>%q\<close> of package \<open>fmt\<close>.
\<close>

named_theorems go_defs "definitions unfolded when a component is evaluated on concrete input"

section \<open>Errors\<close>

datatype goerror =
    Errorf string
  | Wrap string goerror
  | PermanentError goerror

text \<open>\<open>err.Error()\<close>: \<open>fmt.Errorf("p: %w", e)\<close> and \<open>errors.Wrapf(e, "p")\<close> print as \<open>p: e\<close>, a
  \<open>permanentError\<close> prints as the error it carries.\<close>

fun error_string :: "goerror \<Rightarrow> string" where
  "error_string (Errorf s) = s"
| "error_string (Wrap p e) = p @ '': '' @ error_string e"
| "error_string (PermanentError e) = error_string e"

type_synonym 'a go = "'a \<times> goerror option"

section \<open>Strings\<close>

fun itoa :: "nat \<Rightarrow> string" where
  "itoa n = (if n < 10 then [''0123456789'' ! n]
             else itoa (n div 10) @ [''0123456789'' ! (n mod 10)])"

declare itoa.simps [simp del]

text \<open>\<open>strings.Contains\<close>: a substring test.\<close>

definition contains_string :: "string \<Rightarrow> string \<Rightarrow> bool" where
  "contains_string s sub = sublist sub s"

text \<open>\<open>%q\<close> on bytes: the escapes of \<open>strconv.Quote\<close> for ASCII input; bytes from \<open>0x80\<close> on are
  passed through, as the bytes of a printable rune are.\<close>

definition hex_digit :: "nat \<Rightarrow> char" where
  "hex_digit n = ''0123456789abcdef'' ! n"

definition quote_char :: "char \<Rightarrow> string" where
  "quote_char c =
     (let n = (of_char c :: nat) in
      if n = 34 then [CHR 0x5C, CHR 0x22]
      else if n = 92 then [CHR 0x5C, CHR 0x5C]
      else if n = 7 then CHR 0x5C # ''a''
      else if n = 8 then CHR 0x5C # ''b''
      else if n = 9 then CHR 0x5C # ''t''
      else if n = 10 then CHR 0x5C # ''n''
      else if n = 11 then CHR 0x5C # ''v''
      else if n = 12 then CHR 0x5C # ''f''
      else if n = 13 then CHR 0x5C # ''r''
      else if n < 32 \<or> n = 127
        then CHR 0x5C # ''x'' @ [hex_digit (n div 16), hex_digit (n mod 16)]
      else [c])"

definition quote :: "string \<Rightarrow> string" where
  "quote s = CHR 0x22 # concat (map quote_char s) @ [CHR 0x22]"

text \<open>\<open>strings.Split(s, sep)\<close> for a one-byte separator, and \<open>strings.Join\<close>.\<close>

fun split_on :: "char \<Rightarrow> string \<Rightarrow> string list" where
  "split_on c [] = [[]]"
| "split_on c (x # xs) =
     (if x = c then [] # split_on c xs
      else (case split_on c xs of [] \<Rightarrow> [[x]] | w # ws \<Rightarrow> (x # w) # ws))"

fun join_with :: "string \<Rightarrow> string list \<Rightarrow> string" where
  "join_with sep [] = []"
| "join_with sep [w] = w"
| "join_with sep (w # v # ws) = w @ sep @ join_with sep (v # ws)"

section \<open>Maps with string keys\<close>

type_synonym 'v gomap = "(string \<times> 'v) list"

abbreviation gomap_wf :: "'v gomap \<Rightarrow> bool" where
  "gomap_wf m \<equiv> distinct (map fst m)"

definition gomap_set :: "string \<Rightarrow> 'v \<Rightarrow> 'v gomap \<Rightarrow> 'v gomap" where
  "gomap_set k v m = AList.update k v m"

text \<open>\<open>for k, v := range src { dst[k] = v }\<close>.\<close>

fun gomap_copy :: "'v gomap \<Rightarrow> 'v gomap \<Rightarrow> 'v gomap" where
  "gomap_copy dst [] = dst"
| "gomap_copy dst ((k, v) # src) = gomap_copy (gomap_set k v dst) src"

text \<open>\<open>reflect.DeepEqual\<close> on two non-nil maps: the same length and equal values under every key.\<close>

definition gomap_eq :: "'v gomap \<Rightarrow> 'v gomap \<Rightarrow> bool" where
  "gomap_eq m1 m2 \<longleftrightarrow>
     length m1 = length m2 \<and> list_all (\<lambda>(k, v). map_of m2 k = Some v) m1"

section \<open>Lemmas on maps\<close>

lemma map_of_gomap_set [simp]: "map_of (gomap_set k v m) = (map_of m)(k \<mapsto> v)"
  by (simp add: gomap_set_def update_conv')

lemma gomap_set_wf [simp, intro]: "gomap_wf m \<Longrightarrow> gomap_wf (gomap_set k v m)"
  by (simp add: gomap_set_def distinct_update)

lemma gomap_copy_wf [simp, intro]: "gomap_wf dst \<Longrightarrow> gomap_wf (gomap_copy dst src)"
  by (induction dst src rule: gomap_copy.induct) auto

lemma map_of_gomap_copy:
  "gomap_wf src \<Longrightarrow> map_of (gomap_copy dst src) = map_of dst ++ map_of src"
proof (induction dst src rule: gomap_copy.induct)
  case (2 dst k v src)
  then have "k \<notin> dom (map_of src)" by (simp add: dom_map_of_conv_image_fst)
  with 2 show ?case by (auto simp: fun_eq_iff map_add_def domIff split: option.splits)
qed simp

lemma gomap_copy_Nil [simp]:
  "gomap_wf src \<Longrightarrow> map_of (gomap_copy [] src) = map_of src"
  by (simp add: map_of_gomap_copy)

lemma gomap_set_fresh: "k \<notin> fst ` set m \<Longrightarrow> gomap_set k v m = m @ [(k, v)]"
  by (induction m) (auto simp: gomap_set_def)

lemma gomap_copy_append: "gomap_wf (dst @ src) \<Longrightarrow> gomap_copy dst src = dst @ src"
proof (induction dst src rule: gomap_copy.induct)
  case (2 dst k v src)
  then show ?case by (simp add: gomap_set_fresh)
qed simp

lemma gomap_eq_map_of:
  assumes wf: "gomap_wf m1" "gomap_wf m2"
  shows "gomap_eq m1 m2 \<longleftrightarrow> map_of m1 = map_of m2"
proof
  assume eq: "gomap_eq m1 m2"
  then have sub: "set m1 \<subseteq> set m2" and len: "length m1 = length m2"
    by (auto simp: gomap_eq_def list_all_iff dest: map_of_SomeD)
  have "card (set m1) = length m1" "card (set m2) = length m2"
    using wf by (auto simp: distinct_map distinct_card)
  with sub len have "set m1 = set m2" by (intro card_subset_eq) auto
  with wf show "map_of m1 = map_of m2" by (intro map_of_inject_set [THEN iffD2]) auto
next
  assume eq: "map_of m1 = map_of m2"
  with wf have "set m1 = set m2" by (simp add: map_of_inject_set)
  with wf have "length m1 = length m2"
    by (metis distinct_card distinct_map)
  moreover have "list_all (\<lambda>(k, v). map_of m2 k = Some v) m1"
    using wf(1) unfolding eq [symmetric] by (auto simp: list_all_iff)
  ultimately show "gomap_eq m1 m2" by (simp add: gomap_eq_def)
qed

lemma gomap_eq_refl [simp]: "gomap_wf m \<Longrightarrow> gomap_eq m m"
  by (simp add: gomap_eq_map_of)

section \<open>Lemmas on decimal printing\<close>

lemma itoa_digits: "set (itoa n) \<subseteq> set ''0123456789''"
proof (induction n rule: itoa.induct)
  case (1 n)
  have d: "k < 10 \<Longrightarrow> ''0123456789'' ! k \<in> set ''0123456789''" for k
    by (rule nth_mem) simp
  show ?case
  proof (cases "n < 10")
    case True
    with d [of n] show ?thesis by (simp add: itoa.simps [of n])
  next
    case False
    with 1 d [of "n mod 10"] show ?thesis by (simp add: itoa.simps [of n])
  qed
qed

lemma digit_inj: "''0123456789'' ! i = ''0123456789'' ! j \<longleftrightarrow> i = j" if "i < 10" "j < 10"
  using that by (intro nth_eq_iff_index_eq) auto

lemma itoa_nonempty [simp]: "itoa n \<noteq> []"
  by (subst itoa.simps) simp

lemma itoa_inj: "itoa m = itoa n \<Longrightarrow> m = n"
proof (induction m arbitrary: n rule: itoa.induct)
  case (1 m)
  show ?case
  proof (cases "m < 10")
    case True
    then have "length (itoa m) = 1" by (simp add: itoa.simps [of m])
    with "1.prems" have "n < 10" by (cases "n < 10") (auto simp: itoa.simps [of n])
    with True "1.prems" show ?thesis by (simp add: itoa.simps [of m] itoa.simps [of n] digit_inj)
  next
    case False
    then have len: "length (itoa m) \<noteq> 1" by (simp add: itoa.simps [of m])
    have nge: "\<not> n < 10"
    proof
      assume "n < 10"
      then have "length (itoa n) = 1" by (simp add: itoa.simps [of n])
      with len "1.prems" show False by simp
    qed
    from False nge "1.prems"
    have "itoa (m div 10) = itoa (n div 10)"
      and "''0123456789'' ! (m mod 10) = ''0123456789'' ! (n mod 10)"
      by (simp_all add: itoa.simps [of m] itoa.simps [of n])
    with "1.IH" [OF False] have "m div 10 = n div 10" and "m mod 10 = n mod 10"
      by (auto simp: digit_inj)
    then show ?thesis by (metis div_mult_mod_eq)
  qed
qed

section \<open>Lemmas on lists\<close>

lemma find_Some_conv: "find P xs = Some x \<Longrightarrow> x \<in> set xs \<and> P x"
  by (auto simp: find_Some_iff)

lemma find_unique:
  assumes "x \<in> set xs" and "P x" and "\<And>y. y \<in> set xs \<Longrightarrow> P y \<Longrightarrow> y = x"
  shows "find P xs = Some x"
proof -
  have "find P xs \<noteq> None" using assms(1,2) by (auto simp: find_None_iff)
  then obtain y where "find P xs = Some y" by blast
  with assms(3) [of y] show ?thesis by (auto dest: find_Some_conv)
qed

lemma find_permute:
  assumes "mset xs = mset ys"
    and "\<And>x y. x \<in> set xs \<Longrightarrow> y \<in> set xs \<Longrightarrow> P x \<Longrightarrow> P y \<Longrightarrow> x = y"
  shows "find P xs = find P ys"
proof (cases "find P xs")
  case None
  from assms(1) have "set xs = set ys" by (rule mset_eq_setD)
  with None show ?thesis by (metis find_None_iff)
next
  case (Some x)
  from assms(1) have s: "set xs = set ys" by (rule mset_eq_setD)
  from Some have "x \<in> set xs" "P x" by (auto dest: find_Some_conv)
  with assms(2) s have "find P ys = Some x" by (intro find_unique) auto
  with Some show ?thesis by simp
qed

end
