(* ===== verification/Api_Types.thy ===== *)
theory Api_Types
  imports Go_Prelude
begin

text \<open>
  The API types: the custom resource of \<open>pkg/apis/taskgroup/v1alpha1/taskgroup_types.go\<close> and the
  parts of the upstream types (\<open>v1beta1\<close> of tektoncd/pipeline, \<open>corev1\<close>) it is built from.
  A struct is a record whose fields carry the type's initials as prefix and the source's names;
  fields that no modelled function reads or writes are kept together as one opaque payload
  (\<open>_rest\<close>), so that \<open>updated record = old record with one field changed\<close> means what it says.
\<close>

section \<open>corev1\<close>

record KeySelector =
  ks_Name :: string
  ks_Key :: string
  ks_rest :: string

record EnvVarSource =
  vf_SecretKeyRef :: "KeySelector option"
  vf_ConfigMapKeyRef :: "KeySelector option"
  vf_rest :: string

record EnvVar =
  ev_Name :: string
  ev_Value :: string
  ev_ValueFrom :: "EnvVarSource option"

record EnvSourceRef =
  es_Name :: string
  es_rest :: string

record EnvFromSource =
  ef_Prefix :: string
  ef_ConfigMapRef :: "EnvSourceRef option"
  ef_SecretRef :: "EnvSourceRef option"

record VolumeMount =
  vm_Name :: string
  vm_MountPath :: string
  vm_SubPath :: string
  vm_rest :: string

text \<open>\<open>Args\<close> and \<open>Command\<close> may be nil slices, and the step-template merge tells nil from empty.\<close>

record Container =
  c_Name :: string
  c_Image :: string
  c_Command :: "string list option"
  c_Args :: "string list option"
  c_WorkingDir :: string
  c_EnvFrom :: "EnvFromSource list"
  c_Env :: "EnvVar list"
  c_VolumeMounts :: "VolumeMount list"
  c_ImagePullPolicy :: string
  c_rest :: string

record Volume =
  v_Name :: string
  v_Source :: string

section \<open>v1beta1\<close>

record ArrayOrString =
  as_Type :: string
  as_StringVal :: string
  as_ArrayVal :: "string list option"

record ParamSpec =
  p_Name :: string
  p_Type :: string
  p_Description :: string
  p_Default :: "ArrayOrString option"

definition ParamTypeString :: string where "ParamTypeString = ''string''"
definition ParamTypeArray :: string where "ParamTypeArray = ''array''"

record WorkspaceDeclaration =
  w_Name :: string
  w_Description :: string
  w_MountPath :: string
  w_ReadOnly :: bool
  w_Optional :: bool

record WorkspaceUsage =
  wu_Name :: string
  wu_MountPath :: string

record TaskResult =
  r_Name :: string
  r_Description :: string

record UStep =
  s_Container :: Container
  s_Script :: string
  s_Timeout :: "int option"
  s_Workspaces :: "WorkspaceUsage list"
  s_OnError :: string

abbreviation s_Name :: "UStep \<Rightarrow> string" where
  "s_Name s \<equiv> c_Name (s_Container s)"

record Sidecar =
  sc_Container :: Container
  sc_Script :: string
  sc_Workspaces :: "WorkspaceUsage list"

abbreviation sc_Name :: "Sidecar \<Rightarrow> string" where
  "sc_Name s \<equiv> c_Name (sc_Container s)"

record TaskRef =
  tref_Name :: string
  tref_Kind :: string
  tref_APIVersion :: string
  tref_Bundle :: string

record TaskSpec =
  ts_Resources :: "string option"
  ts_Params :: "ParamSpec list"
  ts_Description :: string
  ts_Steps :: "UStep list"
  ts_Volumes :: "Volume list"
  ts_StepTemplate :: "Container option"
  ts_Sidecars :: "Sidecar list"
  ts_Workspaces :: "WorkspaceDeclaration list"
  ts_Results :: "TaskResult list"

section \<open>The TaskGroup resource\<close>

record ParamBinding =
  pb_Name :: string
  pb_Param :: string

record WorkspaceBinding =
  wb_Name :: string
  wb_Workspace :: string

record Uses =
  u_TaskRef :: TaskRef
  u_ParamBindings :: "ParamBinding list"
  u_WorkspaceBindings :: "WorkspaceBinding list"

record Step =
  gs_Step :: UStep
  gs_Uses :: "Uses option"

definition toUpstream :: "Step \<Rightarrow> UStep" where
  "toUpstream s = gs_Step s"

record TaskGroupSpec =
  tg_Params :: "ParamSpec list"
  tg_Description :: string
  tg_Steps :: "Step list"
  tg_Volumes :: "Volume list"
  tg_StepTemplate :: "Container option"
  tg_Sidecars :: "Sidecar list"
  tg_Workspaces :: "WorkspaceDeclaration list"
  tg_Results :: "TaskResult list"

text \<open>\<open>ObjectMeta\<close>: labels and annotations may be nil maps; times are instants, 0 the zero time.\<close>

type_synonym gotime = int

record OwnerReference =
  or_APIVersion :: string
  or_Kind :: string
  or_Name :: string
  or_UID :: string
  or_Controller :: "bool option"
  or_BlockOwnerDeletion :: "bool option"

record ObjectMeta =
  om_Name :: string
  om_Namespace :: string
  om_UID :: string
  om_Generation :: int
  om_CreationTimestamp :: gotime
  om_DeletionTimestamp :: "gotime option"
  om_Labels :: "string gomap option"
  om_Annotations :: "string gomap option"
  om_OwnerReferences :: "OwnerReference list"

definition empty_meta :: ObjectMeta where
  "empty_meta = \<lparr>om_Name = [], om_Namespace = [], om_UID = [], om_Generation = 0, om_CreationTimestamp = 0, om_DeletionTimestamp = None,
     om_Labels = None, om_Annotations = None, om_OwnerReferences = []\<rparr>"

record TypeMeta =
  tm_Kind :: string
  tm_APIVersion :: string

definition zero_TypeMeta :: TypeMeta where
  "zero_TypeMeta = \<lparr>tm_Kind = [], tm_APIVersion = []\<rparr>"

record TaskGroup =
  tgr_TypeMeta :: TypeMeta
  tgr_Meta :: ObjectMeta
  tgr_Spec :: TaskGroupSpec

text \<open>\<open>ListMeta\<close> is opaque.\<close>

record TaskGroupList =
  tl_TypeMeta :: TypeMeta
  tl_ListMeta :: string
  tl_Items :: "TaskGroup list"

definition empty_TaskGroupSpec :: TaskGroupSpec where
  "empty_TaskGroupSpec = \<lparr>tg_Params = [], tg_Description = [], tg_Steps = [], tg_Volumes = [],
     tg_StepTemplate = None, tg_Sidecars = [], tg_Workspaces = [], tg_Results = []\<rparr>"

datatype TaskGroupRunReason =
    TaskGroupRunReasonStarted
  | TaskGroupRunReasonRunning
  | TaskGroupRunReasonFailed
  | TaskGroupRunReasonSucceeded
  | TaskGroupRunReasonCouldntCancel
  | TaskGroupRunReasonCouldntGetTaskGroup
  | TaskGroupRunReasonFailedValidation
  | TaskGroupRunReasonInternalError

fun reason_String :: "TaskGroupRunReason \<Rightarrow> string" where
  "reason_String TaskGroupRunReasonStarted = ''Started''"
| "reason_String TaskGroupRunReasonRunning = ''Running''"
| "reason_String TaskGroupRunReasonFailed = ''Failed''"
| "reason_String TaskGroupRunReasonSucceeded = ''Succeeded''"
| "reason_String TaskGroupRunReasonCouldntCancel = ''TaskGroupRunCouldntCancel''"
| "reason_String TaskGroupRunReasonCouldntGetTaskGroup = ''CouldntGetTaskGroup''"
| "reason_String TaskGroupRunReasonFailedValidation = ''TaskGroupValidationFailed''"
| "reason_String TaskGroupRunReasonInternalError = ''TaskGroupInternalError''"

section \<open>Group, version and kind\<close>

definition GroupName :: string where "GroupName = ''custom.tekton.dev''"
definition TaskGroupControllerName :: string where "TaskGroupControllerName = ''TaskGroup''"

record GroupVersion =
  gv_Group :: string
  gv_Version :: string

definition SchemeGroupVersion :: GroupVersion where
  "SchemeGroupVersion = \<lparr>gv_Group = GroupName, gv_Version = ''v1alpha1''\<rparr>"

text \<open>\<open>GroupVersion.String()\<close>: \<open>group/version\<close>, or only the version for the empty group.\<close>

definition gv_String :: "GroupVersion \<Rightarrow> string" where
  "gv_String gv = (if gv_Group gv \<noteq> [] then gv_Group gv @ ''/'' @ gv_Version gv else gv_Version gv)"

record GroupKind =
  gk_Group :: string
  gk_Kind :: string

record GroupResource =
  gr_Group :: string
  gr_Resource :: string

definition Kind :: "string \<Rightarrow> GroupKind" where
  "Kind kind = \<lparr>gk_Group = gv_Group SchemeGroupVersion, gk_Kind = kind\<rparr>"

definition Resource :: "string \<Rightarrow> GroupResource" where
  "Resource resource = \<lparr>gr_Group = gv_Group SchemeGroupVersion, gr_Resource = resource\<rparr>"

section \<open>Example values\<close>

text \<open>A container with only a name and an image, and a step running a script in it: the building
  blocks of the concrete inputs at which properties are instantiated.\<close>

definition mkContainer :: "string \<Rightarrow> string \<Rightarrow> Container" where
  "mkContainer name img = \<lparr>c_Name = name, c_Image = img, c_Command = None, c_Args = None,
     c_WorkingDir = [], c_EnvFrom = [], c_Env = [], c_VolumeMounts = [], c_ImagePullPolicy = [],
     c_rest = []\<rparr>"

definition mkStep :: "string \<Rightarrow> string \<Rightarrow> string \<Rightarrow> UStep" where
  "mkStep name img script = \<lparr>s_Container = mkContainer name img, s_Script = script,
     s_Timeout = None, s_Workspaces = [], s_OnError = []\<rparr>"

definition mkParam :: "string \<Rightarrow> string \<Rightarrow> ParamSpec" where
  "mkParam name ty = \<lparr>p_Name = name, p_Type = ty, p_Description = [], p_Default = None\<rparr>"

definition mkWorkspace :: "string \<Rightarrow> WorkspaceDeclaration" where
  "mkWorkspace name = \<lparr>w_Name = name, w_Description = [], w_MountPath = [], w_ReadOnly = False,
     w_Optional = False\<rparr>"

definition mkUses :: "string \<Rightarrow> ParamBinding list \<Rightarrow> WorkspaceBinding list \<Rightarrow> Uses" where
  "mkUses task pbs wbs = \<lparr>u_TaskRef = \<lparr>tref_Name = task, tref_Kind = [], tref_APIVersion = [],
     tref_Bundle = []\<rparr>, u_ParamBindings = pbs, u_WorkspaceBindings = wbs\<rparr>"

definition empty_TaskSpec :: TaskSpec where
  "empty_TaskSpec = \<lparr>ts_Resources = None, ts_Params = [], ts_Description = [], ts_Steps = [],
     ts_Volumes = [], ts_StepTemplate = None, ts_Sidecars = [], ts_Workspaces = [],
     ts_Results = []\<rparr>"

declare mkContainer_def [go_defs] mkStep_def [go_defs] mkParam_def [go_defs]
  mkWorkspace_def [go_defs] mkUses_def [go_defs] empty_TaskSpec_def [go_defs]
  empty_TaskGroupSpec_def [go_defs] empty_meta_def [go_defs] ParamTypeString_def [go_defs]
  ParamTypeArray_def [go_defs] toUpstream_def [go_defs]

lemma ParamType_distinct [simp]:
  "ParamTypeString \<noteq> ParamTypeArray" "ParamTypeArray \<noteq> ParamTypeString"
  "ParamTypeString \<noteq> []" "ParamTypeArray \<noteq> []"
  by (simp_all add: ParamTypeString_def ParamTypeArray_def)

lemma reason_String_inj: "reason_String a = reason_String b \<longleftrightarrow> a = b"
  by (cases a; cases b) simp_all

end
