(* ===== verification/Substitution.thy ===== *)
theory Substitution
  imports Api_Types
begin

text \<open>
  Variable substitution: \<open>substitution.ApplyReplacements\<close>, \<open>ApplyStepReplacements\<close> and
  \<open>applyContainerReplacements\<close> of tektoncd/pipeline, and the two step transformers
  \<open>replaceParams\<close> and \<open>replaceWorkspaces\<close> of \<open>pkg/resolve/taskgroup.go\<close>.
  A replacement map is an association list; \<open>ord\<close> is the order in which \<open>range\<close> visits it.
\<close>

type_synonym order = "string gomap \<Rightarrow> string gomap"

section \<open>strings.Replacer\<close>

text \<open>\<open>strings.NewReplacer(old1, new1, \<dots>).Replace(s)\<close>: one pass from the left; at each position the
  first pair, in argument order, whose (non-empty) old string starts there is replaced and the scan
  continues behind it, otherwise one byte is copied.\<close>

function replacer :: "(string \<times> string) list \<Rightarrow> string \<Rightarrow> string" where
  "replacer oldnew [] = []"
| "replacer oldnew (c # cs) =
     (case find (\<lambda>(k, v). k \<noteq> [] \<and> prefix k (c # cs)) oldnew of
        Some (k, v) \<Rightarrow> v @ replacer oldnew (drop (length k - 1) cs)
      | None \<Rightarrow> c # replacer oldnew cs)"
  by pat_completeness auto
termination
  by (relation "measure (\<lambda>(oldnew, s). length s)") auto

text \<open>The pattern \<open>$(k)\<close> of \<open>fmt.Sprintf("$(%s)", k)\<close>.\<close>

definition var_ref :: "string \<Rightarrow> string" where
  "var_ref k = ''$('' @ k @ '')''"

definition ApplyReplacements :: "order \<Rightarrow> string \<Rightarrow> string gomap \<Rightarrow> string" where
  "ApplyReplacements ord s replacements =
     replacer (map (\<lambda>(k, v). (var_ref k, v)) (ord replacements)) s"

text \<open>\<open>strings.Count\<close> of a non-empty string: non-overlapping occurrences.\<close>

function count_string :: "string \<Rightarrow> string \<Rightarrow> nat" where
  "count_string sub [] = 0"
| "count_string sub (c # cs) =
     (if prefix sub (c # cs) then Suc (count_string sub (drop (length sub - 1) cs))
      else count_string sub cs)"
  by pat_completeness auto
termination
  by (relation "measure (\<lambda>(sub, s). length s)") auto

fun ApplyArrayReplacements_loop :: "string \<Rightarrow> string list gomap \<Rightarrow> string list option" where
  "ApplyArrayReplacements_loop s [] = None"
| "ApplyArrayReplacements_loop s ((k, v) # rest) =
     (let stringToReplace = var_ref k; starStringtoReplace = var_ref (k @ ''[*]'') in
      if count_string stringToReplace s = 1 \<and> length s = length stringToReplace then Some v
      else if count_string starStringtoReplace s = 1 \<and> length s = length starStringtoReplace
        then Some v
      else ApplyArrayReplacements_loop s rest)"

definition ApplyArrayReplacements ::
    "order \<Rightarrow> string \<Rightarrow> string gomap \<Rightarrow> string list gomap \<Rightarrow> string list" where
  "ApplyArrayReplacements ord s stringReplacements arrayReplacements =
     (case ApplyArrayReplacements_loop s arrayReplacements of
        Some v \<Rightarrow> v
      | None \<Rightarrow> [ApplyReplacements ord s stringReplacements])"

section \<open>Steps\<close>

text \<open>\<open>var newArgs []string; for \<dots> { newArgs = append(newArgs, \<dots>) }\<close>: nil when nothing is
  appended.\<close>

definition replace_slice ::
    "order \<Rightarrow> string gomap \<Rightarrow> string list gomap \<Rightarrow> string list option \<Rightarrow> string list option" where
  "replace_slice ord r ar args =
     (case concat (map (\<lambda>a. ApplyArrayReplacements ord a r ar) (case args of None \<Rightarrow> [] | Some xs \<Rightarrow> xs)) of
        [] \<Rightarrow> None
      | ys \<Rightarrow> Some ys)"

definition replace_key :: "order \<Rightarrow> string gomap \<Rightarrow> KeySelector \<Rightarrow> KeySelector" where
  "replace_key ord r k = k\<lparr>ks_Name := ApplyReplacements ord (ks_Name k) r,
                           ks_Key := ApplyReplacements ord (ks_Key k) r\<rparr>"

definition replace_env :: "order \<Rightarrow> string gomap \<Rightarrow> EnvVar \<Rightarrow> EnvVar" where
  "replace_env ord r e =
     e\<lparr>ev_Value := ApplyReplacements ord (ev_Value e) r,
       ev_ValueFrom := map_option (\<lambda>vf. vf\<lparr>vf_SecretKeyRef := map_option (replace_key ord r) (vf_SecretKeyRef vf),
           vf_ConfigMapKeyRef := map_option (replace_key ord r) (vf_ConfigMapKeyRef vf)\<rparr>)
         (ev_ValueFrom e)\<rparr>"

definition replace_envfrom :: "order \<Rightarrow> string gomap \<Rightarrow> EnvFromSource \<Rightarrow> EnvFromSource" where
  "replace_envfrom ord r e =
     e\<lparr>ef_Prefix := ApplyReplacements ord (ef_Prefix e) r,
       ef_ConfigMapRef := map_option (\<lambda>c. c\<lparr>es_Name := ApplyReplacements ord (es_Name c) r\<rparr>) (ef_ConfigMapRef e),
       ef_SecretRef := map_option (\<lambda>c. c\<lparr>es_Name := ApplyReplacements ord (es_Name c) r\<rparr>) (ef_SecretRef e)\<rparr>"

definition replace_mount :: "order \<Rightarrow> string gomap \<Rightarrow> VolumeMount \<Rightarrow> VolumeMount" where
  "replace_mount ord r v =
     v\<lparr>vm_Name := ApplyReplacements ord (vm_Name v) r,
       vm_MountPath := ApplyReplacements ord (vm_MountPath v) r,
       vm_SubPath := ApplyReplacements ord (vm_SubPath v) r\<rparr>"

definition applyContainerReplacements ::
    "order \<Rightarrow> Container \<Rightarrow> string gomap \<Rightarrow> string list gomap \<Rightarrow> Container" where
  "applyContainerReplacements ord step r ar =
     step\<lparr>c_Name := ApplyReplacements ord (c_Name step) r,
          c_Image := ApplyReplacements ord (c_Image step) r,
          c_ImagePullPolicy := ApplyReplacements ord (c_ImagePullPolicy step) r,
          c_Args := replace_slice ord r ar (c_Args step),
          c_Env := map (replace_env ord r) (c_Env step),
          c_EnvFrom := map (replace_envfrom ord r) (c_EnvFrom step),
          c_WorkingDir := ApplyReplacements ord (c_WorkingDir step) r,
          c_Command := replace_slice ord r ar (c_Command step),
          c_VolumeMounts := map (replace_mount ord r) (c_VolumeMounts step)\<rparr>"

definition ApplyStepReplacements ::
    "order \<Rightarrow> UStep \<Rightarrow> string gomap \<Rightarrow> string list gomap \<Rightarrow> UStep" where
  "ApplyStepReplacements ord step r ar =
     step\<lparr>s_Script := ApplyReplacements ord (s_Script step) r,
          s_Container := applyContainerReplacements ord (s_Container step) r ar\<rparr>"

section \<open>The step transformers of pkg/resolve\<close>

text \<open>The map \<open>r\<close> that \<open>replaceParams\<close> builds while it ranges over the bindings: three spellings of
  a reference to the parameter \<open>old\<close>, each replaced by the same spelling of \<open>new\<close>.\<close>

definition squote :: string where "squote = [CHR 0x27]"
definition dquote :: string where "dquote = [CHR 0x22]"

fun param_replacements :: "string gomap \<Rightarrow> string gomap \<Rightarrow> string gomap" where
  "param_replacements r [] = r"
| "param_replacements r ((old, new) # bindings) =
     param_replacements
       (gomap_set (''params['' @ dquote @ old @ dquote @ '']'') (var_ref (''params['' @ dquote @ new @ dquote @ '']''))
       (gomap_set (''params['' @ squote @ old @ squote @ '']'') (var_ref (''params['' @ squote @ new @ squote @ '']''))
       (gomap_set (''params.'' @ old) (var_ref (''params.'' @ new)) r))) bindings"

definition replaceParams :: "order \<Rightarrow> string gomap \<Rightarrow> UStep \<Rightarrow> UStep go" where
  "replaceParams ord bindings s =
     (ApplyStepReplacements ord s (param_replacements [] (ord bindings)) [], None)"

fun workspace_replacements :: "string gomap \<Rightarrow> string gomap \<Rightarrow> string gomap" where
  "workspace_replacements r [] = r"
| "workspace_replacements r ((old, new) # bindings) =
     workspace_replacements
       (gomap_set (''workspaces.'' @ old @ ''.volume'') (var_ref (''workspaces.'' @ new @ ''.volume''))
       (gomap_set (''workspaces.'' @ old @ ''.claim'') (var_ref (''workspaces.'' @ new @ ''.claim''))
       (gomap_set (''workspaces.'' @ old @ ''.bound'') (var_ref (''workspaces.'' @ new @ ''.bound''))
       (gomap_set (''workspaces.'' @ old @ ''.path'') (var_ref (''workspaces.'' @ new @ ''.path'')) r)))) bindings"

definition replaceWorkspaces :: "order \<Rightarrow> string gomap \<Rightarrow> UStep \<Rightarrow> UStep go" where
  "replaceWorkspaces ord bindings s =
     (ApplyStepReplacements ord s (workspace_replacements [] (ord bindings)) [], None)"

section \<open>Templates: the specification of substitution\<close>

text \<open>
  A template is a sequence of literal text without \<open>$\<close> and references \<open>$(k)\<close> whose names hold
  neither \<open>$\<close> nor \<open>)\<close>. On templates substitution is what its name says: every reference whose name
  is a key becomes the key's value, all at once, and nothing else changes.
\<close>

datatype seg = Lit string | Ref string

fun render_seg :: "seg \<Rightarrow> string" where
  "render_seg (Lit s) = s"
| "render_seg (Ref k) = var_ref k"

definition render :: "seg list \<Rightarrow> string" where
  "render segs = concat (map render_seg segs)"

definition ref_clean :: "string \<Rightarrow> bool" where
  "ref_clean k \<longleftrightarrow> CHR ''$'' \<notin> set k \<and> CHR '')'' \<notin> set k"

fun seg_clean :: "seg \<Rightarrow> bool" where
  "seg_clean (Lit s) = (CHR ''$'' \<notin> set s)"
| "seg_clean (Ref k) = ref_clean k"

fun subst_seg :: "string gomap \<Rightarrow> seg \<Rightarrow> string" where
  "subst_seg m (Lit s) = s"
| "subst_seg m (Ref k) = (case map_of m k of Some v \<Rightarrow> v | None \<Rightarrow> var_ref k)"

text \<open>Keys in which no parenthesis closes the reference early.\<close>

abbreviation paren_free :: "string gomap \<Rightarrow> bool" where
  "paren_free m \<equiv> (\<forall>k \<in> fst ` set m. CHR '')'' \<notin> set k)"

abbreviation oldnew_of :: "string gomap \<Rightarrow> (string \<times> string) list" where
  "oldnew_of m \<equiv> map (\<lambda>(k, v). (var_ref k, v)) m"

declare replacer.simps [simp del]

lemma replacer_Nil [simp]: "replacer m [] = []"
  by (simp add: replacer.simps)

lemma prefix_close:
  assumes "c \<notin> set k" "c \<notin> set k'"
  shows "prefix (k @ [c]) (k' @ c # t) \<longleftrightarrow> k = k'"
  using assms
proof (induction k arbitrary: k')
  case Nil
  then show ?case by (cases k') auto
next
  case (Cons x k)
  then show ?case by (cases k') auto
qed

lemma prefix_var_ref:
  assumes "CHR '')'' \<notin> set k" "CHR '')'' \<notin> set k'"
  shows "prefix (var_ref k) (var_ref k' @ t) \<longleftrightarrow> k = k'"
  using prefix_close [OF assms] by (simp add: var_ref_def)

lemma var_ref_not_Nil [simp]: "var_ref k \<noteq> []" "[] \<noteq> var_ref k"
  by (simp_all add: var_ref_def)

lemma find_oldnew_None:
  assumes "c \<noteq> CHR ''$''"
  shows "find (\<lambda>(k, v). k \<noteq> [] \<and> prefix k (c # cs)) (oldnew_of m) = None"
  using assms by (auto simp: find_None_iff var_ref_def)

lemma replacer_literal:
  "CHR ''$'' \<notin> set s \<Longrightarrow> replacer (oldnew_of m) (s @ t) = s @ replacer (oldnew_of m) t"
proof (induction s)
  case (Cons c s)
  then have "c \<noteq> CHR ''$''" by auto
  then have "find (\<lambda>(k, v). k \<noteq> [] \<and> prefix k (c # s @ t)) (oldnew_of m) = None"
    by (rule find_oldnew_None)
  with Cons show ?case by (simp add: replacer.simps(2))
qed simp

lemma find_oldnew_Ref:
  assumes "paren_free m" and "CHR '')'' \<notin> set k"
  shows "find (\<lambda>(k', v). k' \<noteq> [] \<and> prefix k' (var_ref k @ t)) (oldnew_of m) =
         map_option (Pair (var_ref k)) (map_of m k)"
  using assms
proof (induction m)
  case (Cons p m)
  obtain a b where p: "p = (a, b)" by (cases p)
  from Cons.prems p have "prefix (var_ref a) (var_ref k @ t) \<longleftrightarrow> a = k"
    by (intro prefix_var_ref) auto
  with Cons p show ?case by auto
qed simp

lemma replacer_Ref:
  assumes "paren_free m" and "ref_clean k"
  shows "replacer (oldnew_of m) (var_ref k @ t) =
         subst_seg m (Ref k) @ replacer (oldnew_of m) t"
proof (cases "map_of m k")
  case None
  have f: "find (\<lambda>(k', v). k' \<noteq> [] \<and> prefix k' (var_ref k @ t)) (oldnew_of m) = None"
    using find_oldnew_Ref [of m k t] assms None by (simp add: ref_clean_def)
  then have "replacer (oldnew_of m) (var_ref k @ t) =
      CHR ''$'' # replacer (oldnew_of m) ((''('' @ k @ '')'') @ t)"
    by (simp add: var_ref_def replacer.simps(2))
  also have "\<dots> = CHR ''$'' # (''('' @ k @ '')'') @ replacer (oldnew_of m) t"
    using assms(2) by (subst replacer_literal) (auto simp: ref_clean_def)
  finally show ?thesis using None by (simp add: var_ref_def)
next
  case (Some v)
  have f: "find (\<lambda>(k', v). k' \<noteq> [] \<and> prefix k' (var_ref k @ t)) (oldnew_of m) =
      Some (var_ref k, v)"
    using find_oldnew_Ref [of m k t] assms Some by (simp add: ref_clean_def)
  then show ?thesis using Some by (simp add: var_ref_def replacer.simps(2))
qed

lemma replacer_render:
  assumes "paren_free m" and "\<forall>g \<in> set segs. seg_clean g"
  shows "replacer (oldnew_of m) (render segs) = concat (map (subst_seg m) segs)"
  using assms(2)
proof (induction segs)
  case (Cons g segs)
  then show ?case
    by (cases g) (use assms(1) in \<open>auto simp: render_def replacer_literal replacer_Ref\<close>)
qed (simp add: render_def)

section \<open>The order of iteration does not matter\<close>

lemma prefix_var_ref_both:
  assumes "prefix (var_ref k) s" "prefix (var_ref k') s"
    and "CHR '')'' \<notin> set k" "CHR '')'' \<notin> set k'"
  shows "k = k'"
proof -
  from assms(1,2) consider "prefix (var_ref k) (var_ref k')" | "prefix (var_ref k') (var_ref k)"
    using prefix_same_cases by blast
  then show ?thesis
    using prefix_var_ref [of k k' "[]"] prefix_var_ref [of k' k "[]"] assms(3,4) by cases auto
qed

lemma replacer_permute:
  assumes m: "mset m = mset m'" and wf: "gomap_wf m" and pf: "paren_free m"
  shows "replacer (oldnew_of m) s = replacer (oldnew_of m') s"
proof (induction "oldnew_of m" s rule: replacer.induct)
  case (2 c cs)
  have uniq: "x = y" if "x \<in> set (oldnew_of m)" "y \<in> set (oldnew_of m)"
    "prefix (fst x) (c # cs)" "prefix (fst y) (c # cs)" for x y
  proof -
    from that obtain k v k' v' where x: "x = (var_ref k, v)" "(k, v) \<in> set m"
      and y: "y = (var_ref k', v')" "(k', v') \<in> set m" by auto
    from that(3,4) x y pf have kk: "k = k'"
      by (intro prefix_var_ref_both [of k "c # cs"]) force+
    moreover have "v = v'" using x(2) y(2) wf kk by (metis eq_key_imp_eq_value)
    ultimately show ?thesis using x y by simp
  qed
  have "mset (oldnew_of m) = mset (oldnew_of m')" using m by (metis mset_map)
  then have fnd: "find (\<lambda>(k, v). k \<noteq> [] \<and> prefix k (c # cs)) (oldnew_of m) =
      find (\<lambda>(k, v). k \<noteq> [] \<and> prefix k (c # cs)) (oldnew_of m')"
  proof (rule find_permute)
    fix x y
    assume "x \<in> set (oldnew_of m)" "y \<in> set (oldnew_of m)"
      "case x of (k, v) \<Rightarrow> k \<noteq> [] \<and> prefix k (c # cs)"
      "case y of (k, v) \<Rightarrow> k \<noteq> [] \<and> prefix k (c # cs)"
    then show "x = y" by (intro uniq) (simp_all split: prod.splits)
  qed
  show ?case
    using 2 unfolding replacer.simps(2) fnd [symmetric] by (auto split: option.splits)
qed simp

definition is_order :: "order \<Rightarrow> bool" where
  "is_order ord \<longleftrightarrow> (\<forall>m. mset (ord m) = mset m)"

lemma is_order_mset [simp]: "is_order ord \<Longrightarrow> mset (ord m) = mset m"
  by (simp add: is_order_def)

lemma is_order_set [simp]: "is_order ord \<Longrightarrow> set (ord m) = set m"
  by (metis is_order_mset set_mset_mset)

lemma is_order_wf [simp]: "is_order ord \<Longrightarrow> gomap_wf (ord m) = gomap_wf m"
  by (metis is_order_mset mset_eq_imp_distinct_iff mset_map)

lemma is_order_id [simp]: "is_order (\<lambda>m. m)" "is_order id" "is_order rev"
  by (simp_all add: is_order_def)

lemma is_order_map_of [simp]: "is_order ord \<Longrightarrow> gomap_wf m \<Longrightarrow> map_of (ord m) = map_of m"
  by (simp add: map_of_inject_set)

lemma ApplyReplacements_order:
  assumes "is_order ord" "is_order ord'" "mset r = mset r'" "gomap_wf r" "paren_free r"
  shows "ApplyReplacements ord s r = ApplyReplacements ord' s r'"
  unfolding ApplyReplacements_def using assms by (intro replacer_permute) auto

lemma ApplyReplacements_render:
  assumes "is_order ord" "gomap_wf r" "paren_free r" "\<forall>g \<in> set segs. seg_clean g"
  shows "ApplyReplacements ord (render segs) r = concat (map (subst_seg r) segs)"
proof -
  have "ApplyReplacements ord (render segs) r = ApplyReplacements (\<lambda>m. m) (render segs) r"
    using assms by (intro ApplyReplacements_order) auto
  with assms show ?thesis by (simp add: ApplyReplacements_def replacer_render)
qed

lemma ApplyReplacements_empty [simp]: "is_order ord \<Longrightarrow> ApplyReplacements ord s [] = s"
proof -
  assume "is_order ord"
  then have "ord [] = []" by (metis is_order_mset mset_zero_iff)
  moreover have "replacer [] s = s" by (induction s) (auto simp: replacer.simps)
  ultimately show ?thesis by (simp add: ApplyReplacements_def)
qed

section \<open>Lifting substitution to steps\<close>

text \<open>\<open>map_UStep f\<close> applies \<open>f\<close> to every string of a step that substitution touches. An empty
  argument or command list becomes nil, as the code's fresh slices are.\<close>

definition map_slice :: "(string \<Rightarrow> string) \<Rightarrow> string list option \<Rightarrow> string list option" where
  "map_slice f xs = (case xs of None \<Rightarrow> None | Some ys \<Rightarrow> if ys = [] then None else Some (map f ys))"

definition map_key :: "(string \<Rightarrow> string) \<Rightarrow> KeySelector \<Rightarrow> KeySelector" where
  "map_key f k = k\<lparr>ks_Name := f (ks_Name k), ks_Key := f (ks_Key k)\<rparr>"

definition map_env :: "(string \<Rightarrow> string) \<Rightarrow> EnvVar \<Rightarrow> EnvVar" where
  "map_env f e = e\<lparr>ev_Value := f (ev_Value e),
     ev_ValueFrom := map_option (\<lambda>vf. vf\<lparr>vf_SecretKeyRef := map_option (map_key f) (vf_SecretKeyRef vf),
       vf_ConfigMapKeyRef := map_option (map_key f) (vf_ConfigMapKeyRef vf)\<rparr>) (ev_ValueFrom e)\<rparr>"

definition map_envfrom :: "(string \<Rightarrow> string) \<Rightarrow> EnvFromSource \<Rightarrow> EnvFromSource" where
  "map_envfrom f e = e\<lparr>ef_Prefix := f (ef_Prefix e),
     ef_ConfigMapRef := map_option (\<lambda>c. c\<lparr>es_Name := f (es_Name c)\<rparr>) (ef_ConfigMapRef e),
     ef_SecretRef := map_option (\<lambda>c. c\<lparr>es_Name := f (es_Name c)\<rparr>) (ef_SecretRef e)\<rparr>"

definition map_mount :: "(string \<Rightarrow> string) \<Rightarrow> VolumeMount \<Rightarrow> VolumeMount" where
  "map_mount f v = v\<lparr>vm_Name := f (vm_Name v), vm_MountPath := f (vm_MountPath v),
     vm_SubPath := f (vm_SubPath v)\<rparr>"

definition map_Container :: "(string \<Rightarrow> string) \<Rightarrow> Container \<Rightarrow> Container" where
  "map_Container f c =
     c\<lparr>c_Name := f (c_Name c), c_Image := f (c_Image c),
       c_ImagePullPolicy := f (c_ImagePullPolicy c), c_Args := map_slice f (c_Args c),
       c_Env := map (map_env f) (c_Env c), c_EnvFrom := map (map_envfrom f) (c_EnvFrom c),
       c_WorkingDir := f (c_WorkingDir c), c_Command := map_slice f (c_Command c),
       c_VolumeMounts := map (map_mount f) (c_VolumeMounts c)\<rparr>"

definition map_UStep :: "(string \<Rightarrow> string) \<Rightarrow> UStep \<Rightarrow> UStep" where
  "map_UStep f s = s\<lparr>s_Script := f (s_Script s), s_Container := map_Container f (s_Container s)\<rparr>"

lemmas map_step_defs = map_UStep_def map_Container_def map_env_def map_envfrom_def map_mount_def
  map_key_def map_slice_def

lemma replace_slice_map:
  "replace_slice ord r [] args = map_slice (\<lambda>s. ApplyReplacements ord s r) args"
  by (auto simp: replace_slice_def map_slice_def ApplyArrayReplacements_def concat_map_singleton
      split: option.splits list.splits)

lemma ApplyStepReplacements_map:
  "ApplyStepReplacements ord s r [] = map_UStep (\<lambda>x. ApplyReplacements ord x r) s"
proof -
  have "replace_key ord r = map_key (\<lambda>x. ApplyReplacements ord x r)"
    by (simp add: fun_eq_iff replace_key_def map_key_def)
  moreover have "replace_mount ord r = map_mount (\<lambda>x. ApplyReplacements ord x r)"
    by (simp add: fun_eq_iff replace_mount_def map_mount_def)
  moreover have "replace_envfrom ord r = map_envfrom (\<lambda>x. ApplyReplacements ord x r)"
    by (simp add: fun_eq_iff replace_envfrom_def map_envfrom_def)
  ultimately show ?thesis
    by (simp add: ApplyStepReplacements_def applyContainerReplacements_def map_UStep_def
        map_Container_def replace_slice_map replace_env_def [abs_def] map_env_def [abs_def])
qed

lemma map_slice_comp: "map_slice g (map_slice f xs) = map_slice (\<lambda>x. g (f x)) xs"
  by (auto simp: map_slice_def split: option.splits)

lemma map_UStep_comp: "map_UStep g (map_UStep f s) = map_UStep (\<lambda>x. g (f x)) s"
  by (simp add: map_UStep_def map_Container_def map_slice_comp map_env_def [abs_def]
      map_envfrom_def [abs_def] map_mount_def [abs_def] map_key_def [abs_def] option.map_comp comp_def)

lemma map_slice_id: "map_slice (\<lambda>x. x) xs = (if xs = Some [] then None else xs)"
  by (auto simp: map_slice_def split: option.splits)

section \<open>References to parameters and workspaces\<close>

text \<open>The abstract syntax of the references a task's steps make, and their concrete spelling.\<close>

datatype wsfield = WPath | WBound | WClaim | WVolume

fun wsfield_name :: "wsfield \<Rightarrow> string" where
  "wsfield_name WPath = ''path''"
| "wsfield_name WBound = ''bound''"
| "wsfield_name WClaim = ''claim''"
| "wsfield_name WVolume = ''volume''"

datatype vref = PDot string | PSingle string | PDouble string | WVar string wsfield | OtherRef string

fun vref_name :: "vref \<Rightarrow> string" where
  "vref_name (PDot x) = ''params.'' @ x"
| "vref_name (PSingle x) = ''params['' @ squote @ x @ squote @ '']''"
| "vref_name (PDouble x) = ''params['' @ dquote @ x @ dquote @ '']''"
| "vref_name (WVar x f) = ''workspaces.'' @ x @ ''.'' @ wsfield_name f"
| "vref_name (OtherRef k) = k"

fun vref_clean :: "vref \<Rightarrow> bool" where
  "vref_clean (PDot x) = ref_clean x"
| "vref_clean (PSingle x) = ref_clean x"
| "vref_clean (PDouble x) = ref_clean x"
| "vref_clean (WVar x f) = ref_clean x"
| "vref_clean (OtherRef k) = (ref_clean k \<and> \<not> prefix ''params'' k \<and> \<not> prefix ''workspaces.'' k)"

definition bind_name :: "string gomap \<Rightarrow> string \<Rightarrow> string" where
  "bind_name m x = (case map_of m x of Some y \<Rightarrow> y | None \<Rightarrow> x)"

fun rename_param :: "string gomap \<Rightarrow> vref \<Rightarrow> vref" where
  "rename_param pb (PDot x) = PDot (bind_name pb x)"
| "rename_param pb (PSingle x) = PSingle (bind_name pb x)"
| "rename_param pb (PDouble x) = PDouble (bind_name pb x)"
| "rename_param pb v = v"

fun rename_ws :: "string gomap \<Rightarrow> vref \<Rightarrow> vref" where
  "rename_ws wb (WVar x f) = WVar (bind_name wb x) f"
| "rename_ws wb v = v"

type_synonym template = "(string + vref) list"

definition render_template :: "template \<Rightarrow> string" where
  "render_template t = render (map (case_sum Lit (\<lambda>v. Ref (vref_name v))) t)"

definition template_clean :: "template \<Rightarrow> bool" where
  "template_clean t \<longleftrightarrow>
     list_all (case_sum (\<lambda>s. CHR ''$'' \<notin> set s) vref_clean) t"

abbreviation rename_template :: "(vref \<Rightarrow> vref) \<Rightarrow> template \<Rightarrow> template" where
  "rename_template f t \<equiv> map (map_sum (\<lambda>s. s) f) t"

text \<open>Bindings between names that hold neither \<open>$\<close> nor \<open>)\<close>.\<close>

definition bindings_clean :: "string gomap \<Rightarrow> bool" where
  "bindings_clean m \<longleftrightarrow> gomap_wf m \<and> list_all (\<lambda>(x, y). ref_clean x \<and> ref_clean y) m"

lemma ref_clean_append [simp]: "ref_clean (a @ b) \<longleftrightarrow> ref_clean a \<and> ref_clean b"
  by (auto simp: ref_clean_def)

lemma vref_clean_name: "vref_clean v \<Longrightarrow> ref_clean (vref_name v)"
proof (cases v)
  case (WVar x f)
  then show "vref_clean v \<Longrightarrow> ref_clean (vref_name v)"
    by (cases f) (auto simp: ref_clean_def)
qed (auto simp: ref_clean_def squote_def dquote_def)

lemma bind_name_clean: "bindings_clean m \<Longrightarrow> ref_clean x \<Longrightarrow> ref_clean (bind_name m x)"
  by (auto simp: bind_name_def bindings_clean_def list_all_iff dest: map_of_SomeD split: option.splits)

lemma rename_clean:
  "bindings_clean m \<Longrightarrow> vref_clean v \<Longrightarrow> vref_clean (rename_param m v)"
  "bindings_clean m \<Longrightarrow> vref_clean v \<Longrightarrow> vref_clean (rename_ws m v)"
  by (cases v; simp add: bind_name_clean)+

section \<open>The replacement maps\<close>

definition param_entries :: "string \<times> string \<Rightarrow> string gomap" where
  "param_entries b =
     map (\<lambda>c. (vref_name (c (fst b)), var_ref (vref_name (c (snd b))))) [PDot, PSingle, PDouble]"

definition ws_entries :: "string \<times> string \<Rightarrow> string gomap" where
  "ws_entries b =
     map (\<lambda>f. (vref_name (WVar (fst b) f), var_ref (vref_name (WVar (snd b) f))))
       [WPath, WBound, WClaim, WVolume]"

lemma param_replacements_copy:
  "param_replacements r bs = gomap_copy r (concat (map param_entries bs))"
  by (induction r bs rule: param_replacements.induct) (simp_all add: param_entries_def)

lemma workspace_replacements_copy:
  "workspace_replacements r bs = gomap_copy r (concat (map ws_entries bs))"
  by (induction r bs rule: workspace_replacements.induct) (simp_all add: ws_entries_def)

lemma ws_name_inj: "x @ ''.'' @ wsfield_name f = y @ ''.'' @ wsfield_name g \<longleftrightarrow> x = y \<and> f = g"
proof -
  have "rev (x @ ''.'' @ wsfield_name f) = rev (y @ ''.'' @ wsfield_name g) \<longleftrightarrow> x = y \<and> f = g"
    by (cases f; cases g) auto
  then show ?thesis by (metis rev_rev_ident)
qed

lemma vref_name_inj:
  "vref_name (PDot x) = vref_name (PDot y) \<longleftrightarrow> x = y"
  "vref_name (PSingle x) = vref_name (PSingle y) \<longleftrightarrow> x = y"
  "vref_name (PDouble x) = vref_name (PDouble y) \<longleftrightarrow> x = y"
  "vref_name (WVar x f) = vref_name (WVar y g) \<longleftrightarrow> x = y \<and> f = g"
  "vref_name (PDot x) \<noteq> vref_name (PSingle y)" "vref_name (PSingle y) \<noteq> vref_name (PDot x)"
  "vref_name (PDot x) \<noteq> vref_name (PDouble y)" "vref_name (PDouble y) \<noteq> vref_name (PDot x)"
  "vref_name (PSingle x) \<noteq> vref_name (PDouble y)" "vref_name (PDouble y) \<noteq> vref_name (PSingle x)"
  "vref_name (PDot x) \<noteq> vref_name (WVar y f)" "vref_name (WVar y f) \<noteq> vref_name (PDot x)"
  "vref_name (PSingle x) \<noteq> vref_name (WVar y f)" "vref_name (WVar y f) \<noteq> vref_name (PSingle x)"
  "vref_name (PDouble x) \<noteq> vref_name (WVar y f)" "vref_name (WVar y f) \<noteq> vref_name (PDouble x)"
  using ws_name_inj [of x f y g] by (simp_all add: squote_def dquote_def)

lemma OtherRef_name:
  "\<not> vref_clean (OtherRef (vref_name (PDot x)))" "\<not> vref_clean (OtherRef (vref_name (PSingle x)))"
  "\<not> vref_clean (OtherRef (vref_name (PDouble x)))" "\<not> vref_clean (OtherRef (vref_name (WVar x f)))"
  by (auto simp: prefix_def)

text \<open>From here on the spelling of a reference is opaque: only its injectivity matters.\<close>

lemma wf_entries:
  assumes "distinct xs"
  shows "gomap_wf (concat (map param_entries (map (\<lambda>x. (x, g x)) xs)))"
    and "gomap_wf (concat (map ws_entries (map (\<lambda>x. (x, g x)) xs)))"
  using assms
  by (induction xs) (auto simp: param_entries_def ws_entries_def vref_name_inj simp del: vref_name.simps)

lemma map_of_entries:
  "map_of (concat (map param_entries bs)) (vref_name (PDot x)) =
     map_option (\<lambda>y. var_ref (vref_name (PDot y))) (map_of bs x)"
  "map_of (concat (map param_entries bs)) (vref_name (PSingle x)) =
     map_option (\<lambda>y. var_ref (vref_name (PSingle y))) (map_of bs x)"
  "map_of (concat (map param_entries bs)) (vref_name (PDouble x)) =
     map_option (\<lambda>y. var_ref (vref_name (PDouble y))) (map_of bs x)"
  "map_of (concat (map param_entries bs)) (vref_name (WVar x f)) = None"
  "map_of (concat (map ws_entries bs)) (vref_name (WVar x f)) =
     map_option (\<lambda>y. var_ref (vref_name (WVar y f))) (map_of bs x)"
  by (induction bs; cases f;
      auto simp: param_entries_def ws_entries_def vref_name_inj simp del: vref_name.simps)+

lemma map_of_entries_other:
  "vref_clean (OtherRef k) \<Longrightarrow> map_of (concat (map param_entries bs)) k = None"
  "vref_clean (OtherRef k) \<Longrightarrow> map_of (concat (map ws_entries bs)) k = None"
  "map_of (concat (map ws_entries bs)) (vref_name (PDot x)) = None"
  "map_of (concat (map ws_entries bs)) (vref_name (PSingle x)) = None"
  "map_of (concat (map ws_entries bs)) (vref_name (PDouble x)) = None"
  by (induction bs) (auto simp: param_entries_def ws_entries_def vref_name_inj OtherRef_name
      simp del: vref_name.simps vref_clean.simps)

definition param_map :: "order \<Rightarrow> string gomap \<Rightarrow> string gomap" where
  "param_map ord pb = param_replacements [] (ord pb)"

definition ws_map :: "order \<Rightarrow> string gomap \<Rightarrow> string gomap" where
  "ws_map ord wb = workspace_replacements [] (ord wb)"

lemma wf_concat_entries:
  assumes "gomap_wf bs"
  shows "gomap_wf (concat (map param_entries bs))" and "gomap_wf (concat (map ws_entries bs))"
proof -
  have "map (\<lambda>x. (x, the (map_of bs x))) (map fst bs) = bs"
    using assms by (simp add: comp_def) (intro map_idI; auto)
  then show "gomap_wf (concat (map param_entries bs))" "gomap_wf (concat (map ws_entries bs))"
    using wf_entries [OF assms, of "\<lambda>x. the (map_of bs x)"] by simp_all
qed

lemma param_map_eq:
  "is_order ord \<Longrightarrow> gomap_wf pb \<Longrightarrow> param_map ord pb = concat (map param_entries (ord pb))"
  unfolding param_map_def param_replacements_copy
  by (subst gomap_copy_append) (simp_all add: wf_concat_entries)

lemma ws_map_eq:
  "is_order ord \<Longrightarrow> gomap_wf wb \<Longrightarrow> ws_map ord wb = concat (map ws_entries (ord wb))"
  unfolding ws_map_def workspace_replacements_copy
  by (subst gomap_copy_append) (simp_all add: wf_concat_entries)

lemma mset_concat_map: "mset xs = mset ys \<Longrightarrow> mset (concat (map f xs)) = mset (concat (map f ys))"
  by (simp add: mset_concat) (metis mset_map sum_mset_sum_list)

lemma replacement_maps_order:
  assumes "is_order ord" "is_order ord'" "gomap_wf bs"
  shows "mset (param_map ord bs) = mset (param_map ord' bs)"
    and "mset (ws_map ord bs) = mset (ws_map ord' bs)"
proof -
  have m: "mset (ord bs) = mset (ord' bs)" using assms by simp
  show "mset (param_map ord bs) = mset (param_map ord' bs)"
    using mset_concat_map [OF m] assms by (simp only: param_map_eq)
  show "mset (ws_map ord bs) = mset (ws_map ord' bs)"
    using mset_concat_map [OF m] assms by (simp only: ws_map_eq)
qed

lemma replacement_maps_wf:
  assumes "is_order ord" "gomap_wf bs"
  shows "gomap_wf (param_map ord bs)" "gomap_wf (ws_map ord bs)"
  using assms by (simp_all add: param_map_eq ws_map_eq wf_concat_entries)

lemma entries_paren_free:
  assumes "\<forall>x \<in> fst ` set bs. CHR '')'' \<notin> set x"
  shows "paren_free (concat (map param_entries bs))" "paren_free (concat (map ws_entries bs))"
  using assms by (auto simp: param_entries_def ws_entries_def squote_def dquote_def)

lemma replacement_maps_paren_free:
  assumes "is_order ord" "gomap_wf bs" "paren_free bs"
  shows "paren_free (param_map ord bs)" "paren_free (ws_map ord bs)"
  using entries_paren_free [of "ord bs"] assms by (simp_all add: param_map_eq ws_map_eq)

lemma bindings_cleanD:
  "bindings_clean m \<Longrightarrow> gomap_wf m" "bindings_clean m \<Longrightarrow> paren_free m"
  by (auto simp: bindings_clean_def list_all_iff ref_clean_def)

section \<open>What the two transformers do\<close>

text \<open>Every string of a step goes through the parameter map and then the workspace map.\<close>

definition resolve_string :: "order \<Rightarrow> string gomap \<Rightarrow> string gomap \<Rightarrow> string \<Rightarrow> string" where
  "resolve_string ord pb wb s =
     ApplyReplacements ord (ApplyReplacements ord s (param_map ord pb)) (ws_map ord wb)"

lemma resolve_string_order:
  assumes "is_order ord" "is_order ord'" "gomap_wf pb" "gomap_wf wb" "paren_free pb" "paren_free wb"
  shows "resolve_string ord pb wb = resolve_string ord' pb wb"
proof
  fix s
  note wfs = replacement_maps_wf [OF assms(1)] and pfs = replacement_maps_paren_free [OF assms(1)]
  have "ApplyReplacements ord s (param_map ord pb) = ApplyReplacements ord' s (param_map ord' pb)" for s
    by (rule ApplyReplacements_order [OF assms(1,2) replacement_maps_order(1) [OF assms(1-3)]
          wfs(1) [OF assms(3)] pfs(1) [OF assms(3,5)]])
  moreover have "ApplyReplacements ord s (ws_map ord wb) = ApplyReplacements ord' s (ws_map ord' wb)" for s
    by (rule ApplyReplacements_order [OF assms(1,2) replacement_maps_order(2) [OF assms(1,2,4)]
          wfs(2) [OF assms(4)] pfs(2) [OF assms(4,6)]])
  ultimately show "resolve_string ord pb wb s = resolve_string ord' pb wb s"
    by (simp add: resolve_string_def)
qed

lemma transformers_map:
  "replaceWorkspaces ord wb (fst (replaceParams ord pb s)) =
     (map_UStep (resolve_string ord pb wb) s, None)"
  by (simp add: replaceParams_def replaceWorkspaces_def ApplyStepReplacements_map map_UStep_comp
      resolve_string_def [abs_def] param_map_def ws_map_def)

lemma subst_param:
  assumes "is_order ord" "bindings_clean pb" "vref_clean v"
  shows "subst_seg (param_map ord pb) (Ref (vref_name v)) = var_ref (vref_name (rename_param pb v))"
proof -
  have wf: "gomap_wf pb" using assms(2) by (rule bindings_cleanD)
  then show ?thesis
    using assms
    by (cases v) (auto simp: param_map_eq map_of_entries map_of_entries_other bind_name_def
        simp del: vref_name.simps(1-4) vref_clean.simps split: option.splits)
qed

lemma subst_ws:
  assumes "is_order ord" "bindings_clean wb" "vref_clean v"
  shows "subst_seg (ws_map ord wb) (Ref (vref_name v)) = var_ref (vref_name (rename_ws wb v))"
proof -
  have wf: "gomap_wf wb" using assms(2) by (rule bindings_cleanD)
  then show ?thesis
    using assms
    by (cases v) (auto simp: ws_map_eq map_of_entries map_of_entries_other bind_name_def
        simp del: vref_name.simps(1-4) vref_clean.simps split: option.splits)
qed

lemma render_template_subst:
  assumes "is_order ord" "gomap_wf r" "paren_free r" "template_clean t"
    and "\<And>v. vref_clean v \<Longrightarrow> subst_seg r (Ref (vref_name v)) = var_ref (vref_name (f v))"
  shows "ApplyReplacements ord (render_template t) r = render_template (rename_template f t)"
proof -
  let ?seg = "case_sum Lit (\<lambda>v. Ref (vref_name v))"
  from assms(4) have cl: "\<forall>g \<in> set (map ?seg t). seg_clean g"
    by (auto simp: template_clean_def list_all_iff vref_clean_name split: sum.splits)
  have "ApplyReplacements ord (render_template t) r = concat (map (subst_seg r) (map ?seg t))"
    unfolding render_template_def using assms(1-3) cl by (rule ApplyReplacements_render)
  also have "\<dots> = concat (map render_seg (map ?seg (rename_template f t)))"
    using assms(4,5)
    by (intro arg_cong [of _ _ concat]) (auto simp: template_clean_def list_all_iff split: sum.splits)
  finally show ?thesis by (simp add: render_template_def render_def)
qed

lemma rename_template_clean:
  "(\<And>v. vref_clean v \<Longrightarrow> vref_clean (f v)) \<Longrightarrow> template_clean t \<Longrightarrow> template_clean (rename_template f t)"
  by (auto simp: template_clean_def list_all_iff map_sum_def split: sum.splits)

lemma resolve_string_template:
  assumes "is_order ord" "bindings_clean pb" "bindings_clean wb" "template_clean t"
  shows "resolve_string ord pb wb (render_template t) =
         render_template (rename_template (\<lambda>v. rename_ws wb (rename_param pb v)) t)"
proof -
  note p = bindings_cleanD [OF assms(2)] and w = bindings_cleanD [OF assms(3)]
  have "ApplyReplacements ord (render_template t) (param_map ord pb) =
      render_template (rename_template (rename_param pb) t)"
    by (rule render_template_subst [OF assms(1) replacement_maps_wf(1) [OF assms(1) p(1)]
          replacement_maps_paren_free(1) [OF assms(1) p] assms(4) subst_param [OF assms(1,2)]])
  moreover have "template_clean (rename_template (rename_param pb) t)"
    using assms(2,4) by (intro rename_template_clean) (auto intro: rename_clean)
  then have "ApplyReplacements ord (render_template (rename_template (rename_param pb) t)) (ws_map ord wb) =
      render_template (rename_template (rename_ws wb) (rename_template (rename_param pb) t))"
    by (rule render_template_subst [OF assms(1) replacement_maps_wf(2) [OF assms(1) w(1)]
          replacement_maps_paren_free(2) [OF assms(1) w] _ subst_ws [OF assms(1,3)]])
  ultimately show ?thesis
    by (simp add: resolve_string_def sum.map_comp comp_def)
qed

lemma resolve_string_empty: "is_order ord \<Longrightarrow> resolve_string ord [] [] = (\<lambda>s. s)"
proof -
  assume o: "is_order ord"
  then have "ord [] = []" by (metis is_order_mset mset_zero_iff)
  with o show ?thesis by (simp add: fun_eq_iff resolve_string_def param_map_def ws_map_def)
qed

end
