(* ===== verification/Merge_Lists.thy ===== *)
theory Merge_Lists
  imports Api_Types
begin

text \<open>
  The task-spec transformers of \<open>pkg/resolve/taskgroup.go\<close>: \<open>mergeParams\<close>, \<open>mergeWorkspaces\<close>,
  \<open>mergeResults\<close>, \<open>mergeSidecars\<close> and \<open>mergeVolumes\<close>. Each walks the declarations of the TaskGroup
  and records them by name, then appends the declarations that come from the used tasks, skipping
  or refusing a name that the TaskGroup declares itself.

  The five share one contract, the locale \<open>named_merge\<close>: a loop over the used declarations and a
  clash test. What the contract gives (the result in closed form, the first clash as the error, how
  often a name occurs in the result) is proved once and interpreted five times.
\<close>

section \<open>The transformers\<close>

text \<open>\<open>seen[x.Name] = x\<close> for every declaration: a later declaration of a name overwrites.\<close>

fun seen_names :: "('a \<Rightarrow> string) \<Rightarrow> (string \<rightharpoonup> 'a) \<Rightarrow> 'a list \<Rightarrow> (string \<rightharpoonup> 'a)" where
  "seen_names nm seen [] = seen"
| "seen_names nm seen (x # xs) = seen_names nm (seen(nm x \<mapsto> x)) xs"

fun mergeParams_loop ::
    "(string \<rightharpoonup> ParamSpec) \<Rightarrow> ParamSpec list \<Rightarrow> ParamSpec list \<Rightarrow> goerror + ParamSpec list" where
  "mergeParams_loop seen params [] = Inr params"
| "mergeParams_loop seen params (p # ps) =
     (case seen (p_Name p) of
        Some sp \<Rightarrow>
          if p_Type sp \<noteq> p_Type p
          then Inl (Errorf (''Duplicate param '' @ p_Name p @ '' with different types''))
          else mergeParams_loop seen params ps
      | None \<Rightarrow> mergeParams_loop seen (params @ [p]) ps)"

definition mergeParams :: "ParamSpec list \<Rightarrow> TaskSpec \<Rightarrow> TaskSpec go" where
  "mergeParams utParams spec =
     (case mergeParams_loop (seen_names p_Name Map.empty (ts_Params spec)) (ts_Params spec) utParams of
        Inl e \<Rightarrow> (spec, Some e)
      | Inr params \<Rightarrow> (spec\<lparr>ts_Params := params\<rparr>, None))"

fun mergeWorkspaces_loop ::
    "(string \<rightharpoonup> WorkspaceDeclaration) \<Rightarrow> WorkspaceDeclaration list \<Rightarrow> WorkspaceDeclaration list \<Rightarrow>
     goerror + WorkspaceDeclaration list" where
  "mergeWorkspaces_loop seen workspaces [] = Inr workspaces"
| "mergeWorkspaces_loop seen workspaces (w # ws) =
     (case seen (w_Name w) of
        Some sw \<Rightarrow>
          if w_MountPath sw \<noteq> w_MountPath w
          then Inl (Errorf (''Duplicate workspace '' @ w_Name w @ '' with different mountPath''))
          else if w_ReadOnly sw \<noteq> w_ReadOnly w
          then Inl (Errorf (''Duplicate workspace '' @ w_Name w @ '' with different readOnly option''))
          else if w_Optional sw \<noteq> w_Optional w
          then Inl (Errorf (''Duplicate workspace '' @ w_Name w @ '' with different optional option''))
          else mergeWorkspaces_loop seen workspaces ws
      | None \<Rightarrow> mergeWorkspaces_loop seen (workspaces @ [w]) ws)"

definition mergeWorkspaces :: "WorkspaceDeclaration list \<Rightarrow> TaskSpec \<Rightarrow> TaskSpec go" where
  "mergeWorkspaces utWorkspaces spec =
     (case mergeWorkspaces_loop (seen_names w_Name Map.empty (ts_Workspaces spec))
         (ts_Workspaces spec) utWorkspaces of
        Inl e \<Rightarrow> (spec, Some e)
      | Inr workspaces \<Rightarrow> (spec\<lparr>ts_Workspaces := workspaces\<rparr>, None))"

fun mergeResults_loop ::
    "(string \<rightharpoonup> TaskResult) \<Rightarrow> TaskResult list \<Rightarrow> TaskResult list \<Rightarrow> goerror + TaskResult list" where
  "mergeResults_loop seen results [] = Inr results"
| "mergeResults_loop seen results (r # rs) =
     (case seen (r_Name r) of
        Some sr \<Rightarrow> mergeResults_loop seen results rs
      | None \<Rightarrow> mergeResults_loop seen (results @ [r]) rs)"

definition mergeResults :: "TaskResult list \<Rightarrow> TaskSpec \<Rightarrow> TaskSpec go" where
  "mergeResults utResults spec =
     (case mergeResults_loop (seen_names r_Name Map.empty (ts_Results spec)) (ts_Results spec) utResults of
        Inl e \<Rightarrow> (spec, Some e)
      | Inr results \<Rightarrow> (spec\<lparr>ts_Results := results\<rparr>, None))"

fun mergeSidecars_loop ::
    "(string \<rightharpoonup> Sidecar) \<Rightarrow> Sidecar list \<Rightarrow> Sidecar list \<Rightarrow> goerror + Sidecar list" where
  "mergeSidecars_loop seen sidecars [] = Inr sidecars"
| "mergeSidecars_loop seen sidecars (s # ss) =
     (case seen (sc_Name s) of
        Some ssc \<Rightarrow> Inl (Errorf (''Duplicated sidecars: '' @ sc_Name s))
      | None \<Rightarrow> mergeSidecars_loop seen (sidecars @ [s]) ss)"

definition mergeSidecars :: "Sidecar list \<Rightarrow> TaskSpec \<Rightarrow> TaskSpec go" where
  "mergeSidecars utSidecars spec =
     (case mergeSidecars_loop (seen_names sc_Name Map.empty (ts_Sidecars spec)) (ts_Sidecars spec) utSidecars of
        Inl e \<Rightarrow> (spec, Some e)
      | Inr sidecars \<Rightarrow> (spec\<lparr>ts_Sidecars := sidecars\<rparr>, None))"

fun mergeVolumes_loop ::
    "(string \<rightharpoonup> Volume) \<Rightarrow> Volume list \<Rightarrow> Volume list \<Rightarrow> goerror + Volume list" where
  "mergeVolumes_loop seen volumes [] = Inr volumes"
| "mergeVolumes_loop seen volumes (v # vs) =
     (case seen (v_Name v) of
        Some sv \<Rightarrow> Inl (Errorf (''Duplicated volumes: '' @ v_Name v))
      | None \<Rightarrow> mergeVolumes_loop seen (volumes @ [v]) vs)"

definition mergeVolumes :: "Volume list \<Rightarrow> TaskSpec \<Rightarrow> TaskSpec go" where
  "mergeVolumes utVolumes spec =
     (case mergeVolumes_loop (seen_names v_Name Map.empty (ts_Volumes spec)) (ts_Volumes spec) utVolumes of
        Inl e \<Rightarrow> (spec, Some e)
      | Inr volumes \<Rightarrow> (spec\<lparr>ts_Volumes := volumes\<rparr>, None))"

declare mergeParams_def [go_defs] mergeWorkspaces_def [go_defs] mergeResults_def [go_defs]
  mergeSidecars_def [go_defs] mergeVolumes_def [go_defs]

section \<open>The contract of a merge\<close>

text \<open>What the specification of a merge needs: the declaration a name was last given, the first
  used declaration that clashes with it, and the used declarations of new names.\<close>

definition declared :: "('a \<Rightarrow> string) \<Rightarrow> 'a list \<Rightarrow> (string \<rightharpoonup> 'a)" where
  "declared nm ds = map_of (rev (map (\<lambda>d. (nm d, d)) ds))"

fun first_clash ::
    "('a \<Rightarrow> string) \<Rightarrow> ('a \<Rightarrow> 'a \<Rightarrow> goerror option) \<Rightarrow> (string \<rightharpoonup> 'a) \<Rightarrow> 'a list \<Rightarrow> goerror option" where
  "first_clash nm clash seen [] = None"
| "first_clash nm clash seen (u # us) =
     (case Option.bind (seen (nm u)) (\<lambda>d. clash d u) of
        Some e \<Rightarrow> Some e
      | None \<Rightarrow> first_clash nm clash seen us)"

definition fresh :: "('a \<Rightarrow> string) \<Rightarrow> 'a list \<Rightarrow> 'a list \<Rightarrow> 'a list" where
  "fresh nm ds us = filter (\<lambda>u. nm u \<notin> nm ` set ds) us"

lemma seen_names_add: "seen_names nm seen xs = seen ++ declared nm xs"
proof (induction xs arbitrary: seen)
  case (Cons x xs)
  have "declared nm (x # xs) = [nm x \<mapsto> x] ++ declared nm xs"
    by (simp add: declared_def)
  then have "seen ++ declared nm (x # xs) = (seen ++ [nm x \<mapsto> x]) ++ declared nm xs"
    by simp
  also have "seen ++ [nm x \<mapsto> x] = seen(nm x \<mapsto> x)" by (rule ext) (simp add: map_add_def)
  finally show ?case using Cons [of "seen(nm x \<mapsto> x)"] by (simp only: seen_names.simps)
qed (simp add: declared_def)

lemma seen_names_declared [simp]: "seen_names nm Map.empty xs = declared nm xs"
  by (simp add: seen_names_add)

lemma declared_None [simp]: "declared nm ds n = None \<longleftrightarrow> n \<notin> nm ` set ds"
  by (simp add: declared_def map_of_eq_None_iff image_image)

lemma declared_Some: "declared nm ds n = Some d \<Longrightarrow> d \<in> set ds \<and> nm d = n"
  by (auto simp: declared_def dest: map_of_SomeD)

lemma declared_distinct: "distinct (map nm ds) \<Longrightarrow> d \<in> set ds \<Longrightarrow> declared nm ds (nm d) = Some d"
  by (simp add: declared_def rev_map [symmetric] comp_def)

lemma first_clash_None:
  "first_clash nm clash seen us = None \<longleftrightarrow>
     (\<forall>u \<in> set us. \<forall>d. seen (nm u) = Some d \<longrightarrow> clash d u = None)"
  by (induction us) (auto split: option.splits bind_splits)

lemma first_clash_Some:
  "first_clash nm clash seen us = Some e \<Longrightarrow> \<exists>u \<in> set us. \<exists>d. seen (nm u) = Some d \<and> clash d u = Some e"
  by (induction us) (auto split: option.splits bind_splits)

locale named_merge =
  fixes nm :: "'a \<Rightarrow> string"
    and clash :: "'a \<Rightarrow> 'a \<Rightarrow> goerror option"
    and loop :: "(string \<rightharpoonup> 'a) \<Rightarrow> 'a list \<Rightarrow> 'a list \<Rightarrow> goerror + 'a list"
  assumes loop_Nil: "loop seen acc [] = Inr acc"
    and loop_fresh: "seen (nm u) = None \<Longrightarrow> loop seen acc (u # us) = loop seen (acc @ [u]) us"
    and loop_clash: "seen (nm u) = Some d \<Longrightarrow> clash d u = Some e \<Longrightarrow> loop seen acc (u # us) = Inl e"
    and loop_skip: "seen (nm u) = Some d \<Longrightarrow> clash d u = None \<Longrightarrow>
      loop seen acc (u # us) = loop seen acc us"
begin

lemma loop_result:
  "loop seen acc us =
     (case first_clash nm clash seen us of
        Some e \<Rightarrow> Inl e
      | None \<Rightarrow> Inr (acc @ filter (\<lambda>u. seen (nm u) = None) us))"
proof (induction us arbitrary: acc)
  case (Cons u us)
  show ?case
  proof (cases "seen (nm u)")
    case None
    with Cons show ?thesis by (simp add: loop_fresh split: option.splits)
  next
    case (Some d)
    with Cons show ?thesis
      by (cases "clash d u") (simp_all add: loop_clash loop_skip split: option.splits)
  qed
qed (simp add: loop_Nil)

end

text \<open>A merge transformer runs the loop on one field of the task spec.\<close>

locale spec_merge = named_merge nm clash loop
  for nm :: "'a \<Rightarrow> string" and clash and loop +
  fixes get :: "TaskSpec \<Rightarrow> 'a list"
    and put :: "'a list \<Rightarrow> TaskSpec \<Rightarrow> TaskSpec"
    and merge :: "'a list \<Rightarrow> TaskSpec \<Rightarrow> TaskSpec go"
  assumes get_put: "get (put xs s) = xs"
    and merge_loop: "merge us s =
      (case loop (seen_names nm Map.empty (get s)) (get s) us of
         Inl e \<Rightarrow> (s, Some e) | Inr xs \<Rightarrow> (put xs s, None))"
begin

lemma merge_result:
  "merge us s =
     (case first_clash nm clash (declared nm (get s)) us of
        Some e \<Rightarrow> (s, Some e)
      | None \<Rightarrow> (put (get s @ fresh nm (get s) us) s, None))"
  by (simp add: merge_loop loop_result fresh_def split: option.splits)

lemma merge_snd: "snd (merge us s) = first_clash nm clash (declared nm (get s)) us"
  by (simp add: merge_result split: option.splits)

lemma merge_fst:
  "fst (merge us s) =
     (if first_clash nm clash (declared nm (get s)) us = None
      then put (get s @ fresh nm (get s) us) s else s)"
  by (auto simp: merge_result split: option.splits)

lemma merge_ok_iff:
  "snd (merge us s) = None \<longleftrightarrow>
     (\<forall>u \<in> set us. \<forall>d. declared nm (get s) (nm u) = Some d \<longrightarrow> clash d u = None)"
  by (simp add: merge_result first_clash_None [symmetric] split: option.splits)

lemma merge_ok:
  assumes "snd (merge us s) = None"
  shows "fst (merge us s) = put (get s @ fresh nm (get s) us) s"
  using assms by (simp add: merge_result split: option.splits)

lemma merge_error:
  assumes "snd (merge us s) = Some e"
  shows "fst (merge us s) = s"
    and "\<exists>u \<in> set us. \<exists>d \<in> set (get s). nm d = nm u \<and> clash d u = Some e"
  using assms
  by (auto simp: merge_result split: option.splits dest!: first_clash_Some declared_Some)

lemma merge_names:
  assumes "snd (merge us s) = None"
  shows "nm ` set (get (fst (merge us s))) = nm ` set (get s) \<union> nm ` set us"
  using merge_ok [OF assms] by (auto simp: get_put fresh_def)

lemma merge_count:
  assumes "snd (merge us s) = None"
  shows "count_list (map nm (get (fst (merge us s)))) n =
    count_list (map nm (get s)) n +
    (if n \<in> nm ` set (get s) then 0 else count_list (map nm us) n)"
proof -
  have "count_list (map nm (fresh nm ds us)) n =
      (if n \<in> nm ` set ds then 0 else count_list (map nm us) n)" for ds
  proof (induction us)
    case (Cons u us)
    then show ?case by (cases "nm u \<in> nm ` set ds") (auto simp: fresh_def simp del: image_iff)
  qed (simp add: fresh_def)
  then show ?thesis using merge_ok [OF assms] by (simp add: get_put)
qed

lemma merge_distinct_iff:
  assumes "snd (merge us s) = None"
  shows "distinct (map nm (get (fst (merge us s)))) \<longleftrightarrow>
    distinct (map nm (get s)) \<and> distinct (map nm (fresh nm (get s) us))"
proof -
  have "m \<notin> nm ` set (get s)" if "m \<in> nm ` set (fresh nm (get s) us)" for m
  proof -
    from that obtain u where "m = nm u" "u \<in> set (fresh nm (get s) us)" by (rule imageE)
    then show ?thesis by (simp only: fresh_def set_filter mem_Collect_eq simp_thms)
  qed
  then have "nm ` set (get s) \<inter> nm ` set (fresh nm (get s) us) = {}" by blast
  then show ?thesis using merge_ok [OF assms] by (simp add: get_put)
qed

end

section \<open>The five merges keep the contract\<close>

definition param_clash :: "ParamSpec \<Rightarrow> ParamSpec \<Rightarrow> goerror option" where
  "param_clash d u =
     (if p_Type d \<noteq> p_Type u
      then Some (Errorf (''Duplicate param '' @ p_Name u @ '' with different types'')) else None)"

definition workspace_clash :: "WorkspaceDeclaration \<Rightarrow> WorkspaceDeclaration \<Rightarrow> goerror option" where
  "workspace_clash d u =
     (if w_MountPath d \<noteq> w_MountPath u
      then Some (Errorf (''Duplicate workspace '' @ w_Name u @ '' with different mountPath''))
      else if w_ReadOnly d \<noteq> w_ReadOnly u
      then Some (Errorf (''Duplicate workspace '' @ w_Name u @ '' with different readOnly option''))
      else if w_Optional d \<noteq> w_Optional u
      then Some (Errorf (''Duplicate workspace '' @ w_Name u @ '' with different optional option''))
      else None)"

definition result_clash :: "TaskResult \<Rightarrow> TaskResult \<Rightarrow> goerror option" where
  "result_clash d u = None"

definition sidecar_clash :: "Sidecar \<Rightarrow> Sidecar \<Rightarrow> goerror option" where
  "sidecar_clash d u = Some (Errorf (''Duplicated sidecars: '' @ sc_Name u))"

definition volume_clash :: "Volume \<Rightarrow> Volume \<Rightarrow> goerror option" where
  "volume_clash d u = Some (Errorf (''Duplicated volumes: '' @ v_Name u))"

interpretation params: spec_merge p_Name param_clash mergeParams_loop ts_Params
  "\<lambda>xs. ts_Params_update (\<lambda>_. xs)" mergeParams
  by unfold_locales (auto simp: param_clash_def mergeParams_def split: if_splits)

interpretation workspaces: spec_merge w_Name workspace_clash mergeWorkspaces_loop ts_Workspaces
  "\<lambda>xs. ts_Workspaces_update (\<lambda>_. xs)" mergeWorkspaces
  by unfold_locales (auto simp: workspace_clash_def mergeWorkspaces_def split: if_splits)

interpretation results: spec_merge r_Name result_clash mergeResults_loop ts_Results
  "\<lambda>xs. ts_Results_update (\<lambda>_. xs)" mergeResults
  by unfold_locales (auto simp: result_clash_def mergeResults_def)

interpretation sidecars: spec_merge sc_Name sidecar_clash mergeSidecars_loop ts_Sidecars
  "\<lambda>xs. ts_Sidecars_update (\<lambda>_. xs)" mergeSidecars
  by unfold_locales (auto simp: sidecar_clash_def mergeSidecars_def)

interpretation volumes: spec_merge v_Name volume_clash mergeVolumes_loop ts_Volumes
  "\<lambda>xs. ts_Volumes_update (\<lambda>_. xs)" mergeVolumes
  by unfold_locales (auto simp: volume_clash_def mergeVolumes_def)

lemma mergeResults_ok [simp]: "snd (mergeResults us s) = None"
  by (simp add: results.merge_ok_iff result_clash_def)

lemma mergeSidecars_ok_iff:
  "snd (mergeSidecars us s) = None \<longleftrightarrow> sc_Name ` set us \<inter> sc_Name ` set (ts_Sidecars s) = {}"
  by (auto simp: sidecars.merge_ok_iff sidecar_clash_def)

lemma mergeVolumes_ok_iff:
  "snd (mergeVolumes us s) = None \<longleftrightarrow> v_Name ` set us \<inter> v_Name ` set (ts_Volumes s) = {}"
  by (auto simp: volumes.merge_ok_iff volume_clash_def)

lemma workspace_clash_None:
  "workspace_clash d u = None \<longleftrightarrow>
     w_MountPath d = w_MountPath u \<and> w_ReadOnly d = w_ReadOnly u \<and> w_Optional d = w_Optional u"
  by (simp add: workspace_clash_def)

lemma param_clash_None: "param_clash d u = None \<longleftrightarrow> p_Type d = p_Type u"
  by (simp add: param_clash_def)

end
