(* ===== verification/Resolve.thy ===== *)
theory Resolve
  imports Substitution Merge_Lists
begin

text \<open>
  \<open>pkg/resolve/taskgroup.go\<close>: \<open>resolveSteps\<close> and \<open>TaskSpec\<close>, which turn a TaskGroup spec and the
  specs of the tasks it uses into one TaskSpec, and \<open>MergeStepsWithStepTemplate\<close> of \<open>v1beta1\<close>,
  which it calls. The strategic merge patch of two containers (package \<open>strategicpatch\<close> on their
  JSON) is a parameter, the record \<open>Merger\<close>.

  Go passes steps by pointer: the transformers update the step in place and return the same
  pointer. The specs in \<open>usedTaskSpecs\<close> share no memory with each other (each is decoded from its
  own API response), so passing values gives the same result.
\<close>

section \<open>Steps\<close>

record Merger =
  mg_getMergeData :: "Container \<Rightarrow> goerror option"
  mg_mergeObj :: "Container \<Rightarrow> Container \<Rightarrow> goerror + Container"

fun run_transformers :: "(UStep \<Rightarrow> UStep go) list \<Rightarrow> UStep \<Rightarrow> UStep go" where
  "run_transformers [] ps = (ps, None)"
| "run_transformers (t # ts) ps =
     (case t ps of
        (ps', Some e) \<Rightarrow> (ps', Some e)
      | (ps', None) \<Rightarrow> run_transformers ts ps')"

definition zero_UStep :: UStep where
  "zero_UStep = mkStep [] [] []"

definition set_step_name :: "string \<Rightarrow> UStep \<Rightarrow> UStep" where
  "set_step_name n s = s\<lparr>s_Container := (s_Container s)\<lparr>c_Name := n\<rparr>\<rparr>"

fun resolveSteps_loop ::
    "string \<Rightarrow> (UStep \<Rightarrow> UStep go) list \<Rightarrow> nat \<Rightarrow> UStep list \<Rightarrow> UStep list \<Rightarrow> UStep list go" where
  "resolveSteps_loop name transformers i steps [] = (steps, None)"
| "resolveSteps_loop name transformers i steps (s # rest) =
     (case run_transformers transformers s of
        (ps, Some e) \<Rightarrow> (steps, Some e)
      | (ps, None) \<Rightarrow>
          resolveSteps_loop name transformers (Suc i)
            (steps[i := set_step_name (name @ ''-'' @ s_Name ps) ps]) rest)"

definition resolveSteps :: "string \<Rightarrow> TaskSpec \<Rightarrow> (UStep \<Rightarrow> UStep go) list \<Rightarrow> UStep list go" where
  "resolveSteps name taskSpec transformers =
     resolveSteps_loop name transformers 0 (replicate (length (ts_Steps taskSpec)) zero_UStep)
       (ts_Steps taskSpec)"

fun mergeSteps_loop :: "Merger \<Rightarrow> Container \<Rightarrow> UStep list \<Rightarrow> goerror + UStep list" where
  "mergeSteps_loop mg template [] = Inr []"
| "mergeSteps_loop mg template (s # ss) =
     (case mg_mergeObj mg template (s_Container s) of
        Inl e \<Rightarrow> Inl e
      | Inr merged \<Rightarrow>
          let merged' = (if c_Args merged = None \<and> c_Args (s_Container s) \<noteq> None
                         then merged\<lparr>c_Args := Some []\<rparr> else merged);
              s' = \<lparr>s_Container = merged', s_Script = s_Script s, s_Timeout = s_Timeout s,
                    s_Workspaces = [], s_OnError = s_OnError s\<rparr>
          in case mergeSteps_loop mg template ss of Inl e \<Rightarrow> Inl e | Inr ss' \<Rightarrow> Inr (s' # ss'))"

definition MergeStepsWithStepTemplate ::
    "Merger \<Rightarrow> Container option \<Rightarrow> UStep list \<Rightarrow> UStep list go" where
  "MergeStepsWithStepTemplate mg template steps =
     (case template of
        None \<Rightarrow> (steps, None)
      | Some t \<Rightarrow>
          (case mg_getMergeData mg t of
             Some e \<Rightarrow> ([], Some e)
           | None \<Rightarrow>
               (case mergeSteps_loop mg t steps of
                  Inl e \<Rightarrow> ([], Some e)
                | Inr steps' \<Rightarrow> (steps', None))))"

section \<open>TaskSpec\<close>

fun param_bindings :: "string gomap \<Rightarrow> ParamBinding list \<Rightarrow> string gomap" where
  "param_bindings m [] = m"
| "param_bindings m (b # bs) = param_bindings (gomap_set (pb_Name b) (pb_Param b) m) bs"

fun workspace_bindings :: "string gomap \<Rightarrow> WorkspaceBinding list \<Rightarrow> string gomap" where
  "workspace_bindings m [] = m"
| "workspace_bindings m (b # bs) = workspace_bindings (gomap_set (wb_Name b) (wb_Workspace b) m) bs"

text \<open>\<open>for _, p := range \<dots> { if _, ok := bindings[p.Name]; ok { continue }; acc = append(acc, p) }\<close>\<close>

fun append_unbound :: "('a \<Rightarrow> string) \<Rightarrow> string gomap \<Rightarrow> 'a list \<Rightarrow> 'a list \<Rightarrow> 'a list" where
  "append_unbound nm m acc [] = acc"
| "append_unbound nm m acc (p # ps) =
     (if map_of m (nm p) \<noteq> None then append_unbound nm m acc ps
      else append_unbound nm m (acc @ [p]) ps)"

text \<open>The local variables of \<open>TaskSpec\<close> that the loop over the steps updates.\<close>

record Acc =
  acc_Params :: "ParamSpec list"
  acc_Workspaces :: "WorkspaceDeclaration list"
  acc_Results :: "TaskResult list"
  acc_Sidecars :: "Sidecar list"
  acc_Volumes :: "Volume list"
  acc_Steps :: "UStep list"

definition TaskSpec_uses ::
    "order \<Rightarrow> nat \<Rightarrow> Step \<Rightarrow> Uses \<Rightarrow> TaskSpec \<Rightarrow> Acc \<Rightarrow> Acc \<times> UStep list go" where
  "TaskSpec_uses ord i step uses usedTaskSpec acc =
     (let paramBindings = param_bindings [] (u_ParamBindings uses);
          params = (if length (u_ParamBindings uses) > 0
                    then append_unbound p_Name paramBindings (acc_Params acc) (ts_Params usedTaskSpec)
                    else acc_Params acc @ ts_Params usedTaskSpec);
          workspaceBindings = workspace_bindings [] (u_WorkspaceBindings uses);
          workspaces = (if length (u_WorkspaceBindings uses) > 0
                    then append_unbound w_Name workspaceBindings (acc_Workspaces acc) (ts_Workspaces usedTaskSpec)
                    else acc_Workspaces acc @ ts_Workspaces usedTaskSpec);
          acc' = acc\<lparr>acc_Params := params, acc_Workspaces := workspaces,
                     acc_Results := acc_Results acc @ ts_Results usedTaskSpec,
                     acc_Sidecars := acc_Sidecars acc @ ts_Sidecars usedTaskSpec,
                     acc_Volumes := acc_Volumes acc @ ts_Volumes usedTaskSpec\<rparr>;
          stepName = (if s_Name (gs_Step step) = [] then ''unamed-'' @ itoa i
                      else s_Name (gs_Step step))
      in (acc', resolveSteps stepName usedTaskSpec
            [replaceParams ord paramBindings, replaceWorkspaces ord workspaceBindings]))"

definition TaskSpec_finish :: "Merger \<Rightarrow> Container option \<Rightarrow> UStep list \<Rightarrow> Acc \<Rightarrow> Acc go" where
  "TaskSpec_finish mg stepTemplate steps acc =
     (case MergeStepsWithStepTemplate mg stepTemplate steps of
        (_, Some e) \<Rightarrow> (acc, Some e)
      | (steps', None) \<Rightarrow> (acc\<lparr>acc_Steps := acc_Steps acc @ steps'\<rparr>, None))"

text \<open>One iteration of the loop over \<open>spec.Steps\<close>.\<close>

definition TaskSpec_step ::
    "Merger \<Rightarrow> order \<Rightarrow> TaskGroupSpec \<Rightarrow> (nat \<rightharpoonup> TaskSpec) \<Rightarrow> nat \<Rightarrow> Step \<Rightarrow> Acc \<Rightarrow> Acc go" where
  "TaskSpec_step mg ord spec usedTaskSpecs i step acc =
     (case gs_Uses step of
        None \<Rightarrow> TaskSpec_finish mg (tg_StepTemplate spec) [gs_Step step] acc
      | Some uses \<Rightarrow>
          (case usedTaskSpecs i of
             None \<Rightarrow> (acc, Some (Errorf (''step '' @ s_Name (gs_Step step) @ '' uses not found'')))
           | Some usedTaskSpec \<Rightarrow>
               (case TaskSpec_uses ord i step uses usedTaskSpec acc of
                  (acc', (_, Some e)) \<Rightarrow> (acc', Some e)
                | (acc', (rs, None)) \<Rightarrow>
                    TaskSpec_finish mg (ts_StepTemplate usedTaskSpec) rs acc')))"

fun TaskSpec_loop ::
    "Merger \<Rightarrow> order \<Rightarrow> TaskGroupSpec \<Rightarrow> (nat \<rightharpoonup> TaskSpec) \<Rightarrow> nat \<Rightarrow> Step list \<Rightarrow> Acc \<Rightarrow> Acc go" where
  "TaskSpec_loop mg ord spec used i [] acc = (acc, None)"
| "TaskSpec_loop mg ord spec used i (step # steps) acc =
     (case TaskSpec_step mg ord spec used i step acc of
        (acc', Some e) \<Rightarrow> (acc', Some e)
      | (acc', None) \<Rightarrow> TaskSpec_loop mg ord spec used (Suc i) steps acc')"

fun run_spec_transformers :: "(TaskSpec \<Rightarrow> TaskSpec go) list \<Rightarrow> TaskSpec \<Rightarrow> TaskSpec go" where
  "run_spec_transformers [] spec = (spec, None)"
| "run_spec_transformers (t # ts) spec =
     (case t spec of
        (spec', Some e) \<Rightarrow> (spec', Some e)
      | (spec', None) \<Rightarrow> run_spec_transformers ts spec')"

definition empty_Acc :: Acc where
  "empty_Acc = \<lparr>acc_Params = [], acc_Workspaces = [], acc_Results = [], acc_Sidecars = [],
     acc_Volumes = [], acc_Steps = []\<rparr>"

definition resolve_TaskSpec ::
    "Merger \<Rightarrow> order \<Rightarrow> TaskGroupSpec \<Rightarrow> (nat \<rightharpoonup> TaskSpec) \<Rightarrow> TaskSpec go" where
  "resolve_TaskSpec mg ord spec usedTaskSpecs =
     (case TaskSpec_loop mg ord spec usedTaskSpecs 0 (tg_Steps spec) empty_Acc of
        (acc, err) \<Rightarrow>
          let taskSpec = \<lparr>ts_Resources = None, ts_Params = tg_Params spec,
                 ts_Description = tg_Description spec, ts_Steps = acc_Steps acc,
                 ts_Volumes = tg_Volumes spec, ts_StepTemplate = None,
                 ts_Sidecars = tg_Sidecars spec, ts_Workspaces = tg_Workspaces spec,
                 ts_Results = tg_Results spec\<rparr>
          in case err of
               Some e \<Rightarrow> (taskSpec, Some e)
             | None \<Rightarrow>
                 run_spec_transformers
                   [mergeParams (acc_Params acc), mergeWorkspaces (acc_Workspaces acc),
                    mergeResults (acc_Results acc), mergeSidecars (acc_Sidecars acc),
                    mergeVolumes (acc_Volumes acc)] taskSpec)"

declare resolveSteps_def [go_defs] zero_UStep_def [go_defs] set_step_name_def [go_defs]
  MergeStepsWithStepTemplate_def [go_defs] TaskSpec_uses_def [go_defs] TaskSpec_finish_def [go_defs]
  TaskSpec_step_def [go_defs] empty_Acc_def [go_defs] resolve_TaskSpec_def [go_defs]

section \<open>resolveSteps in closed form\<close>

lemma resolveSteps_loop_ok:
  assumes "\<And>s. run_transformers ts s = (f s, None)" and "length done = i"
  shows "resolveSteps_loop name ts i (done @ replicate (length rest) z) rest =
    (done @ map (\<lambda>s. set_step_name (name @ ''-'' @ s_Name (f s)) (f s)) rest, None)"
  using assms(2)
proof (induction rest arbitrary: i "done")
  case (Cons s rest)
  let ?s = "set_step_name (name @ ''-'' @ s_Name (f s)) (f s)"
  have "(done @ replicate (length (s # rest)) z)[i := ?s] = (done @ [?s]) @ replicate (length rest) z"
    using Cons.prems by (simp add: list_update_append)
  with Cons.IH [of "done @ [?s]" "Suc i"] Cons.prems show ?case
    by (simp add: assms(1) del: replicate.simps)
qed simp

definition resolved_step :: "order \<Rightarrow> string gomap \<Rightarrow> string gomap \<Rightarrow> string \<Rightarrow> UStep \<Rightarrow> UStep" where
  "resolved_step ord pb wb name s =
     (let s' = map_UStep (resolve_string ord pb wb) s
      in set_step_name (name @ ''-'' @ s_Name s') s')"

lemma resolveSteps_closed:
  "resolveSteps name ut [replaceParams ord pb, replaceWorkspaces ord wb] =
     (map (resolved_step ord pb wb name) (ts_Steps ut), None)"
proof -
  have "run_transformers [replaceParams ord pb, replaceWorkspaces ord wb] s =
      (map_UStep (resolve_string ord pb wb) s, None)" for s
    using transformers_map [of ord wb pb s]
    by (simp add: replaceParams_def replaceWorkspaces_def)
  from resolveSteps_loop_ok [OF this, of "[]" 0 name "ts_Steps ut"] show ?thesis
    by (simp add: resolveSteps_def resolved_step_def [abs_def] Let_def)
qed

lemma append_unbound_filter:
  "append_unbound nm m acc ps = acc @ filter (\<lambda>p. map_of m (nm p) = None) ps"
  by (induction nm m acc ps rule: append_unbound.induct) auto

lemma param_bindings_dom: "dom (map_of (param_bindings m bs)) = dom (map_of m) \<union> pb_Name ` set bs"
  by (induction m bs rule: param_bindings.induct) auto

lemma workspace_bindings_dom:
  "dom (map_of (workspace_bindings m bs)) = dom (map_of m) \<union> wb_Name ` set bs"
  by (induction m bs rule: workspace_bindings.induct) auto

lemma param_bindings_wf [simp]: "gomap_wf m \<Longrightarrow> gomap_wf (param_bindings m bs)"
  by (induction m bs rule: param_bindings.induct) auto

lemma workspace_bindings_wf [simp]: "gomap_wf m \<Longrightarrow> gomap_wf (workspace_bindings m bs)"
  by (induction m bs rule: workspace_bindings.induct) auto

lemma unbound_param:
  "map_of (param_bindings [] bs) n = None \<longleftrightarrow> n \<notin> pb_Name ` set bs"
proof -
  have "n \<in> dom (map_of (param_bindings [] bs)) \<longleftrightarrow> n \<in> pb_Name ` set bs"
    by (simp only: param_bindings_dom) simp
  then show ?thesis by (simp only: domIff) blast
qed

lemma unbound_workspace:
  "map_of (workspace_bindings [] bs) n = None \<longleftrightarrow> n \<notin> wb_Name ` set bs"
proof -
  have "n \<in> dom (map_of (workspace_bindings [] bs)) \<longleftrightarrow> n \<in> wb_Name ` set bs"
    by (simp only: workspace_bindings_dom) simp
  then show ?thesis by (simp only: domIff) blast
qed

section \<open>The specification of TaskSpec\<close>

text \<open>What one step of the TaskGroup stands for: itself, or the steps of the task it uses, each
  substituted and renamed, merged with the step template of where they come from.\<close>

definition step_name :: "nat \<Rightarrow> Step \<Rightarrow> string" where
  "step_name i step = (if s_Name (gs_Step step) = [] then ''unamed-'' @ itoa i else s_Name (gs_Step step))"

abbreviation pbinds :: "Uses \<Rightarrow> string gomap" where
  "pbinds u \<equiv> param_bindings [] (u_ParamBindings u)"

abbreviation wbinds :: "Uses \<Rightarrow> string gomap" where
  "wbinds u \<equiv> workspace_bindings [] (u_WorkspaceBindings u)"

definition used_of :: "(nat \<rightharpoonup> TaskSpec) \<Rightarrow> nat \<times> Step \<Rightarrow> (Uses \<times> TaskSpec) option" where
  "used_of used x = Option.bind (gs_Uses (snd x)) (\<lambda>u. map_option (Pair u) (used (fst x)))"

definition used_steps :: "order \<Rightarrow> nat \<times> Step \<Rightarrow> Uses \<Rightarrow> TaskSpec \<Rightarrow> UStep list" where
  "used_steps ord x u ut =
     map (resolved_step ord (pbinds u) (wbinds u) (step_name (fst x) (snd x))) (ts_Steps ut)"

definition expand ::
    "Merger \<Rightarrow> order \<Rightarrow> TaskGroupSpec \<Rightarrow> (nat \<rightharpoonup> TaskSpec) \<Rightarrow> nat \<times> Step \<Rightarrow> UStep list go" where
  "expand mg ord spec used x =
     (case gs_Uses (snd x) of
        None \<Rightarrow> MergeStepsWithStepTemplate mg (tg_StepTemplate spec) [gs_Step (snd x)]
      | Some u \<Rightarrow>
          (case used (fst x) of
             None \<Rightarrow> ([], Some (Errorf (''step '' @ s_Name (gs_Step (snd x)) @ '' uses not found'')))
           | Some ut \<Rightarrow> MergeStepsWithStepTemplate mg (ts_StepTemplate ut) (used_steps ord x u ut)))"

text \<open>What the used tasks bring into the lists of declarations, in the order of the steps.\<close>

definition brought ::
    "(Uses \<Rightarrow> TaskSpec \<Rightarrow> 'a list) \<Rightarrow> (nat \<rightharpoonup> TaskSpec) \<Rightarrow> nat \<Rightarrow> Step list \<Rightarrow> 'a list" where
  "brought f used i steps =
     concat (map (\<lambda>x. case used_of used x of None \<Rightarrow> [] | Some (u, ut) \<Rightarrow> f u ut) (enumerate i steps))"

definition unbound_params :: "Uses \<Rightarrow> TaskSpec \<Rightarrow> ParamSpec list" where
  "unbound_params u ut = filter (\<lambda>p. p_Name p \<notin> pb_Name ` set (u_ParamBindings u)) (ts_Params ut)"

definition unbound_workspaces :: "Uses \<Rightarrow> TaskSpec \<Rightarrow> WorkspaceDeclaration list" where
  "unbound_workspaces u ut =
     filter (\<lambda>w. w_Name w \<notin> wb_Name ` set (u_WorkspaceBindings u)) (ts_Workspaces ut)"

abbreviation brought_params where
  "brought_params used spec \<equiv> brought unbound_params used 0 (tg_Steps spec)"
abbreviation brought_workspaces where
  "brought_workspaces used spec \<equiv> brought unbound_workspaces used 0 (tg_Steps spec)"
abbreviation brought_results where
  "brought_results used spec \<equiv> brought (\<lambda>u. ts_Results) used 0 (tg_Steps spec)"
abbreviation brought_sidecars where
  "brought_sidecars used spec \<equiv> brought (\<lambda>u. ts_Sidecars) used 0 (tg_Steps spec)"
abbreviation brought_volumes where
  "brought_volumes used spec \<equiv> brought (\<lambda>u. ts_Volumes) used 0 (tg_Steps spec)"

lemma brought_Nil [simp]: "brought f used i [] = []"
  by (simp add: brought_def)

lemma brought_Cons:
  "brought f used i (s # ss) =
     (case used_of used (i, s) of None \<Rightarrow> [] | Some (u, ut) \<Rightarrow> f u ut) @ brought f used (Suc i) ss"
  by (simp add: brought_def)

lemma TaskSpec_uses_closed:
  "TaskSpec_uses ord i step u ut acc =
     (acc\<lparr>acc_Params := acc_Params acc @ unbound_params u ut,
          acc_Workspaces := acc_Workspaces acc @ unbound_workspaces u ut,
          acc_Results := acc_Results acc @ ts_Results ut,
          acc_Sidecars := acc_Sidecars acc @ ts_Sidecars ut,
          acc_Volumes := acc_Volumes acc @ ts_Volumes ut\<rparr>,
      (used_steps ord (i, step) u ut, None))"
  by (auto simp: TaskSpec_uses_def Let_def append_unbound_filter unbound_param unbound_workspace
      unbound_params_def unbound_workspaces_def used_steps_def step_name_def resolveSteps_closed)

lemma TaskSpec_step_ok:
  assumes "expand mg ord spec used (i, step) = (ss, None)"
  shows "TaskSpec_step mg ord spec used i step acc =
    (acc\<lparr>acc_Params := acc_Params acc @ brought unbound_params used i [step],
         acc_Workspaces := acc_Workspaces acc @ brought unbound_workspaces used i [step],
         acc_Results := acc_Results acc @ brought (\<lambda>u. ts_Results) used i [step],
         acc_Sidecars := acc_Sidecars acc @ brought (\<lambda>u. ts_Sidecars) used i [step],
         acc_Volumes := acc_Volumes acc @ brought (\<lambda>u. ts_Volumes) used i [step],
         acc_Steps := acc_Steps acc @ ss\<rparr>, None)"
  using assms
  by (auto simp: TaskSpec_step_def expand_def TaskSpec_finish_def TaskSpec_uses_closed brought_Cons
      used_of_def split: option.splits)

lemma TaskSpec_step_error:
  assumes "expand mg ord spec used (i, step) = (ss, Some e)"
  shows "snd (TaskSpec_step mg ord spec used i step acc) = Some e"
    and "acc_Steps (fst (TaskSpec_step mg ord spec used i step acc)) = acc_Steps acc"
  using assms
  by (auto simp: TaskSpec_step_def expand_def TaskSpec_finish_def TaskSpec_uses_closed
      split: option.splits)

text \<open>The error of the first step that fails, and the steps expanded before it.\<close>

definition expand_error ::
    "Merger \<Rightarrow> order \<Rightarrow> TaskGroupSpec \<Rightarrow> (nat \<rightharpoonup> TaskSpec) \<Rightarrow> nat \<Rightarrow> Step list \<Rightarrow> goerror option" where
  "expand_error mg ord spec used i steps =
     Option.bind (find (\<lambda>x. snd (expand mg ord spec used x) \<noteq> None) (enumerate i steps))
       (\<lambda>x. snd (expand mg ord spec used x))"

definition expanded ::
    "Merger \<Rightarrow> order \<Rightarrow> TaskGroupSpec \<Rightarrow> (nat \<rightharpoonup> TaskSpec) \<Rightarrow> nat \<Rightarrow> Step list \<Rightarrow> UStep list" where
  "expanded mg ord spec used i steps =
     concat (map (\<lambda>x. fst (expand mg ord spec used x))
       (takeWhile (\<lambda>x. snd (expand mg ord spec used x) = None) (enumerate i steps)))"

lemma expand_error_None:
  "expand_error mg ord spec used i steps = None \<longleftrightarrow>
     (\<forall>x \<in> set (enumerate i steps). snd (expand mg ord spec used x) = None)"
  by (auto simp: expand_error_def find_None_iff dest!: find_Some_conv split: bind_splits)

lemma TaskSpec_loop_error:
  "snd (TaskSpec_loop mg ord spec used i steps acc) = expand_error mg ord spec used i steps"
proof (induction steps arbitrary: i acc)
  case (Cons s ss)
  obtain xs r where x: "expand mg ord spec used (i, s) = (xs, r)" by fastforce
  show ?case
  proof (cases r)
    case None
    with x Cons.IH [of "Suc i"] show ?thesis
      by (simp add: TaskSpec_step_ok [of mg ord spec used i s xs] expand_error_def)
  next
    case (Some e)
    with x TaskSpec_step_error(1) [of mg ord spec used i s xs e acc] show ?thesis
      by (auto simp: expand_error_def split: prod.splits option.splits)
  qed
qed (simp add: expand_error_def)

lemma TaskSpec_loop_steps:
  "acc_Steps (fst (TaskSpec_loop mg ord spec used i steps acc)) =
     acc_Steps acc @ expanded mg ord spec used i steps"
proof (induction steps arbitrary: i acc)
  case (Cons s ss)
  obtain xs r where x: "expand mg ord spec used (i, s) = (xs, r)" by fastforce
  show ?case
  proof (cases r)
    case None
    with x Cons.IH [of "Suc i"] show ?thesis
      by (simp add: TaskSpec_step_ok [of mg ord spec used i s xs] expanded_def)
  next
    case (Some e)
    with x TaskSpec_step_error [of mg ord spec used i s xs e acc] show ?thesis
      by (auto simp: expanded_def split: prod.splits option.splits)
  qed
qed (simp add: expanded_def)

lemma TaskSpec_loop_brought:
  assumes "expand_error mg ord spec used i steps = None"
  shows "TaskSpec_loop mg ord spec used i steps acc =
    (acc\<lparr>acc_Params := acc_Params acc @ brought unbound_params used i steps,
         acc_Workspaces := acc_Workspaces acc @ brought unbound_workspaces used i steps,
         acc_Results := acc_Results acc @ brought (\<lambda>u. ts_Results) used i steps,
         acc_Sidecars := acc_Sidecars acc @ brought (\<lambda>u. ts_Sidecars) used i steps,
         acc_Volumes := acc_Volumes acc @ brought (\<lambda>u. ts_Volumes) used i steps,
         acc_Steps := acc_Steps acc @ expanded mg ord spec used i steps\<rparr>, None)"
  using assms
proof (induction steps arbitrary: i acc)
  case (Cons s ss)
  from Cons.prems obtain xs where x: "expand mg ord spec used (i, s) = (xs, None)"
    by (auto simp: expand_error_None) (metis prod.collapse)
  from Cons.prems have "expand_error mg ord spec used (Suc i) ss = None"
    by (simp add: expand_error_None)
  from Cons.IH [OF this] x show ?case
    by (simp add: TaskSpec_step_ok [OF x] expanded_def brought_Cons)
qed (simp add: expanded_def)

section \<open>TaskSpec meets its specification\<close>

text \<open>The errors \<open>TaskSpec\<close> can return, in the order in which the code looks for them.\<close>

definition merge_errors :: "TaskGroupSpec \<Rightarrow> (nat \<rightharpoonup> TaskSpec) \<Rightarrow> goerror option list" where
  "merge_errors spec used =
     [first_clash p_Name param_clash (declared p_Name (tg_Params spec)) (brought_params used spec),
      first_clash w_Name workspace_clash (declared w_Name (tg_Workspaces spec)) (brought_workspaces used spec),
      first_clash sc_Name sidecar_clash (declared sc_Name (tg_Sidecars spec)) (brought_sidecars used spec),
      first_clash v_Name volume_clash (declared v_Name (tg_Volumes spec)) (brought_volumes used spec)]"

fun first_some :: "'a option list \<Rightarrow> 'a option" where
  "first_some [] = None"
| "first_some (None # xs) = first_some xs"
| "first_some (Some x # xs) = Some x"

lemma first_some_None: "first_some xs = None \<longleftrightarrow> (\<forall>x \<in> set xs. x = None)"
  by (induction xs rule: first_some.induct) auto

definition merged_spec ::
    "Merger \<Rightarrow> order \<Rightarrow> TaskGroupSpec \<Rightarrow> (nat \<rightharpoonup> TaskSpec) \<Rightarrow> TaskSpec" where
  "merged_spec mg ord spec used =
     \<lparr>ts_Resources = None,
      ts_Params = tg_Params spec @ fresh p_Name (tg_Params spec) (brought_params used spec),
      ts_Description = tg_Description spec,
      ts_Steps = concat (map (\<lambda>x. fst (expand mg ord spec used x)) (enumerate 0 (tg_Steps spec))),
      ts_Volumes = tg_Volumes spec @ brought_volumes used spec,
      ts_StepTemplate = None,
      ts_Sidecars = tg_Sidecars spec @ brought_sidecars used spec,
      ts_Workspaces = tg_Workspaces spec @ fresh w_Name (tg_Workspaces spec) (brought_workspaces used spec),
      ts_Results = tg_Results spec @ fresh r_Name (tg_Results spec) (brought_results used spec)\<rparr>"

lemma expanded_all:
  assumes "expand_error mg ord spec used i steps = None"
  shows "expanded mg ord spec used i steps =
    concat (map (\<lambda>x. fst (expand mg ord spec used x)) (enumerate i steps))"
proof -
  have "takeWhile (\<lambda>x. snd (expand mg ord spec used x) = None) (enumerate i steps) = enumerate i steps"
    using assms unfolding takeWhile_eq_all_conv expand_error_None by blast
  then show ?thesis by (simp only: expanded_def)
qed

lemma fresh_disjoint: "nm ` set us \<inter> nm ` set ds = {} \<Longrightarrow> fresh nm ds us = us"
  by (auto simp: fresh_def filter_id_conv)

lemma clash_always_disjoint:
  assumes "\<And>d u. clash d u \<noteq> None" "first_clash nm clash (declared nm ds) us = None"
  shows "nm ` set us \<inter> nm ` set ds = {}"
proof -
  have "nm u \<notin> nm ` set ds" if "u \<in> set us" for u
    using assms that declared_None [of nm ds "nm u"] unfolding first_clash_None
    by (metis not_None_eq)
  then show ?thesis by blast
qed

lemmas merge_results = params.merge_snd workspaces.merge_snd results.merge_snd
  sidecars.merge_snd volumes.merge_snd params.merge_fst workspaces.merge_fst results.merge_fst
  sidecars.merge_fst volumes.merge_fst

lemma run_spec_transformers_Cons:
  "run_spec_transformers (t # ts) spec =
     (if snd (t spec) = None then run_spec_transformers ts (fst (t spec)) else t spec)"
  by (auto split: prod.splits option.splits)

lemma first_some_Cons: "first_some (x # xs) = (if x = None then first_some xs else x)"
  by (cases x) simp_all

lemma first_clash_result [simp]: "first_clash r_Name result_clash seen us = None"
  by (simp add: first_clash_None result_clash_def)

lemma resolve_TaskSpec_snd:
  "snd (resolve_TaskSpec mg ord spec used) =
     first_some (expand_error mg ord spec used 0 (tg_Steps spec) # merge_errors spec used)"
proof (cases "expand_error mg ord spec used 0 (tg_Steps spec)")
  case None
  show ?thesis
    by (simp add: resolve_TaskSpec_def TaskSpec_loop_brought [OF None] None empty_Acc_def merge_results
        merge_errors_def first_some_Cons Let_def run_spec_transformers_Cons del: run_spec_transformers.simps(2)
        first_some.simps(2,3))
next
  case (Some e)
  with TaskSpec_loop_error [of mg ord spec used 0 "tg_Steps spec" empty_Acc] show ?thesis
    by (auto simp: resolve_TaskSpec_def Let_def split: prod.splits)
qed

lemma resolve_TaskSpec_fst:
  assumes "snd (resolve_TaskSpec mg ord spec used) = None"
  shows "fst (resolve_TaskSpec mg ord spec used) = merged_spec mg ord spec used"
proof -
  from assms have e: "expand_error mg ord spec used 0 (tg_Steps spec) = None"
    and m: "\<forall>x \<in> set (merge_errors spec used). x = None"
    by (simp_all only: resolve_TaskSpec_snd first_some_None) auto
  have "fresh sc_Name (tg_Sidecars spec) (brought_sidecars used spec) = brought_sidecars used spec"
    using m by (intro fresh_disjoint clash_always_disjoint [of sidecar_clash])
      (auto simp: merge_errors_def sidecar_clash_def)
  moreover have "fresh v_Name (tg_Volumes spec) (brought_volumes used spec) = brought_volumes used spec"
    using m by (intro fresh_disjoint clash_always_disjoint [of volume_clash])
      (auto simp: merge_errors_def volume_clash_def)
  ultimately show ?thesis
    using m by (simp add: resolve_TaskSpec_def TaskSpec_loop_brought [OF e] empty_Acc_def merge_results
        merge_errors_def merged_spec_def expanded_all [OF e] Let_def run_spec_transformers_Cons
        del: run_spec_transformers.simps(2))
qed

lemma resolve_TaskSpec_partial:
  assumes "expand_error mg ord spec used 0 (tg_Steps spec) = Some e"
  shows "ts_Steps (fst (resolve_TaskSpec mg ord spec used)) = expanded mg ord spec used 0 (tg_Steps spec)"
proof -
  obtain acc r where l: "TaskSpec_loop mg ord spec used 0 (tg_Steps spec) empty_Acc = (acc, r)"
    by fastforce
  with assms TaskSpec_loop_error [of mg ord spec used 0 "tg_Steps spec" empty_Acc]
  have "r = Some e" by simp
  moreover have "acc_Steps acc = expanded mg ord spec used 0 (tg_Steps spec)"
    using l TaskSpec_loop_steps [of mg ord spec used 0 "tg_Steps spec" empty_Acc]
    by (simp add: empty_Acc_def)
  ultimately show ?thesis using l by (simp add: resolve_TaskSpec_def)
qed

lemma resolved_step_order:
  assumes "is_order ord" "is_order ord'" "gomap_wf pb" "gomap_wf wb" "paren_free pb" "paren_free wb"
  shows "resolved_step ord pb wb name = resolved_step ord' pb wb name"
  using resolve_string_order [OF assms] by (simp add: resolved_step_def [abs_def])

text \<open>Names of bound parameters and workspaces without a closing parenthesis.\<close>

definition uses_paren_free :: "Uses \<Rightarrow> bool" where
  "uses_paren_free u \<longleftrightarrow>
     list_all (\<lambda>b. CHR '')'' \<notin> set (pb_Name b)) (u_ParamBindings u) \<and>
     list_all (\<lambda>b. CHR '')'' \<notin> set (wb_Name b)) (u_WorkspaceBindings u)"

lemma binds_paren_free:
  assumes "uses_paren_free u"
  shows "paren_free (pbinds u)" "paren_free (wbinds u)"
proof -
  have "fst ` set (pbinds u) = pb_Name ` set (u_ParamBindings u)"
    using param_bindings_dom [of "[]"] by (simp add: dom_map_of_conv_image_fst)
  then show "paren_free (pbinds u)" using assms by (auto simp: uses_paren_free_def list_all_iff)
  have "fst ` set (wbinds u) = wb_Name ` set (u_WorkspaceBindings u)"
    using workspace_bindings_dom [of "[]"] by (simp add: dom_map_of_conv_image_fst)
  then show "paren_free (wbinds u)" using assms by (auto simp: uses_paren_free_def list_all_iff)
qed

end
