(* ===== verification/Field_Errors.thy ===== *)
theory Field_Errors
  imports Go_Prelude "HOL-Library.Char_ord" "HOL-Library.List_Lexorder" "HOL-Library.Product_Lexorder"
begin

text \<open>
  \<open>FieldError\<close> of \<open>knative.dev/pkg/apis/field_error.go\<close>, the tree of validation errors that
  \<open>Validate\<close> methods build with \<open>Also\<close>, \<open>ViaField\<close> and \<open>ViaIndex\<close> and that \<open>Error\<close> prints.
  A \<open>*FieldError\<close> is a \<open>FieldError option\<close>. The variadic \<open>Also\<close> is modelled with one argument,
  as all of its callers use it. The lemmas describe an error by its leaves (\<open>normalized\<close>): \<open>Also\<close>
  concatenates them and \<open>ViaField\<close> prefixes the paths of each.
\<close>

section \<open>The type and its methods\<close>

datatype FieldError =
  FieldError (fe_Message: string) (fe_Paths: "string list") (fe_Details: string)
    (fe_errors: "FieldError list")

type_synonym field_errors = "FieldError option"

definition isEmpty :: "field_errors \<Rightarrow> bool" where
  "isEmpty fe =
     (case fe of
        None \<Rightarrow> True
      | Some e \<Rightarrow> fe_Message e = [] \<and> fe_Details e = [] \<and> fe_errors e = [] \<and> fe_Paths e = [])"

definition add_error :: "FieldError \<Rightarrow> FieldError \<Rightarrow> FieldError" where
  "add_error fe e =
     (let newErr = (if isEmpty (Some fe) then FieldError [] [] [] [] else fe)
      in FieldError (fe_Message newErr) (fe_Paths newErr) (fe_Details newErr) (fe_errors newErr @ [e]))"

definition Also :: "field_errors \<Rightarrow> field_errors \<Rightarrow> field_errors" where
  "Also fe err =
     (case err of
        None \<Rightarrow> fe
      | Some e \<Rightarrow>
          if isEmpty err then fe
          else (case fe of
                  None \<Rightarrow> Some (add_error (FieldError [] [] [] []) e)
                | Some f \<Rightarrow> Some (add_error f e)))"

definition isIndex :: "string \<Rightarrow> bool" where
  "isIndex part \<longleftrightarrow> prefix ''['' part \<and> suffix '']'' part"

definition asIndex :: "nat \<Rightarrow> string" where
  "asIndex index = ''['' @ itoa index @ '']''"

definition asKey :: "string \<Rightarrow> string" where
  "asKey key = ''['' @ key @ '']''"

fun flatten_parts :: "string list \<Rightarrow> string list \<Rightarrow> string list" where
  "flatten_parts newPath [] = newPath"
| "flatten_parts newPath (p # ps) =
     (if p = [] then flatten_parts newPath ps
      else if newPath \<noteq> [] \<and> isIndex p
      then flatten_parts (butlast newPath @ [last newPath @ p]) ps
      else flatten_parts (newPath @ [p]) ps)"

definition flatten :: "string list \<Rightarrow> string" where
  "flatten path = join_with ''.'' (flatten_parts [] (concat (map (split_on CHR ''.'') path)))"

fun ViaField_rec :: "string \<Rightarrow> FieldError \<Rightarrow> FieldError" where
  "ViaField_rec pre (FieldError m ps d es) =
     foldl (\<lambda>newErr e. if isEmpty (Some e) then newErr else add_error newErr e)
       (FieldError m (map (\<lambda>oldPath. flatten [pre, oldPath]) ps) d [])
       (map (ViaField_rec pre) es)"

definition ViaField :: "string \<Rightarrow> field_errors \<Rightarrow> field_errors" where
  "ViaField pre fe = map_option (ViaField_rec pre) fe"

definition ViaIndex :: "nat \<Rightarrow> field_errors \<Rightarrow> field_errors" where
  "ViaIndex index fe = ViaField (asIndex index) fe"

definition ViaFieldIndex :: "string \<Rightarrow> nat \<Rightarrow> field_errors \<Rightarrow> field_errors" where
  "ViaFieldIndex field index fe = ViaField field (ViaIndex index fe)"

definition ViaKey :: "string \<Rightarrow> field_errors \<Rightarrow> field_errors" where
  "ViaKey key fe = ViaField (asKey key) fe"

definition ViaFieldKey :: "string \<Rightarrow> string \<Rightarrow> field_errors \<Rightarrow> field_errors" where
  "ViaFieldKey field key fe = ViaField field (ViaKey key fe)"

text \<open>A leaf is the triple \<open>(Message, Paths, Details)\<close> of an error that carries a message.\<close>

type_synonym leaf = "string \<times> string list \<times> string"

fun normalized_rec :: "FieldError \<Rightarrow> leaf list" where
  "normalized_rec (FieldError m ps d es) =
     (if m \<noteq> [] then [(m, ps, d)] else []) @ concat (map normalized_rec es)"

definition normalized :: "field_errors \<Rightarrow> leaf list" where
  "normalized fe = (case fe of None \<Rightarrow> [] | Some e \<Rightarrow> normalized_rec e)"

fun mergePaths :: "string list \<Rightarrow> string list \<Rightarrow> string list" where
  "mergePaths newPaths [] = newPaths"
| "mergePaths newPaths (bi # b) =
     (if bi \<in> set newPaths then mergePaths newPaths b else mergePaths (newPaths @ [bi]) b)"

definition fe_key :: "leaf \<Rightarrow> string" where
  "fe_key e = fst e @ ''-'' @ snd (snd e)"

text \<open>The map of \<open>merge\<close> from the key to the error with the paths collected so far.\<close>

fun merge_map :: "leaf gomap \<Rightarrow> leaf list \<Rightarrow> leaf gomap" where
  "merge_map m [] = m"
| "merge_map m (e # es) =
     (case map_of m (fe_key e) of
        Some (vm, vp, vd) \<Rightarrow> merge_map (gomap_set (fe_key e) (vm, mergePaths vp (fst (snd e)), vd) m) es
      | None \<Rightarrow> merge_map (gomap_set (fe_key e) e m) es)"

text \<open>Go iterates the map in an arbitrary order, then sorts: \<open>ord\<close> is that order.\<close>

definition merge_leaves :: "(leaf gomap \<Rightarrow> leaf gomap) \<Rightarrow> leaf list \<Rightarrow> leaf list" where
  "merge_leaves ord errs =
     sort_key (\<lambda>e. (fst e, snd (snd e)))
       (map (\<lambda>(k, (m, ps, d)). (m, sort ps, d)) (ord (merge_map [] errs)))"

definition leaf_line :: "leaf \<Rightarrow> string" where
  "leaf_line e =
     (case e of (m, ps, d) \<Rightarrow>
        if d = [] then m @ '': '' @ join_with '', '' ps
        else m @ '': '' @ join_with '', '' ps @ [CHR 0x0A] @ d)"

definition FieldError_Error :: "(leaf gomap \<Rightarrow> leaf gomap) \<Rightarrow> field_errors \<Rightarrow> string" where
  "FieldError_Error ord fe =
     join_with [CHR 0x0A] (map leaf_line (merge_leaves ord (normalized fe)))"

definition ErrMissingField :: "string list \<Rightarrow> field_errors" where
  "ErrMissingField fieldPaths = Some (FieldError ''missing field(s)'' fieldPaths [] [])"

definition ErrInvalidValue :: "string \<Rightarrow> string \<Rightarrow> string list \<Rightarrow> field_errors" where
  "ErrInvalidValue value fieldPath details =
     Some (FieldError (''invalid value: '' @ value) [fieldPath] (join_with '', '' details) [])"

definition ErrGeneric :: "string \<Rightarrow> string list \<Rightarrow> field_errors" where
  "ErrGeneric diagnostic fieldPaths = Some (FieldError diagnostic fieldPaths [] [])"

definition ErrInvalidKeyName :: "string \<Rightarrow> string \<Rightarrow> string list \<Rightarrow> field_errors" where
  "ErrInvalidKeyName key fieldPath details =
     Some (FieldError (''invalid key name '' @ quote key) [fieldPath] (join_with '', '' details) [])"

declare ErrMissingField_def [go_defs] ErrInvalidValue_def [go_defs] ErrGeneric_def [go_defs]
  ErrInvalidKeyName_def [go_defs]

section \<open>Leaves\<close>

definition leaf_via :: "string \<Rightarrow> leaf \<Rightarrow> leaf" where
  "leaf_via pre e = (fst e, map (\<lambda>oldPath. flatten [pre, oldPath]) (fst (snd e)), snd (snd e))"

named_theorems leaves "how the methods of a FieldError act on its leaves"

lemma normalized_None [leaves, simp]: "normalized None = []"
  by (simp add: normalized_def)

lemma normalized_empty: "isEmpty fe \<Longrightarrow> normalized fe = []"
  by (cases fe; cases "the fe") (auto simp: isEmpty_def normalized_def)

lemma normalized_add_error:
  "normalized_rec (add_error f e) = normalized_rec f @ normalized_rec e"
  by (cases f) (auto simp: add_error_def isEmpty_def Let_def)

lemma normalized_Also [leaves]: "normalized (Also fe err) = normalized fe @ normalized err"
proof (cases "isEmpty err")
  case True
  then show ?thesis by (auto simp: Also_def normalized_empty split: option.splits)
next
  case False
  then obtain e where e: "err = Some e" by (cases err) (auto simp: isEmpty_def)
  with False show ?thesis
    by (auto simp: Also_def normalized_def normalized_add_error split: option.splits)
qed

lemma normalized_foldl:
  "normalized_rec (foldl (\<lambda>newErr e. if isEmpty (Some e) then newErr else add_error newErr e) f es) =
     normalized_rec f @ concat (map normalized_rec es)"
proof (induction es arbitrary: f)
  case (Cons e es)
  then show ?case
    using normalized_empty [of "Some e"] by (auto simp: normalized_add_error normalized_def)
qed simp

lemma normalized_ViaField_rec: "normalized_rec (ViaField_rec pre f) = map (leaf_via pre) (normalized_rec f)"
proof (induction f)
  case (FieldError m ps d es)
  have "map (normalized_rec \<circ> ViaField_rec pre) es = map (map (leaf_via pre) \<circ> normalized_rec) es"
    using FieldError by simp
  then show ?case
    by (simp add: normalized_foldl map_concat leaf_via_def [of _ "(m, ps, d)"] del: map_eq_conv)
qed

lemma normalized_ViaField [leaves]: "normalized (ViaField pre fe) = map (leaf_via pre) (normalized fe)"
  by (cases fe) (simp_all add: ViaField_def normalized_def normalized_ViaField_rec)

lemma normalized_Err [leaves]:
  "normalized (ErrMissingField ps) = [(''missing field(s)'', ps, [])]"
  "normalized (ErrInvalidValue v p ds) = [(''invalid value: '' @ v, [p], join_with '', '' ds)]"
  "m \<noteq> [] \<Longrightarrow> normalized (ErrGeneric m ps) = [(m, ps, [])]"
  "normalized (ErrInvalidKeyName k p ds) = [(''invalid key name '' @ quote k, [p], join_with '', '' ds)]"
  by (simp_all add: go_defs normalized_def)

section \<open>No error is lost\<close>

text \<open>Errors in which every leaf carries a message. On them \<open>nil\<close>, emptiness and the absence of
  leaves are the same, so \<open>Also\<close> is nil only if both sides are.\<close>

fun fe_wf_rec :: "FieldError \<Rightarrow> bool" where
  "fe_wf_rec (FieldError m ps d es) \<longleftrightarrow> (m \<noteq> [] \<or> es \<noteq> []) \<and> list_all fe_wf_rec es"

definition fe_wf :: "field_errors \<Rightarrow> bool" where
  "fe_wf fe = (case fe of None \<Rightarrow> True | Some e \<Rightarrow> fe_wf_rec e)"

named_theorems fe_wfs "the errors that keep the well-formedness of FieldError"

lemma fe_wf_rec_leaves: "fe_wf_rec f \<Longrightarrow> normalized_rec f \<noteq> []"
proof (induction f)
  case (FieldError m ps d es)
  then show ?case by (cases es) auto
qed

lemma fe_wf_leaves: "fe_wf fe \<Longrightarrow> normalized fe = [] \<longleftrightarrow> fe = None"
  by (cases fe) (auto simp: fe_wf_def normalized_def dest: fe_wf_rec_leaves)

lemma fe_wf_None [fe_wfs, simp]: "fe_wf None"
  by (simp add: fe_wf_def)

lemma fe_wf_nonempty: "fe_wf_rec f \<Longrightarrow> \<not> isEmpty (Some f)"
  by (cases f) (auto simp: isEmpty_def)

lemma fe_wf_add_error:
  "fe_wf_rec f \<or> fe_errors f = [] \<Longrightarrow> fe_wf_rec e \<Longrightarrow> fe_wf_rec (add_error f e)"
  by (cases f) (auto simp: add_error_def Let_def)

lemma fe_wf_Also [fe_wfs]: "fe_wf fe \<Longrightarrow> fe_wf err \<Longrightarrow> fe_wf (Also fe err)"
  by (simp add: fe_wf_def Also_def fe_wf_add_error split: option.splits)

lemma fe_wf_foldl:
  "\<forall>e \<in> set es. fe_wf_rec e \<Longrightarrow> fe_wf_rec f \<or> fe_errors f = [] \<and> es \<noteq> [] \<Longrightarrow>
     fe_wf_rec (foldl (\<lambda>newErr e. if isEmpty (Some e) then newErr else add_error newErr e) f es)"
proof (induction es arbitrary: f)
  case (Cons e es)
  then have e: "fe_wf_rec e" "\<not> isEmpty (Some e)" by (auto dest: fe_wf_nonempty)
  then have "fe_wf_rec (add_error f e)" using Cons.prems(2) by (auto intro: fe_wf_add_error)
  with Cons.IH [of "add_error f e"] Cons.prems(1) e(2) show ?case by simp
qed auto

lemma fe_wf_ViaField_rec: "fe_wf_rec f \<Longrightarrow> fe_wf_rec (ViaField_rec pre f)"
proof (induction f)
  case (FieldError m ps d es)
  then show ?case by (auto simp: list_all_iff intro!: fe_wf_foldl)
qed

lemma fe_wf_ViaField [fe_wfs]: "fe_wf fe \<Longrightarrow> fe_wf (ViaField pre fe)"
  by (cases fe) (simp_all add: fe_wf_def ViaField_def fe_wf_ViaField_rec)

lemma ViaField_None_iff [simp]: "ViaField pre fe = None \<longleftrightarrow> fe = None"
  by (simp add: ViaField_def)

lemma fe_wf_Err [fe_wfs]:
  "fe_wf (ErrMissingField ps)" "fe_wf (ErrInvalidValue v p ds)" "fe_wf (ErrInvalidKeyName k p ds)"
  "m \<noteq> [] \<Longrightarrow> fe_wf (ErrGeneric m ps)" "m \<noteq> [] \<Longrightarrow> fe_wf (Some (FieldError m ps d []))"
  by (simp_all add: go_defs fe_wf_def)

lemma Err_not_None [simp]:
  "ErrMissingField ps \<noteq> None" "ErrInvalidValue v p ds \<noteq> None" "ErrInvalidKeyName k p ds \<noteq> None"
  "ErrGeneric m ps \<noteq> None"
  by (simp_all add: go_defs)

lemma Also_None_iff [simp]: "fe_wf err \<Longrightarrow> Also fe err = None \<longleftrightarrow> fe = None \<and> err = None"
  by (cases err) (auto simp: Also_def fe_wf_def dest: fe_wf_nonempty split: option.splits)

text \<open>\<open>for idx, x := range xs { errs = errs.Also(f(idx, x)) }\<close>\<close>

fun Also_loop :: "(nat \<Rightarrow> 'a \<Rightarrow> field_errors) \<Rightarrow> nat \<Rightarrow> 'a list \<Rightarrow> field_errors \<Rightarrow> field_errors" where
  "Also_loop f i [] errs = errs"
| "Also_loop f i (x # xs) errs = Also_loop f (Suc i) xs (Also errs (f i x))"

lemma normalized_Also_loop [leaves]:
  "normalized (Also_loop f i xs errs) =
     normalized errs @ concat (map (\<lambda>(i, x). normalized (f i x)) (enumerate i xs))"
  by (induction f i xs errs rule: Also_loop.induct) (simp_all add: leaves)

lemma fe_wf_Also_loop [fe_wfs]:
  "(\<And>i x. x \<in> set xs \<Longrightarrow> fe_wf (f i x)) \<Longrightarrow> fe_wf errs \<Longrightarrow> fe_wf (Also_loop f i xs errs)"
  by (induction f i xs errs rule: Also_loop.induct) (simp_all add: fe_wfs)

lemma Also_loop_None_iff [simp]:
  "(\<And>i x. x \<in> set xs \<Longrightarrow> fe_wf (f i x)) \<Longrightarrow>
     Also_loop f i xs errs = None \<longleftrightarrow> errs = None \<and> (\<forall>(i, x) \<in> set (enumerate i xs). f i x = None)"
  by (induction f i xs errs rule: Also_loop.induct) auto

section \<open>Printing does not depend on the order of the map\<close>

lemma merge_map_wf: "gomap_wf m \<Longrightarrow> gomap_wf (merge_map m es)"
  by (induction m es rule: merge_map.induct) (auto split: option.splits)

lemma fe_key_paths: "fe_key (m, ps, d) = fe_key (m, ps', d)"
  by (simp add: fe_key_def)

lemma merge_map_keys:
  "\<forall>(k, e) \<in> set m. k = fe_key e \<Longrightarrow> gomap_wf m \<Longrightarrow> \<forall>(k, e) \<in> set (merge_map m es). k = fe_key e"
proof (induction m es rule: merge_map.induct)
  case (2 m e es)
  have upd: "\<forall>(k, e) \<in> set (gomap_set (fe_key e) v m). k = fe_key e" if "fe_key v = fe_key e" for v
  proof (clarify)
    fix k x assume "(k, x) \<in> set (gomap_set (fe_key e) v m)"
    then have "((map_of m)(fe_key e \<mapsto> v)) k = Some x"
      using "2.prems"(2) by (metis gomap_set_wf map_of_eq_Some_iff map_of_gomap_set)
    then show "k = fe_key x"
      using that "2.prems"(1) by (auto split: if_splits dest: map_of_SomeD)
  qed
  show ?case
  proof (cases "map_of m (fe_key e)")
    case None
    from "2.IH"(1) [OF None upd [OF refl] gomap_set_wf [OF "2.prems"(2)]] None show ?thesis by simp
  next
    case (Some v)
    obtain vm vp vd where v: "v = (vm, vp, vd)" by (cases v)
    have "fe_key v = fe_key e" using map_of_SomeD [OF Some] "2.prems"(1) by fastforce
    then have "fe_key (vm, mergePaths vp (fst (snd e)), vd) = fe_key e" by (simp add: v fe_key_def)
    from "2.IH"(2) [OF Some v [symmetric] refl upd [OF this] gomap_set_wf [OF "2.prems"(2)]] Some v
    show ?thesis by simp
  qed
qed simp

lemma merge_leaves_order:
  assumes "\<And>m. mset (ord m) = mset m"
  shows "merge_leaves ord errs = merge_leaves (\<lambda>m. m) errs"
proof -
  let ?g = "\<lambda>(k :: string, (m, ps, d)). (m :: string, sort (ps :: string list), d :: string)"
  let ?k = "\<lambda>e :: leaf. (fst e, snd (snd e))"
  have keys: "\<forall>(k, e) \<in> set (merge_map [] errs). k = fe_key e" and wf: "gomap_wf (merge_map [] errs)"
    by (rule merge_map_keys, simp, simp, rule merge_map_wf, simp)
  have "inj_on ?k (set (map ?g (merge_map [] errs)))"
  proof (rule inj_onI)
    fix x y assume xy: "x \<in> set (map ?g (merge_map [] errs))" "y \<in> set (map ?g (merge_map [] errs))" "?k x = ?k y"
    then obtain a b where a: "a \<in> set (merge_map [] errs)" "x = ?g a" and b: "b \<in> set (merge_map [] errs)" "y = ?g b"
      by (auto simp del: split_paired_All)
    have ka: "fst a = fe_key (snd a)" "fst b = fe_key (snd b)" using keys a(1) b(1) by fastforce+
    have "fe_key (snd a) = fe_key (snd b)"
      using xy(3) unfolding a(2) b(2) by (cases a, cases b) (auto simp: fe_key_def)
    with ka have "fst a = fst b" by simp
    with wf a b show "x = y" by (metis eq_key_imp_eq_value prod.collapse)
  qed
  moreover have "mset (map ?g (ord (merge_map [] errs))) = mset (map ?g (merge_map [] errs))"
    by (simp add: assms)
  moreover have "set (ord (merge_map [] errs)) = set (merge_map [] errs)"
    by (rule mset_eq_setD) (rule assms)
  ultimately show ?thesis
    unfolding merge_leaves_def by (intro sort_key_eq_sort_key) simp_all
qed

end
