(* ===== verification/Validation.thy ===== *)
theory Validation
  imports Api_Types Field_Errors
begin

text \<open>
  The webhook-side validation of a TaskGroup: \<open>taskgroup_validation.go\<close> and \<open>taskgroup_defaults.go\<close>
  of \<open>pkg/apis/taskgroup/v1alpha1\<close>, with the upstream checks they share with tasks
  (\<open>task_validation.go\<close> of \<open>v1beta1\<close>, \<open>substitution.go\<close>, \<open>validate/metadata.go\<close>). The regular
  expressions are matched by hand-written recognisers; each stands beside the expression it
  recognises.
\<close>

section \<open>Recognisers\<close>

definition lower_alnum :: "char \<Rightarrow> bool" where
  "lower_alnum c \<longleftrightarrow> c \<in> set ''abcdefghijklmnopqrstuvwxyz0123456789''"

definition alnum :: "char \<Rightarrow> bool" where
  "alnum c \<longleftrightarrow> c \<in> set ''ABCDEFGHIJKLMNOPQRSTUVWXYZabcdefghijklmnopqrstuvwxyz0123456789''"

text \<open>\<open>[a-z0-9]([-a-z0-9]*[a-z0-9])?\<close>: non-empty, starts and ends with an alphanumeric, and
  otherwise only has alphanumerics and dashes.\<close>

definition dns1123Label :: "string \<Rightarrow> bool" where
  "dns1123Label s \<longleftrightarrow>
     s \<noteq> [] \<and> lower_alnum (hd s) \<and> lower_alnum (last s) \<and> list_all (\<lambda>c. lower_alnum c \<or> c = CHR ''-'') s"

text \<open>Whether \<open>IsDNS1123Subdomain\<close> returns no error: at most 253 bytes, labels separated by dots.\<close>

definition IsDNS1123Subdomain :: "string \<Rightarrow> bool" where
  "IsDNS1123Subdomain s \<longleftrightarrow> length s \<le> 253 \<and> list_all dns1123Label (split_on CHR ''.'' s)"

text \<open>\<open>^([A-Za-z0-9][-A-Za-z0-9_.]*)?[A-Za-z0-9]$\<close>.\<close>

definition resultNameFormat :: "string \<Rightarrow> bool" where
  "resultNameFormat s \<longleftrightarrow>
     s \<noteq> [] \<and> alnum (hd s) \<and> alnum (last s) \<and>
     list_all (\<lambda>c. alnum c \<or> c \<in> set ''-_.'') s"

definition var_start :: "char \<Rightarrow> bool" where
  "var_start c \<longleftrightarrow>
     c \<in> set ''_ABCDEFGHIJKLMNOPQRSTUVWXYZabcdefghijklmnopqrstuvwxyz''"

definition var_char :: "char \<Rightarrow> bool" where
  "var_char c \<longleftrightarrow> var_start c \<or> c \<in> set ''0123456789.-''"

text \<open>A match of \<open>$(params.V)\<close> with \<open>V = [_a-zA-Z][_a-zA-Z0-9.-]*([*])?\<close> at the head of the
  string: the text of \<open>V\<close> and the rest of the string. The class of \<open>V\<close> holds neither \<open>[\<close> nor \<open>)\<close>,
  so the match is unique.\<close>

definition match_after_prefix :: "string \<Rightarrow> (string \<times> string) option" where
  "match_after_prefix s =
     (case s of
        [] \<Rightarrow> None
      | c # cs \<Rightarrow>
          if var_start c then
            let ident = c # takeWhile var_char cs;
                rest = dropWhile var_char cs
            in if take 3 rest = ''[*]'' \<and> take 1 (drop 3 rest) = '')''
               then Some (ident @ ''[*]'', drop 4 rest)
               else if take 1 rest = '')'' then Some (ident, drop 1 rest)
               else None
          else None)"

definition match_var :: "string \<Rightarrow> string \<Rightarrow> (string \<times> string) option" where
  "match_var pre s =
     (let h = ''$('' @ pre @ ''.'' in
      if prefix h s then match_after_prefix (drop (length h) s) else None)"

lemma match_var_shorter: "match_var pre s = Some (v, rest) \<Longrightarrow> length rest < length s"
proof -
  assume m: "match_var pre s = Some (v, rest)"
  then obtain t where t: "s = (''$('' @ pre @ ''.'') @ t" "match_after_prefix t = Some (v, rest)"
    by (auto simp: match_var_def Let_def prefix_def split: if_splits)
  have d: "length (dropWhile var_char cs) - k \<le> length cs" for cs k
    using length_dropWhile_le [of var_char cs] by simp
  have "length rest \<le> length t"
    using t(2) d by (auto simp: match_after_prefix_def Let_def le_SucI split: list.splits if_splits)
  with t(1) show ?thesis by simp
qed

text \<open>\<open>FindAllStringSubmatch\<close>: the variables and the matched texts' lengths, left to right, without
  overlap.\<close>

function find_vars :: "string \<Rightarrow> string \<Rightarrow> (string \<times> nat) list" where
  "find_vars pre s =
     (case match_var pre s of
        Some (v, rest) \<Rightarrow> (v, length s - length rest) # find_vars pre rest
      | None \<Rightarrow> (case s of [] \<Rightarrow> [] | c # cs \<Rightarrow> find_vars pre cs))"
  by pat_completeness auto

termination
  by (relation "measure (\<lambda>(pre, s). length s)") (auto dest: match_var_shorter)

declare find_vars.simps [simp del]

definition TrimSuffix :: "string \<Rightarrow> string \<Rightarrow> string" where
  "TrimSuffix s suf = (if suffix suf s then take (length s - length suf) s else s)"

text \<open>\<open>strings.SplitN(v, ".", 2)[0]\<close> is the part before the first dot.\<close>

definition extractVariablesFromString :: "string \<Rightarrow> string \<Rightarrow> string list \<times> bool" where
  "extractVariablesFromString s pre =
     (let matches = find_vars pre s in
      if matches = [] then ([], False)
      else (map (\<lambda>(v, n). takeWhile (\<lambda>c. c \<noteq> CHR ''.'') v) matches, True))"

text \<open>The length of the first match is all that is used of \<open>extractExpressionFromString\<close>.\<close>

definition extractExpressionFromString :: "string \<Rightarrow> string \<Rightarrow> nat" where
  "extractExpressionFromString s pre = (case find_vars pre s of [] \<Rightarrow> 0 | (v, n) # ms \<Rightarrow> n)"

section \<open>Variables in a string\<close>

text \<open>The three checks loop over the variables and return at the first one that fails.\<close>

definition ValidateVariableP :: "string \<Rightarrow> string \<Rightarrow> string list \<Rightarrow> field_errors" where
  "ValidateVariableP value pre vars =
     (case extractVariablesFromString value pre of
        (vs, present) \<Rightarrow>
          if present \<and> list_ex (\<lambda>v. TrimSuffix v ''[*]'' \<notin> set vars) vs
          then Some (FieldError (''non-existent variable in '' @ quote value) [[]] [] [])
          else None)"

definition ValidateVariableProhibitedP :: "string \<Rightarrow> string \<Rightarrow> string list \<Rightarrow> field_errors" where
  "ValidateVariableProhibitedP value pre vars =
     (case extractVariablesFromString value pre of
        (vs, present) \<Rightarrow>
          if present \<and> list_ex (\<lambda>v. TrimSuffix v ''[*]'' \<in> set vars) vs
          then Some (FieldError (''variable type invalid in '' @ quote value) [[]] [] [])
          else None)"

definition ValidateVariableIsolatedP :: "string \<Rightarrow> string \<Rightarrow> string list \<Rightarrow> field_errors" where
  "ValidateVariableIsolatedP value pre vars =
     (case extractVariablesFromString value pre of
        (vs, present) \<Rightarrow>
          if present \<and>
             list_ex (\<lambda>v. TrimSuffix v ''[*]'' \<in> set vars \<and>
               length value \<noteq> extractExpressionFromString value pre) vs
          then Some (FieldError (''variable is not properly isolated in '' @ quote value) [[]] [] [])
          else None)"

section \<open>Steps\<close>

definition slice_list :: "'a list option \<Rightarrow> 'a list" where
  "slice_list s = (case s of None \<Rightarrow> [] | Some xs \<Rightarrow> xs)"

definition validateStepVariables :: "UStep \<Rightarrow> string \<Rightarrow> string list \<Rightarrow> field_errors" where
  "validateStepVariables step pre vars =
     (let c = s_Container step;
          errs = ViaField ''name'' (ValidateVariableP (c_Name c) pre vars);
          errs = Also errs (ViaField ''image'' (ValidateVariableP (c_Image c) pre vars));
          errs = Also errs (ViaField ''workingDir'' (ValidateVariableP (c_WorkingDir c) pre vars));
          errs = Also errs (ViaField ''script'' (ValidateVariableP (s_Script step) pre vars));
          errs = Also_loop (\<lambda>i cmd. ViaFieldIndex ''command'' i (ValidateVariableP cmd pre vars)) 0
                   (slice_list (c_Command c)) errs;
          errs = Also_loop (\<lambda>i arg. ViaFieldIndex ''args'' i (ValidateVariableP arg pre vars)) 0
                   (slice_list (c_Args c)) errs;
          errs = Also_loop (\<lambda>i env. ViaFieldKey ''env'' (ev_Name env) (ValidateVariableP (ev_Value env) pre vars)) 0
                   (c_Env c) errs
      in Also_loop (\<lambda>i e. e) 0
           (concat (map (\<lambda>(i, v).
             [ViaFieldIndex ''volumeMount'' i (ViaField ''name'' (ValidateVariableP (vm_Name v) pre vars)),
              ViaFieldIndex ''volumeMount'' i (ViaField ''MountPath'' (ValidateVariableP (vm_MountPath v) pre vars)),
              ViaFieldIndex ''volumeMount'' i (ViaField ''SubPath'' (ValidateVariableP (vm_SubPath v) pre vars))])
             (enumerate 0 (c_VolumeMounts c)))) errs)"

definition validateVariables :: "UStep list \<Rightarrow> string \<Rightarrow> string list \<Rightarrow> field_errors" where
  "validateVariables steps pre vars =
     Also_loop (\<lambda>idx step. ViaFieldIndex ''steps'' idx (validateStepVariables step pre vars)) 0 steps None"

definition validateStepArrayUsage :: "UStep \<Rightarrow> string \<Rightarrow> string list \<Rightarrow> field_errors" where
  "validateStepArrayUsage step pre vars =
     (let c = s_Container step;
          errs = ViaField ''name'' (ValidateVariableProhibitedP (c_Name c) pre vars);
          errs = Also errs (ViaField ''image'' (ValidateVariableProhibitedP (c_Image c) pre vars));
          errs = Also errs (ViaField ''workingDir'' (ValidateVariableProhibitedP (c_WorkingDir c) pre vars));
          errs = Also errs (ViaField ''script'' (ValidateVariableProhibitedP (s_Script step) pre vars));
          errs = Also_loop (\<lambda>i cmd. ViaFieldIndex ''command'' i (ValidateVariableIsolatedP cmd pre vars)) 0
                   (slice_list (c_Command c)) errs;
          errs = Also_loop (\<lambda>i arg. ViaFieldIndex ''args'' i (ValidateVariableIsolatedP arg pre vars)) 0
                   (slice_list (c_Args c)) errs;
          errs = Also_loop (\<lambda>i env. ViaFieldKey ''env'' (ev_Name env)
                     (ValidateVariableProhibitedP (ev_Value env) pre vars)) 0 (c_Env c) errs
      in Also_loop (\<lambda>i e. e) 0
           (concat (map (\<lambda>(i, v).
             [ViaFieldIndex ''volumeMount'' i (ViaField ''name'' (ValidateVariableProhibitedP (vm_Name v) pre vars)),
              ViaFieldIndex ''volumeMount'' i (ViaField ''mountPath'' (ValidateVariableProhibitedP (vm_MountPath v) pre vars)),
              ViaFieldIndex ''volumeMount'' i (ViaField ''subPath'' (ValidateVariableProhibitedP (vm_SubPath v) pre vars))])
             (enumerate 0 (c_VolumeMounts c)))) errs)"

text \<open>The source applies \<open>ViaFieldIndex\<close> to the errors collected so far as well, in every round.\<close>

fun validateArrayUsage_loop ::
    "nat \<Rightarrow> UStep list \<Rightarrow> string \<Rightarrow> string list \<Rightarrow> field_errors \<Rightarrow> field_errors" where
  "validateArrayUsage_loop idx [] pre vars errs = errs"
| "validateArrayUsage_loop idx (step # steps) pre vars errs =
     validateArrayUsage_loop (Suc idx) steps pre vars
       (ViaFieldIndex ''steps'' idx (Also errs (validateStepArrayUsage step pre vars)))"

definition validateArrayUsage :: "UStep list \<Rightarrow> string \<Rightarrow> string list \<Rightarrow> field_errors" where
  "validateArrayUsage steps pre vars = validateArrayUsage_loop 0 steps pre vars None"

definition ValidateParameterVariables :: "UStep list \<Rightarrow> ParamSpec list \<Rightarrow> field_errors" where
  "ValidateParameterVariables steps params =
     (let parameterNames = map p_Name params;
          arrayParameterNames = map p_Name (filter (\<lambda>p. p_Type p = ParamTypeArray) params);
          errs = validateVariables steps ''params'' parameterNames
      in Also errs (validateArrayUsage steps ''params'' arrayParameterNames))"

section \<open>Volumes, parameters, results\<close>

fun ValidateVolumes_loop :: "nat \<Rightarrow> Volume list \<Rightarrow> string list \<Rightarrow> field_errors \<Rightarrow> field_errors" where
  "ValidateVolumes_loop idx [] vols errs = errs"
| "ValidateVolumes_loop idx (v # vs) vols errs =
     (if v_Name v \<in> set vols
      then ValidateVolumes_loop (Suc idx) vs vols
             (Also errs (ViaIndex idx
               (ErrGeneric (''multiple volumes with same name '' @ quote (v_Name v)) [''name''])))
      else ValidateVolumes_loop (Suc idx) vs (v_Name v # vols) errs)"

definition ValidateVolumes :: "Volume list \<Rightarrow> field_errors" where
  "ValidateVolumes volumes = ValidateVolumes_loop 0 volumes [] None"

definition AllParamTypes :: "string list" where
  "AllParamTypes = [ParamTypeString, ParamTypeArray]"

definition ValidateType :: "ParamSpec \<Rightarrow> field_errors" where
  "ValidateType p =
     (if p_Type p \<notin> set AllParamTypes then ErrInvalidValue (p_Type p) (p_Name p @ ''.type'') []
      else case p_Default p of
             None \<Rightarrow> None
           | Some d \<Rightarrow>
               if as_Type d \<noteq> p_Type p
               then Some (FieldError
                      (CHR 0x22 # p_Type p @ CHR 0x22 # '' type does not match default value's type: '' @
                       CHR 0x22 # as_Type d @ [CHR 0x22])
                      [p_Name p @ ''.type'', p_Name p @ ''.default.type''] [] [])
               else None)"

definition ValidateParameterTypes :: "ParamSpec list \<Rightarrow> field_errors" where
  "ValidateParameterTypes params = Also_loop (\<lambda>i p. ValidateType p) 0 params None"

definition resultNameDetails :: string where
  "resultNameDetails =
     ''Name must consist of alphanumeric characters, '-', '_', and must start and end with an alphanumeric character (e.g. 'MyName',  or 'my-name',  or 'my_name', regex used for validation is '^([A-Za-z0-9][-A-Za-z0-9_.]*)?[A-Za-z0-9]$')''"

definition TaskResult_Validate :: "TaskResult \<Rightarrow> field_errors" where
  "TaskResult_Validate tr =
     (if \<not> resultNameFormat (r_Name tr) then ErrInvalidKeyName (r_Name tr) ''name'' [resultNameDetails]
      else None)"

section \<open>TaskGroup\<close>

definition ObjectMetadata :: "ObjectMeta \<Rightarrow> field_errors" where
  "ObjectMetadata meta =
     (let name = om_Name meta in
      if \<not> IsDNS1123Subdomain name
      then Some (FieldError (''invalid resource name '' @ quote name @ '': must be a valid DNS label'') [''name''] [] [])
      else if length name > 63
      then Some (FieldError ''Invalid resource name: length must be no more than 63 characters'' [''name''] [] [])
      else None)"

definition validateResults :: "TaskResult list \<Rightarrow> field_errors" where
  "validateResults results = Also_loop (\<lambda>index result. ViaIndex index (TaskResult_Validate result)) 0 results None"

definition Uses_Validate :: "Uses option \<Rightarrow> field_errors" where
  "Uses_Validate u =
     (case u of
        None \<Rightarrow> None
      | Some u \<Rightarrow>
          if tref_Name (u_TaskRef u) = [] then Also None (ErrMissingField [''taskref.name'']) else None)"

definition Step_Validate :: "Step \<Rightarrow> field_errors" where
  "Step_Validate s = Also None (ViaField ''uses'' (Uses_Validate (gs_Uses s)))"

definition validateSteps :: "Step list \<Rightarrow> UStep list \<Rightarrow> Container option \<Rightarrow> field_errors" where
  "validateSteps steps usteps stepTemplate =
     Also_loop (\<lambda>idx s. ViaIndex idx (Step_Validate s)) 0 steps None"

fun toUpstreamStep_loop :: "nat \<Rightarrow> Step list \<Rightarrow> UStep list \<Rightarrow> UStep list" where
  "toUpstreamStep_loop i [] s = s"
| "toUpstreamStep_loop i (step # steps) s = toUpstreamStep_loop (Suc i) steps (s[i := toUpstream step])"

definition toUpstreamStep :: "Step list \<Rightarrow> UStep list" where
  "toUpstreamStep steps = toUpstreamStep_loop 0 steps (replicate (length steps) (mkStep [] [] []))"

text \<open>\<open>ValidateResourcesVariables(steps, nil)\<close> returns nil at once.\<close>

definition TaskGroupSpec_Validate :: "TaskGroupSpec \<Rightarrow> field_errors" where
  "TaskGroupSpec_Validate tgs =
     (let errs = (if length (tg_Steps tgs) = 0 then Also None (ErrMissingField [''steps'']) else None);
          steps = toUpstreamStep (tg_Steps tgs);
          errs = Also errs (ViaField ''steps'' (validateSteps (tg_Steps tgs) steps (tg_StepTemplate tgs)));
          errs = Also errs (ViaField ''volumes'' (ValidateVolumes (tg_Volumes tgs)));
          errs = Also errs (ViaField ''params'' (ValidateParameterTypes (tg_Params tgs)));
          errs = Also errs (ValidateParameterVariables steps (tg_Params tgs));
          errs = Also errs None;
          errs = Also errs (ViaField ''results'' (validateResults (tg_Results tgs)))
      in errs)"

definition TaskGroup_Validate :: "TaskGroup \<Rightarrow> field_errors" where
  "TaskGroup_Validate tg =
     (case ObjectMetadata (tgr_Meta tg) of
        Some err \<Rightarrow> ViaField ''metadata'' (Some err)
      | None \<Rightarrow> TaskGroupSpec_Validate (tgr_Spec tg))"

definition TaskGroupSpec_SetDefaults :: "TaskGroupSpec \<Rightarrow> TaskGroupSpec" where
  "TaskGroupSpec_SetDefaults tls = tls"

definition TaskGroup_SetDefaults :: "TaskGroup \<Rightarrow> TaskGroup" where
  "TaskGroup_SetDefaults tg = tg\<lparr>tgr_Spec := TaskGroupSpec_SetDefaults (tgr_Spec tg)\<rparr>"

section \<open>Leaves and well-formedness of the checks\<close>

text \<open>The variables a string refers to, and the errors of the three checks in these terms.\<close>

definition vars_of :: "string \<Rightarrow> string set" where
  "vars_of s = (\<lambda>(v, n). TrimSuffix (takeWhile (\<lambda>c. c \<noteq> CHR ''.'') v) ''[*]'') ` set (find_vars ''params'' s)"

definition isolated :: "string \<Rightarrow> bool" where
  "isolated s \<longleftrightarrow> (case find_vars ''params'' s of [] \<Rightarrow> False | (v, n) # ms \<Rightarrow> n = length s)"

lemma ValidateVariableP_None: "ValidateVariableP s ''params'' vars = None \<longleftrightarrow> vars_of s \<subseteq> set vars"
  by (auto simp: ValidateVariableP_def extractVariablesFromString_def Let_def vars_of_def list_ex_iff)

lemma ValidateVariableProhibitedP_None:
  "ValidateVariableProhibitedP s ''params'' vars = None \<longleftrightarrow> vars_of s \<inter> set vars = {}"
  by (auto simp: ValidateVariableProhibitedP_def extractVariablesFromString_def Let_def vars_of_def list_ex_iff)

lemma ValidateVariableIsolatedP_None:
  "ValidateVariableIsolatedP s ''params'' vars = None \<longleftrightarrow> vars_of s \<inter> set vars = {} \<or> isolated s"
  by (cases "find_vars ''params'' s")
    (auto simp: ValidateVariableIsolatedP_def extractVariablesFromString_def
      extractExpressionFromString_def Let_def vars_of_def isolated_def list_ex_iff)

lemma fe_wf_Validate [fe_wfs]:
  "fe_wf (ValidateVariableP s pre vars)" "fe_wf (ValidateVariableProhibitedP s pre vars)"
  "fe_wf (ValidateVariableIsolatedP s pre vars)"
  by (auto simp: ValidateVariableP_def ValidateVariableProhibitedP_def ValidateVariableIsolatedP_def
      fe_wfs split: prod.splits)

lemma fe_wf_Via [fe_wfs]:
  "fe_wf fe \<Longrightarrow> fe_wf (ViaIndex i fe)" "fe_wf fe \<Longrightarrow> fe_wf (ViaFieldIndex f i fe)"
  "fe_wf fe \<Longrightarrow> fe_wf (ViaKey k fe)" "fe_wf fe \<Longrightarrow> fe_wf (ViaFieldKey f k fe)"
  by (simp_all add: ViaIndex_def ViaFieldIndex_def ViaKey_def ViaFieldKey_def fe_wfs)

lemma Via_None_iff [simp]:
  "ViaIndex i fe = None \<longleftrightarrow> fe = None" "ViaFieldIndex f i fe = None \<longleftrightarrow> fe = None"
  "ViaKey k fe = None \<longleftrightarrow> fe = None" "ViaFieldKey f k fe = None \<longleftrightarrow> fe = None"
  by (simp_all add: ViaIndex_def ViaFieldIndex_def ViaKey_def ViaFieldKey_def)

section \<open>What the validation accepts\<close>

text \<open>The texts of a step in which variables are looked for: those that hold one value, and the
  elements of \<open>command\<close> and \<open>args\<close>, where an array parameter may stand alone.\<close>

definition scalar_texts :: "UStep \<Rightarrow> string list" where
  "scalar_texts s =
     (let c = s_Container s in
      [c_Name c, c_Image c, c_WorkingDir c, s_Script s] @ map ev_Value (c_Env c) @
      concat (map (\<lambda>v. [vm_Name v, vm_MountPath v, vm_SubPath v]) (c_VolumeMounts c)))"

definition list_texts :: "UStep \<Rightarrow> string list" where
  "list_texts s = slice_list (c_Command (s_Container s)) @ slice_list (c_Args (s_Container s))"

lemma ball_enumerate [simp]: "(\<forall>(i, x) \<in> set (enumerate k xs). P x) \<longleftrightarrow> (\<forall>x \<in> set xs. P x)"
proof -
  have "set xs = snd ` set (enumerate k xs)"
    using map_snd_enumerate [of k xs] by (metis list.set_map)
  then show ?thesis by (simp add: case_prod_unfold)
qed

lemma validateStepVariables_wf [fe_wfs]: "fe_wf (validateStepVariables step pre vars)"
  unfolding validateStepVariables_def Let_def by (auto intro!: fe_wfs)

lemma validateStepArrayUsage_wf [fe_wfs]: "fe_wf (validateStepArrayUsage step pre vars)"
  unfolding validateStepArrayUsage_def Let_def by (auto intro!: fe_wfs)

lemma mounts_None_iff:
  assumes "\<And>s. fe_wf (f s)"
  shows "Also_loop (\<lambda>i e. e) 0 (concat (map (\<lambda>(i, v).
      [ViaFieldIndex a i (ViaField b (f (vm_Name v))), ViaFieldIndex a i (ViaField c (f (vm_MountPath v))),
       ViaFieldIndex a i (ViaField d (f (vm_SubPath v)))]) (enumerate k vs))) errs = None \<longleftrightarrow>
    errs = None \<and> (\<forall>v \<in> set vs. f (vm_Name v) = None \<and> f (vm_MountPath v) = None \<and> f (vm_SubPath v) = None)"
    (is "Also_loop _ 0 ?es errs = None \<longleftrightarrow> _")
proof -
  have wf: "fe_wf e" if "e \<in> set ?es" for e using that assms by (auto intro!: fe_wfs)
  have "(\<forall>e \<in> set ?es. e = None) \<longleftrightarrow>
      (\<forall>v \<in> set vs. f (vm_Name v) = None \<and> f (vm_MountPath v) = None \<and> f (vm_SubPath v) = None)"
    by (induction vs arbitrary: k) auto
  with wf show ?thesis by (simp only: Also_loop_None_iff ball_enumerate)
qed

lemma validateStepVariables_None:
  "validateStepVariables step ''params'' vars = None \<longleftrightarrow>
     (\<forall>t \<in> set (scalar_texts step @ list_texts step). vars_of t \<subseteq> set vars)"
  unfolding validateStepVariables_def Let_def
    mounts_None_iff [where f = "\<lambda>s. ValidateVariableP s ''params'' vars", OF fe_wf_Validate(1)]
  by (auto simp: ValidateVariableP_None fe_wfs scalar_texts_def list_texts_def Let_def)

lemma validateStepArrayUsage_None:
  "validateStepArrayUsage step ''params'' vars = None \<longleftrightarrow>
     (\<forall>t \<in> set (scalar_texts step). vars_of t \<inter> set vars = {}) \<and>
     (\<forall>t \<in> set (list_texts step). vars_of t \<inter> set vars = {} \<or> isolated t)"
  unfolding validateStepArrayUsage_def Let_def
    mounts_None_iff [where f = "\<lambda>s. ValidateVariableProhibitedP s ''params'' vars", OF fe_wf_Validate(2)]
  by (auto simp: ValidateVariableProhibitedP_None ValidateVariableIsolatedP_None fe_wfs
      scalar_texts_def list_texts_def Let_def)

lemma validateArrayUsage_loop_None:
  "validateArrayUsage_loop i steps pre vars errs = None \<longleftrightarrow>
     errs = None \<and> (\<forall>s \<in> set steps. validateStepArrayUsage s pre vars = None)"
  by (induction i steps pre vars errs rule: validateArrayUsage_loop.induct) (auto simp: fe_wfs)

lemma validateArrayUsage_loop_wf: "fe_wf errs \<Longrightarrow> fe_wf (validateArrayUsage_loop i steps pre vars errs)"
  by (induction i steps pre vars errs rule: validateArrayUsage_loop.induct) (auto simp: fe_wfs)

lemma ValidateParameterVariables_wf [fe_wfs]: "fe_wf (ValidateParameterVariables steps ps)"
  unfolding ValidateParameterVariables_def Let_def validateVariables_def validateArrayUsage_def
  by (auto intro!: fe_wfs validateArrayUsage_loop_wf)

abbreviation array_names :: "ParamSpec list \<Rightarrow> string set" where
  "array_names ps \<equiv> p_Name ` {p \<in> set ps. p_Type p = ParamTypeArray}"

lemma ValidateParameterVariables_None:
  "ValidateParameterVariables steps ps = None \<longleftrightarrow>
     (\<forall>s \<in> set steps.
        (\<forall>t \<in> set (scalar_texts s @ list_texts s). vars_of t \<subseteq> p_Name ` set ps) \<and>
        (\<forall>t \<in> set (scalar_texts s). vars_of t \<inter> array_names ps = {}) \<and>
        (\<forall>t \<in> set (list_texts s). vars_of t \<inter> array_names ps = {} \<or> isolated t))"
proof -
  have v: "validateVariables steps ''params'' (map p_Name ps) = None \<longleftrightarrow>
      (\<forall>s \<in> set steps. \<forall>t \<in> set (scalar_texts s @ list_texts s). vars_of t \<subseteq> p_Name ` set ps)"
    unfolding validateVariables_def by (simp add: fe_wfs validateStepVariables_None)
  have a: "validateArrayUsage steps ''params'' vars = None \<longleftrightarrow>
      (\<forall>s \<in> set steps. (\<forall>t \<in> set (scalar_texts s). vars_of t \<inter> set vars = {}) \<and>
        (\<forall>t \<in> set (list_texts s). vars_of t \<inter> set vars = {} \<or> isolated t))" for vars
    unfolding validateArrayUsage_def validateArrayUsage_loop_None by (simp add: validateStepArrayUsage_None)
  have wf: "fe_wf (validateArrayUsage steps ''params'' vars)" for vars
    unfolding validateArrayUsage_def by (auto intro: validateArrayUsage_loop_wf)
  show ?thesis
    unfolding ValidateParameterVariables_def Let_def Also_None_iff [OF wf] v a set_map set_filter
    by blast
qed

lemma ValidateVolumes_loop_None:
  "ValidateVolumes_loop i vs vols errs = None \<longleftrightarrow>
     errs = None \<and> distinct (map v_Name vs) \<and> v_Name ` set vs \<inter> set vols = {}"
  by (induction i vs vols errs rule: ValidateVolumes_loop.induct) (auto simp: fe_wfs)

lemma ValidateVolumes_loop_wf: "fe_wf errs \<Longrightarrow> fe_wf (ValidateVolumes_loop i vs vols errs)"
  by (induction i vs vols errs rule: ValidateVolumes_loop.induct) (auto simp: fe_wfs)

lemma ValidateType_wf [fe_wfs]: "fe_wf (ValidateType p)"
  by (auto simp: ValidateType_def fe_wfs split: option.splits)

lemma ValidateType_None:
  "ValidateType p = None \<longleftrightarrow>
     p_Type p \<in> {ParamTypeString, ParamTypeArray} \<and> (\<forall>d. p_Default p = Some d \<longrightarrow> as_Type d = p_Type p)"
  by (auto simp: ValidateType_def AllParamTypes_def split: option.splits)

lemma TaskResult_Validate_wf [fe_wfs]: "fe_wf (TaskResult_Validate r)"
  by (simp add: TaskResult_Validate_def fe_wfs)

lemma Step_Validate_wf [fe_wfs]: "fe_wf (Step_Validate s)"
  by (auto simp: Step_Validate_def Uses_Validate_def split: option.splits intro!: fe_wfs)

lemma Step_Validate_None:
  "Step_Validate s = None \<longleftrightarrow> (\<forall>u. gs_Uses s = Some u \<longrightarrow> tref_Name (u_TaskRef u) \<noteq> [])"
  by (auto simp: Step_Validate_def Uses_Validate_def fe_wfs split: option.splits)

lemma toUpstreamStep_loop_map:
  "length done = i \<Longrightarrow>
     toUpstreamStep_loop i steps (done @ replicate (length steps) z) = done @ map gs_Step steps"
proof (induction steps arbitrary: i "done")
  case (Cons s ss)
  have "(done @ replicate (length (s # ss)) z)[i := toUpstream s] =
      (done @ [toUpstream s]) @ replicate (length ss) z"
    using Cons.prems by (simp add: list_update_append)
  with Cons.IH [of "done @ [toUpstream s]" "Suc i"] Cons.prems show ?case
    by (simp add: toUpstream_def del: replicate.simps)
qed simp

lemma toUpstreamStep_map [simp]: "toUpstreamStep steps = map gs_Step steps"
  using toUpstreamStep_loop_map [of "[]" 0 steps] by (simp add: toUpstreamStep_def)

lemma TaskGroupSpec_Validate_wf [fe_wfs]: "fe_wf (TaskGroupSpec_Validate tgs)"
  unfolding TaskGroupSpec_Validate_def Let_def validateSteps_def ValidateVolumes_def
    ValidateParameterTypes_def validateResults_def
  by (auto intro!: fe_wfs ValidateVolumes_loop_wf)

text \<open>The specification of a valid TaskGroup spec.\<close>

definition valid_variables :: "ParamSpec list \<Rightarrow> UStep \<Rightarrow> bool" where
  "valid_variables ps s \<longleftrightarrow>
     (\<forall>t \<in> set (scalar_texts s @ list_texts s). vars_of t \<subseteq> p_Name ` set ps) \<and>
     (\<forall>t \<in> set (scalar_texts s). vars_of t \<inter> array_names ps = {}) \<and>
     (\<forall>t \<in> set (list_texts s). vars_of t \<inter> array_names ps = {} \<or> isolated t)"

definition valid_param :: "ParamSpec \<Rightarrow> bool" where
  "valid_param p \<longleftrightarrow>
     p_Type p \<in> {ParamTypeString, ParamTypeArray} \<and> (\<forall>d. p_Default p = Some d \<longrightarrow> as_Type d = p_Type p)"

definition valid_spec :: "TaskGroupSpec \<Rightarrow> bool" where
  "valid_spec tgs \<longleftrightarrow>
     tg_Steps tgs \<noteq> [] \<and>
     (\<forall>s \<in> set (tg_Steps tgs). \<forall>u. gs_Uses s = Some u \<longrightarrow> tref_Name (u_TaskRef u) \<noteq> []) \<and>
     distinct (map v_Name (tg_Volumes tgs)) \<and>
     (\<forall>p \<in> set (tg_Params tgs). valid_param p) \<and>
     (\<forall>s \<in> set (tg_Steps tgs). valid_variables (tg_Params tgs) (gs_Step s)) \<and>
     (\<forall>r \<in> set (tg_Results tgs). resultNameFormat (r_Name r))"

lemma TaskGroupSpec_Validate_None: "TaskGroupSpec_Validate tgs = None \<longleftrightarrow> valid_spec tgs"
proof -
  have s: "validateSteps (tg_Steps tgs) us t = None \<longleftrightarrow>
      (\<forall>s \<in> set (tg_Steps tgs). \<forall>u. gs_Uses s = Some u \<longrightarrow> tref_Name (u_TaskRef u) \<noteq> [])" for us t
    unfolding validateSteps_def by (simp add: fe_wfs Step_Validate_None)
  have v: "ValidateVolumes vs = None \<longleftrightarrow> distinct (map v_Name vs)" for vs
    unfolding ValidateVolumes_def by (simp add: ValidateVolumes_loop_None)
  have p: "ValidateParameterTypes ps = None \<longleftrightarrow> (\<forall>p \<in> set ps. valid_param p)" for ps
    unfolding ValidateParameterTypes_def by (simp add: fe_wfs ValidateType_None valid_param_def)
  have r: "validateResults rs = None \<longleftrightarrow> (\<forall>r \<in> set rs. resultNameFormat (r_Name r))" for rs
    unfolding validateResults_def by (simp add: fe_wfs TaskResult_Validate_def)
  have wf: "fe_wf (validateSteps ss us t)" "fe_wf (ValidateVolumes vs)" "fe_wf (ValidateParameterTypes ps)"
    "fe_wf (validateResults rs)" for ss us t vs ps rs
    unfolding validateSteps_def ValidateVolumes_def ValidateParameterTypes_def validateResults_def
    by (auto intro!: fe_wfs ValidateVolumes_loop_wf)
  have x: "ValidateParameterVariables (map gs_Step ss) ps = None \<longleftrightarrow> (\<forall>s \<in> set ss. valid_variables ps (gs_Step s))"
    for ss ps
    unfolding ValidateParameterVariables_None valid_variables_def by simp
  show ?thesis
    unfolding TaskGroupSpec_Validate_def Let_def valid_spec_def toUpstreamStep_map
    by (simp add: fe_wfs wf s v p r x)
qed

section \<open>Properties\<close>

text \<open>C7. \<open>TaskGroup.Validate\<close> accepts exactly the TaskGroups whose name is a DNS-1123 subdomain of at
  most 63 bytes, that have steps, whose \<open>uses\<close> name a task, whose volumes have distinct names, whose
  parameters have a known type that their default shares, in whose steps every \<open>$(params.x)\<close> refers
  to a declared parameter, array parameters only where they may stand and alone, and whose results
  have well-formed names.\<close>

theorem TaskGroup_Validate_accepts_iff:
  "TaskGroup_Validate tg = None \<longleftrightarrow>
     IsDNS1123Subdomain (om_Name (tgr_Meta tg)) \<and> length (om_Name (tgr_Meta tg)) \<le> 63 \<and>
     valid_spec (tgr_Spec tg)"
  by (auto simp: TaskGroup_Validate_def ObjectMetadata_def Let_def TaskGroupSpec_Validate_None split: option.splits)

lemma split_on_id: "c \<notin> set w \<Longrightarrow> split_on c w = [w]"
  by (induction w) auto

lemma itoa_no_dot: "CHR ''.'' \<notin> set (itoa n)"
  using itoa_digits [of n] by auto

lemma asIndex_split: "split_on CHR ''.'' (asIndex i) = [asIndex i]"
  by (intro split_on_id) (simp add: asIndex_def itoa_no_dot)

lemma isIndex_asIndex [simp]: "isIndex (asIndex i)" "asIndex i \<noteq> []"
  by (simp_all add: isIndex_def asIndex_def suffix_def prefix_def)

lemma split_on_asIndex_dot:
  "split_on CHR ''.'' (asIndex i @ CHR ''.'' # w) = asIndex i # split_on CHR ''.'' w"
proof -
  have "c \<notin> set u \<Longrightarrow> split_on c (u @ c # w) = u # split_on c w" for c u
    by (induction u) auto
  moreover have "CHR ''.'' \<notin> set (asIndex i)" by (simp add: asIndex_def itoa_no_dot)
  ultimately show ?thesis by blast
qed

lemma leaf_in_loop:
  assumes "i < length xs" "l \<in> set (normalized (f i (xs ! i)))"
  shows "l \<in> set (normalized (Also_loop f 0 xs errs))"
proof -
  have "(i, xs ! i) \<in> set (enumerate 0 xs)" using assms(1) by (simp add: in_set_enumerate_eq)
  then show ?thesis using assms(2) by (auto simp: leaves intro!: bexI [of _ "(i, xs ! i)"])
qed

text \<open>A step that uses a task without naming it is reported under the path of its position,
  \<open>steps[i].uses.taskref.name\<close>, whatever else is wrong with the TaskGroup.\<close>

theorem TaskGroupSpec_Validate_missing_task:
  assumes "i < length (tg_Steps tgs)" "gs_Uses (tg_Steps tgs ! i) = Some u" "tref_Name (u_TaskRef u) = []"
  shows "(''missing field(s)'', [''steps'' @ asIndex i @ ''.uses.taskref.name''], []) \<in>
    set (normalized (TaskGroupSpec_Validate tgs))"
proof -
  let ?l = "(''missing field(s)'', [asIndex i @ ''.uses.taskref.name''], [])"
  have "flatten [''uses'', ''taskref.name''] = ''uses.taskref.name''" by code_simp
  moreover have "flatten [asIndex i, ''uses.taskref.name''] = asIndex i @ ''.uses.taskref.name''"
    by (simp add: flatten_def asIndex_split) (simp add: isIndex_def)
  ultimately have "?l \<in> set (normalized (ViaIndex i (Step_Validate (tg_Steps tgs ! i))))"
    using assms(2,3) by (simp add: ViaIndex_def Step_Validate_def Uses_Validate_def leaves leaf_via_def)
  then have "?l \<in> set (normalized (validateSteps (tg_Steps tgs) us t))" for us t
    unfolding validateSteps_def by (intro leaf_in_loop [OF assms(1)])
  moreover have "flatten [''steps'', asIndex i @ ''.uses.taskref.name''] = ''steps'' @ asIndex i @ ''.uses.taskref.name''"
    by (simp add: flatten_def split_on_asIndex_dot) (simp add: isIndex_def asIndex_def)
  ultimately have "(''missing field(s)'', [''steps'' @ asIndex i @ ''.uses.taskref.name''], []) \<in>
      set (normalized (ViaField ''steps'' (validateSteps (tg_Steps tgs) us t)))" for us t
    by (force simp: leaves leaf_via_def image_iff)
  then show ?thesis unfolding TaskGroupSpec_Validate_def Let_def by (auto simp: leaves)
qed

theorem TaskGroupSpec_Validate_missing_task_witness:
  "(''missing field(s)'', [''steps[0].uses.taskref.name''], []) \<in>
     set (normalized (TaskGroupSpec_Validate (empty_TaskGroupSpec\<lparr>
       tg_Steps := [\<lparr>gs_Step = mkStep [] [] [], gs_Uses = Some (mkUses [] [] [])\<rparr>]\<rparr>)))"
  using TaskGroupSpec_Validate_missing_task [of 0 "empty_TaskGroupSpec\<lparr>
       tg_Steps := [\<lparr>gs_Step = mkStep [] [] [], gs_Uses = Some (mkUses [] [] [])\<rparr>]\<rparr>" "mkUses [] [] []"]
  by (simp add: mkUses_def asIndex_def itoa.simps)

text \<open>The path of a misused array parameter is not the path of its step: every later step adds its
  own prefix, so the same mistake in the first of two steps is reported under
  \<open>steps[1].steps[0].image\<close> and not under \<open>steps[0].image\<close>.\<close>

theorem validateArrayUsage_path_nested:
  "normalized (validateArrayUsage
      [mkStep ''a'' ''$(params.xs)'' [], mkStep ''b'' ''img'' []] ''params'' [''xs'']) =
   [(''variable type invalid in '' @ quote ''$(params.xs)'', [''steps[1].steps[0].image''], [])]"
  by code_simp

text \<open>The text of a validation error is the same for every iteration order of the map in which
  \<open>merge\<close> collects the errors: the messages are sorted.\<close>

theorem FieldError_Error_deterministic:
  assumes "\<And>m. mset (ord m) = mset m"
  shows "FieldError_Error ord (TaskGroup_Validate tg) = FieldError_Error (\<lambda>m. m) (TaskGroup_Validate tg)"
  unfolding FieldError_Error_def by (simp only: merge_leaves_order [of ord, OF assms])

theorem FieldError_Error_deterministic_witness:
  "FieldError_Error rev (TaskGroup_Validate \<lparr>tgr_TypeMeta = zero_TypeMeta, tgr_Meta = empty_meta\<lparr>om_Name := ''a''\<rparr>, tgr_Spec = empty_TaskGroupSpec\<rparr>) =
     ''missing field(s): steps''"
proof -
  have "FieldError_Error (\<lambda>m. m) (TaskGroup_Validate
      \<lparr>tgr_TypeMeta = zero_TypeMeta, tgr_Meta = empty_meta\<lparr>om_Name := ''a''\<rparr>, tgr_Spec = empty_TaskGroupSpec\<rparr>) = ''missing field(s): steps''"
    by code_simp
  then show ?thesis by (subst FieldError_Error_deterministic) simp_all
qed

end
