(* ===== verification/Run_Status.thy ===== *)
theory Run_Status
  imports Api_Types "HOL-Library.Char_ord" "HOL-Library.List_Lexorder"
begin

text \<open>
  The status of a Run: \<open>RunStatus\<close> of \<open>pkg/apis/run/v1alpha1/runstatus_types.go\<close>, \<open>Run\<close> of
  \<open>pkg/apis/pipeline/v1alpha1/run_types.go\<close> and the condition manager of
  \<open>knative.dev/pkg/apis/condition_set.go\<close>. The condition set of a Run has the happy condition
  \<open>Succeeded\<close> and no dependents, so the loops over dependents are empty. Every call of
  \<open>time.Now()\<close> is a parameter (\<open>now\<close>). \<open>sort.Slice\<close> leaves open the order of conditions of the same
  type, of which there are none (\<open>conds_wf\<close>).
\<close>

section \<open>Conditions\<close>

definition ConditionTrue :: string where "ConditionTrue = ''True''"
definition ConditionFalse :: string where "ConditionFalse = ''False''"
definition ConditionUnknown :: string where "ConditionUnknown = ''Unknown''"
definition ConditionSucceeded :: string where "ConditionSucceeded = ''Succeeded''"
definition ConditionSeverityError :: string where "ConditionSeverityError = []"

lemma condition_status_distinct [simp]:
  "ConditionTrue \<noteq> ConditionFalse" "ConditionFalse \<noteq> ConditionTrue" "ConditionTrue \<noteq> ConditionUnknown"
  "ConditionUnknown \<noteq> ConditionTrue" "ConditionFalse \<noteq> ConditionUnknown" "ConditionUnknown \<noteq> ConditionFalse"
  by (simp_all add: ConditionTrue_def ConditionFalse_def ConditionUnknown_def)

record Condition =
  cond_Type :: string
  cond_Status :: string
  cond_Severity :: string
  cond_LastTransitionTime :: gotime
  cond_Reason :: string
  cond_Message :: string

definition IsTrue :: "Condition option \<Rightarrow> bool" where
  "IsTrue c = (case c of None \<Rightarrow> False | Some c \<Rightarrow> cond_Status c = ConditionTrue)"

definition IsFalse :: "Condition option \<Rightarrow> bool" where
  "IsFalse c = (case c of None \<Rightarrow> False | Some c \<Rightarrow> cond_Status c = ConditionFalse)"

definition IsUnknown :: "Condition option \<Rightarrow> bool" where
  "IsUnknown c = (case c of None \<Rightarrow> True | Some c \<Rightarrow> cond_Status c = ConditionUnknown)"

fun conds_Get :: "string \<Rightarrow> Condition list \<Rightarrow> Condition option" where
  "conds_Get t [] = None"
| "conds_Get t (c # cs) = (if cond_Type c = t then Some c else conds_Get t cs)"

text \<open>The loop of \<open>SetCondition\<close>: \<open>None\<close> is the early return.\<close>

fun SetCondition_loop ::
    "Condition \<Rightarrow> Condition list \<Rightarrow> Condition list \<Rightarrow> (Condition \<times> Condition list) option" where
  "SetCondition_loop cond conditions [] = Some (cond, conditions)"
| "SetCondition_loop cond conditions (c # cs) =
     (if cond_Type c \<noteq> cond_Type cond then SetCondition_loop cond (conditions @ [c]) cs
      else let cond' = cond\<lparr>cond_LastTransitionTime := cond_LastTransitionTime c\<rparr> in
           if cond' = c then None else SetCondition_loop cond' conditions cs)"

definition conds_Set :: "gotime \<Rightarrow> Condition \<Rightarrow> Condition list \<Rightarrow> Condition list" where
  "conds_Set now cond cs =
     (case SetCondition_loop cond [] cs of
        None \<Rightarrow> cs
      | Some (cond', conditions) \<Rightarrow>
          sort_key cond_Type (conditions @ [cond'\<lparr>cond_LastTransitionTime := now\<rparr>]))"

section \<open>Run\<close>

record RunStatus =
  rs_ObservedGeneration :: int
  rs_Conditions :: "Condition list"
  rs_StartTime :: "gotime option"
  rs_CompletionTime :: "gotime option"
  rs_ExtraFields :: string
  rs_rest :: string

definition GetCondition :: "string \<Rightarrow> RunStatus \<Rightarrow> Condition option" where
  "GetCondition t r = conds_Get t (rs_Conditions r)"

abbreviation succeeded_of :: "RunStatus \<Rightarrow> Condition option" where
  "succeeded_of r \<equiv> GetCondition ConditionSucceeded r"

definition SetCondition :: "gotime \<Rightarrow> Condition \<Rightarrow> RunStatus \<Rightarrow> RunStatus" where
  "SetCondition now cond r = r\<lparr>rs_Conditions := conds_Set now cond (rs_Conditions r)\<rparr>"

definition new_condition :: "string \<Rightarrow> string \<Rightarrow> string \<Rightarrow> string \<Rightarrow> Condition" where
  "new_condition t status reason message =
     \<lparr>cond_Type = t, cond_Status = status, cond_Severity = ConditionSeverityError,
      cond_LastTransitionTime = 0, cond_Reason = reason, cond_Message = message\<rparr>"

text \<open>\<open>conditionsImpl.InitializeConditions\<close>, then the start reason.\<close>

definition manager_InitializeConditions :: "gotime \<Rightarrow> RunStatus \<Rightarrow> RunStatus" where
  "manager_InitializeConditions now r =
     (case GetCondition ConditionSucceeded r of
        None \<Rightarrow> SetCondition now (new_condition ConditionSucceeded ConditionUnknown [] []) r
      | Some _ \<Rightarrow> r)"

definition is_zero_time :: "gotime option \<Rightarrow> bool" where
  "is_zero_time t \<longleftrightarrow> t = None \<or> t = Some 0"

definition InitializeConditions :: "gotime \<Rightarrow> gotime \<Rightarrow> gotime \<Rightarrow> RunStatus \<Rightarrow> RunStatus" where
  "InitializeConditions now0 now1 now2 r =
     (let started = is_zero_time (rs_StartTime r);
          r = (if started then r\<lparr>rs_StartTime := Some now0\<rparr> else r);
          r = manager_InitializeConditions now1 r
      in if started
         then (case GetCondition ConditionSucceeded r of
                 None \<Rightarrow> r
               | Some initialCondition \<Rightarrow>
                   SetCondition now2 (initialCondition\<lparr>cond_Reason := ''Started''\<rparr>) r)
         else r)"

definition set_completion :: "RunStatus \<Rightarrow> RunStatus" where
  "set_completion r =
     (case GetCondition ConditionSucceeded r of
        None \<Rightarrow> r
      | Some succeeded \<Rightarrow> r\<lparr>rs_CompletionTime := Some (cond_LastTransitionTime succeeded)\<rparr>)"

definition MarkRunSucceeded :: "gotime \<Rightarrow> string \<Rightarrow> string \<Rightarrow> RunStatus \<Rightarrow> RunStatus" where
  "MarkRunSucceeded now reason message r =
     set_completion (SetCondition now (new_condition ConditionSucceeded ConditionTrue reason message) r)"

definition MarkRunFailed :: "gotime \<Rightarrow> string \<Rightarrow> string \<Rightarrow> RunStatus \<Rightarrow> RunStatus" where
  "MarkRunFailed now reason message r =
     set_completion (SetCondition now (new_condition ConditionSucceeded ConditionFalse reason message) r)"

definition MarkRunRunning :: "gotime \<Rightarrow> string \<Rightarrow> string \<Rightarrow> RunStatus \<Rightarrow> RunStatus" where
  "MarkRunRunning now reason message r =
     SetCondition now (new_condition ConditionSucceeded ConditionUnknown reason message) r"

record Param =
  param_Name :: string
  param_Value :: ArrayOrString

record EmbeddedRunSpec =
  ers_APIVersion :: string
  ers_Kind :: string
  ers_Spec :: string

record RunSpec =
  rsp_Ref :: "TaskRef option"
  rsp_Spec :: "EmbeddedRunSpec option"
  rsp_Params :: "Param list"
  rsp_Status :: string
  rsp_ServiceAccountName :: string
  rsp_PodTemplate :: "string option"
  rsp_Workspaces :: "string list"
  rsp_rest :: string

record Run =
  run_Meta :: ObjectMeta
  run_Spec :: RunSpec
  run_Status :: RunStatus

definition RunSpecStatusCancelled :: string where "RunSpecStatusCancelled = ''RunCancelled''"

definition Run_IsCancelled :: "Run \<Rightarrow> bool" where
  "Run_IsCancelled r \<longleftrightarrow> rsp_Status (run_Spec r) = RunSpecStatusCancelled"

definition Run_IsDone :: "Run \<Rightarrow> bool" where
  "Run_IsDone r \<longleftrightarrow> \<not> IsUnknown (GetCondition ConditionSucceeded (run_Status r))"

definition Run_HasStarted :: "Run \<Rightarrow> bool" where
  "Run_HasStarted r \<longleftrightarrow> rs_StartTime (run_Status r) \<noteq> None \<and> rs_StartTime (run_Status r) \<noteq> Some 0"

section \<open>TaskRun\<close>

record TaskRunSpec =
  trs_Params :: "Param list"
  trs_ServiceAccountName :: string
  trs_TaskRef :: "TaskRef option"
  trs_TaskSpec :: "TaskSpec option"
  trs_Status :: string
  trs_PodTemplate :: "string option"
  trs_Workspaces :: "string list"
  trs_rest :: string

record TaskRunStatus =
  trst_Conditions :: "Condition list"
  trst_rest :: string

record TaskRun =
  tr_Meta :: ObjectMeta
  tr_Spec :: TaskRunSpec
  tr_Status :: TaskRunStatus

definition TaskRunSpecStatusCancelled :: string where "TaskRunSpecStatusCancelled = ''TaskRunCancelled''"

abbreviation tr_condition :: "TaskRun \<Rightarrow> Condition option" where
  "tr_condition tr \<equiv> conds_Get ConditionSucceeded (trst_Conditions (tr_Status tr))"

definition TaskRun_IsDone :: "TaskRun \<Rightarrow> bool" where
  "TaskRun_IsDone tr \<longleftrightarrow> \<not> IsUnknown (tr_condition tr)"

definition TaskRun_IsSuccessful :: "TaskRun \<Rightarrow> bool" where
  "TaskRun_IsSuccessful tr \<longleftrightarrow> IsTrue (tr_condition tr)"

definition TaskRun_IsCancelled :: "TaskRun \<Rightarrow> bool" where
  "TaskRun_IsCancelled tr \<longleftrightarrow> trs_Status (tr_Spec tr) = TaskRunSpecStatusCancelled"

text \<open>What the TaskGroup controller keeps in the extra fields of the status of a Run.\<close>

record TaskGroupRunStatus =
  tgs_TaskGroupSpec :: "TaskGroupSpec option"
  tgs_TaskRun :: "TaskRunStatus option"

section \<open>Laws of the condition manager\<close>

definition conds_wf :: "Condition list \<Rightarrow> bool" where
  "conds_wf cs \<longleftrightarrow> distinct (map cond_Type cs)"

lemma conds_Get_Some: "conds_Get t cs = Some c \<Longrightarrow> cond_Type c = t \<and> c \<in> set cs"
  by (induction cs) (auto split: if_splits)

lemma conds_Get_None: "conds_Get t cs = None \<longleftrightarrow> t \<notin> cond_Type ` set cs"
  by (induction cs) auto

lemma conds_Get_wf:
  "conds_wf cs \<Longrightarrow> conds_Get t cs = Some c \<longleftrightarrow> c \<in> set cs \<and> cond_Type c = t"
  by (induction cs) (force simp: conds_wf_def)+

lemma SetCondition_loop_type:
  "SetCondition_loop cond acc cs = Some (cond', acc') \<Longrightarrow>
     cond'\<lparr>cond_LastTransitionTime := x\<rparr> = cond\<lparr>cond_LastTransitionTime := x\<rparr> \<and>
     acc' = acc @ filter (\<lambda>c. cond_Type c \<noteq> cond_Type cond) cs"
  by (induction cond acc cs rule: SetCondition_loop.induct) (auto simp: Let_def split: if_splits)

lemma SetCondition_loop_None:
  "SetCondition_loop cond acc cs = None \<Longrightarrow>
     \<exists>c \<in> set cs. c = cond\<lparr>cond_LastTransitionTime := cond_LastTransitionTime c\<rparr>"
proof (induction cond acc cs rule: SetCondition_loop.induct)
  case (2 cond acc c cs)
  let ?cond = "cond\<lparr>cond_LastTransitionTime := cond_LastTransitionTime c\<rparr>"
  show ?case
  proof (cases "cond_Type c \<noteq> cond_Type cond")
    case True
    with 2 show ?thesis by auto
  next
    case False
    with 2 show ?thesis by (cases "?cond = c") (auto simp: Let_def)
  qed
qed simp

text \<open>Writing a condition keeps the types distinct, is read back (but for the time), and does not
  touch the conditions of other types.\<close>

lemma conds_Set_wf:
  assumes "conds_wf cs"
  shows "conds_wf (conds_Set now cond cs)"
proof (cases "SetCondition_loop cond [] cs")
  case (Some p)
  obtain cond' acc where p: "p = (cond', acc)" by (cases p)
  note l = SetCondition_loop_type [OF Some [unfolded p], of now]
  then have t: "cond_Type cond' = cond_Type cond"
    by (metis Condition.select_convs(1) Condition.surjective Condition.update_convs(4))
  let ?new = "cond'\<lparr>cond_LastTransitionTime := now\<rparr>"
  have "distinct (map cond_Type (acc @ [?new]))"
    using assms l t by (auto simp: conds_wf_def distinct_map_filter)
  then have "distinct (map cond_Type (sort_key cond_Type (acc @ [?new])))"
    by (simp only: distinct_map distinct_sort set_sort)
  with Some p show ?thesis by (simp add: conds_Set_def conds_wf_def)
qed (simp add: conds_Set_def assms)

lemma conds_Set_mem:
  assumes "conds_wf cs" "SetCondition_loop cond [] cs \<noteq> None"
  shows "set (conds_Set now cond cs) =
    insert (cond\<lparr>cond_LastTransitionTime := now\<rparr>) {c \<in> set cs. cond_Type c \<noteq> cond_Type cond}"
proof -
  obtain cond' acc where l: "SetCondition_loop cond [] cs = Some (cond', acc)" using assms(2) by auto
  from SetCondition_loop_type [OF l, of now] l show ?thesis by (auto simp: conds_Set_def)
qed

lemma conds_Get_Set:
  assumes "conds_wf cs"
  shows "\<exists>time. conds_Get (cond_Type cond) (conds_Set now cond cs) =
    Some (cond\<lparr>cond_LastTransitionTime := time\<rparr>)"
proof (cases "SetCondition_loop cond [] cs = None")
  case True
  from SetCondition_loop_None [OF True] obtain c where
    c: "c \<in> set cs" "c = cond\<lparr>cond_LastTransitionTime := cond_LastTransitionTime c\<rparr>" by blast
  then have "cond_Type c = cond_Type cond" by (metis Condition.select_convs(1) Condition.surjective Condition.update_convs(4))
  with c assms True show ?thesis
    by (intro exI [of _ "cond_LastTransitionTime c"]) (simp add: conds_Set_def conds_Get_wf)
next
  case False
  have "conds_Get (cond_Type cond) (conds_Set now cond cs) = Some (cond\<lparr>cond_LastTransitionTime := now\<rparr>)"
    using conds_Set_mem [OF assms False] by (subst conds_Get_wf [OF conds_Set_wf [OF assms]]) simp
  then show ?thesis by blast
qed

lemma conds_Get_Set_other:
  assumes "conds_wf cs" "t \<noteq> cond_Type cond"
  shows "conds_Get t (conds_Set now cond cs) = conds_Get t cs"
proof (cases "SetCondition_loop cond [] cs = None")
  case False
  have "conds_Get t (conds_Set now cond cs) = Some c \<longleftrightarrow> conds_Get t cs = Some c" for c
    using conds_Set_mem [OF assms(1) False] assms
    by (auto simp: conds_Get_wf [OF conds_Set_wf [OF assms(1)]] conds_Get_wf [OF assms(1)])
  then show ?thesis by (metis not_None_eq)
qed (simp add: conds_Set_def)

section \<open>The condition store\<close>

text \<open>The contract of a status with conditions, and what its clients rely on: of two writes of one
  type the second counts, and status, reason and message are those written.\<close>

definition view_of :: "Condition option \<Rightarrow> (string \<times> string \<times> string) option" where
  "view_of c = map_option (\<lambda>c. (cond_Status c, cond_Reason c, cond_Message c)) c"

locale condition_store =
  fixes get :: "string \<Rightarrow> 's \<Rightarrow> Condition option"
    and put :: "gotime \<Rightarrow> Condition \<Rightarrow> 's \<Rightarrow> 's"
    and wf :: "'s \<Rightarrow> bool"
  assumes put_wf: "wf s \<Longrightarrow> wf (put now c s)"
    and get_put: "wf s \<Longrightarrow> \<exists>time. get (cond_Type c) (put now c s) = Some (c\<lparr>cond_LastTransitionTime := time\<rparr>)"
    and get_put_other: "wf s \<Longrightarrow> t \<noteq> cond_Type c \<Longrightarrow> get t (put now c s) = get t s"
begin

lemma view_put:
  "wf s \<Longrightarrow> view_of (get (cond_Type c) (put now c s)) = Some (cond_Status c, cond_Reason c, cond_Message c)"
  using get_put [of s c now] by (auto simp: view_of_def)

lemma view_put_put:
  assumes "wf s" "cond_Type c' = cond_Type c"
  shows "view_of (get (cond_Type c) (put now' c' (put now c s))) =
    Some (cond_Status c', cond_Reason c', cond_Message c')"
  using view_put [OF put_wf [OF assms(1)], of c' now' now c] assms(2) by simp

lemma status_put:
  "wf s \<Longrightarrow> IsUnknown (get (cond_Type c) (put now c s)) \<longleftrightarrow> cond_Status c = ConditionUnknown"
  using get_put [of s c now] by (auto simp: IsUnknown_def)

end

interpretation conds: condition_store conds_Get conds_Set conds_wf
  by unfold_locales (auto simp: conds_Set_wf conds_Get_Set conds_Get_Set_other)

definition status_wf :: "RunStatus \<Rightarrow> bool" where
  "status_wf r \<longleftrightarrow> conds_wf (rs_Conditions r)"

interpretation run_conds: condition_store GetCondition SetCondition status_wf
  by unfold_locales
    (auto simp: GetCondition_def SetCondition_def status_wf_def conds.put_wf conds.get_put conds.get_put_other)

abbreviation run_view :: "RunStatus \<Rightarrow> (string \<times> string \<times> string) option" where
  "run_view r \<equiv> view_of (succeeded_of r)"

named_theorems run_status "effects of the Mark operations on the parts of a RunStatus"

lemma new_condition_sel [simp]:
  "cond_Type (new_condition t st re msg) = t" "cond_Status (new_condition t st re msg) = st"
  "cond_Reason (new_condition t st re msg) = re" "cond_Message (new_condition t st re msg) = msg"
  by (simp_all add: new_condition_def)

lemma SetCondition_frame [run_status, simp]:
  "rs_StartTime (SetCondition now c r) = rs_StartTime r"
  "rs_CompletionTime (SetCondition now c r) = rs_CompletionTime r"
  "rs_ExtraFields (SetCondition now c r) = rs_ExtraFields r"
  "rs_rest (SetCondition now c r) = rs_rest r"
  "rs_ObservedGeneration (SetCondition now c r) = rs_ObservedGeneration r"
  by (simp_all add: SetCondition_def)

lemma set_completion_frame [run_status, simp]:
  "rs_Conditions (set_completion r) = rs_Conditions r" "rs_StartTime (set_completion r) = rs_StartTime r"
  "rs_ExtraFields (set_completion r) = rs_ExtraFields r" "rs_rest (set_completion r) = rs_rest r"
  "GetCondition t (set_completion r) = GetCondition t r"
  "status_wf (set_completion r) = status_wf r"
  by (auto simp: set_completion_def GetCondition_def status_wf_def split: option.splits)

lemma Mark_frame [run_status, simp]:
  "rs_StartTime (MarkRunSucceeded now re msg r) = rs_StartTime r"
  "rs_StartTime (MarkRunFailed now re msg r) = rs_StartTime r"
  "rs_StartTime (MarkRunRunning now re msg r) = rs_StartTime r"
  "rs_CompletionTime (MarkRunRunning now re msg r) = rs_CompletionTime r"
  "rs_ExtraFields (MarkRunSucceeded now re msg r) = rs_ExtraFields r"
  "rs_ExtraFields (MarkRunFailed now re msg r) = rs_ExtraFields r"
  "rs_ExtraFields (MarkRunRunning now re msg r) = rs_ExtraFields r"
  by (simp_all add: MarkRunSucceeded_def MarkRunFailed_def MarkRunRunning_def)

lemma Mark_wf [run_status, simp]:
  assumes "status_wf r"
  shows "status_wf (MarkRunSucceeded now re msg r)" "status_wf (MarkRunFailed now re msg r)"
    "status_wf (MarkRunRunning now re msg r)"
  using run_conds.put_wf [OF assms]
  by (simp_all add: MarkRunSucceeded_def MarkRunFailed_def MarkRunRunning_def)

lemma Mark_view [run_status, simp]:
  assumes "status_wf r"
  shows "run_view (MarkRunSucceeded now re msg r) = Some (ConditionTrue, re, msg)"
    "run_view (MarkRunFailed now re msg r) = Some (ConditionFalse, re, msg)"
    "run_view (MarkRunRunning now re msg r) = Some (ConditionUnknown, re, msg)"
  using run_conds.view_put [OF assms, of "new_condition ConditionSucceeded _ re msg" now]
  by (simp_all add: MarkRunSucceeded_def MarkRunFailed_def MarkRunRunning_def)

lemma set_completion_time:
  "GetCondition ConditionSucceeded r \<noteq> None \<Longrightarrow>
     rs_CompletionTime (set_completion r) = map_option cond_LastTransitionTime (succeeded_of r)"
  by (auto simp: set_completion_def)

lemma SetCondition_present:
  assumes "status_wf r"
  shows "GetCondition (cond_Type c) (SetCondition now c r) \<noteq> None"
  using run_conds.get_put [OF assms, of c now] by auto

lemma Mark_completion [run_status, simp]:
  assumes "status_wf r"
  shows "rs_CompletionTime (MarkRunSucceeded now re msg r) =
      map_option cond_LastTransitionTime (succeeded_of (MarkRunSucceeded now re msg r))"
    "rs_CompletionTime (MarkRunFailed now re msg r) =
      map_option cond_LastTransitionTime (succeeded_of (MarkRunFailed now re msg r))"
  using set_completion_time [OF SetCondition_present [OF assms, of "new_condition ConditionSucceeded _ re msg" now, simplified new_condition_sel]]
  by (simp_all only: MarkRunSucceeded_def MarkRunFailed_def set_completion_frame)

lemma view_of_Some: "view_of c = Some v \<Longrightarrow> IsUnknown c \<longleftrightarrow> fst v = ConditionUnknown"
  by (cases c) (auto simp: view_of_def IsUnknown_def)

lemma InitializeConditions_wf [run_status, simp]:
  "status_wf r \<Longrightarrow> status_wf (InitializeConditions n0 n1 n2 r)"
proof -
  assume wf: "status_wf r"
  have s: "status_wf (r\<lparr>rs_StartTime := t\<rparr>) = status_wf r" for r t by (simp add: status_wf_def)
  have m: "status_wf r \<Longrightarrow> status_wf (manager_InitializeConditions n1 r)" for r
    by (auto simp: manager_InitializeConditions_def run_conds.put_wf split: option.splits)
  from wf show ?thesis
    by (auto simp: InitializeConditions_def Let_def s m run_conds.put_wf split: option.splits)
qed

end
