(* ===== verification/Reconciler.thy ===== *)
theory Reconciler
  imports Resolve Validation Run_Status
begin

text \<open>
  \<open>pkg/reconciler/taskgroup/taskgroup.go\<close>: \<open>ReconcileKind\<close> and everything it calls, with the
  functions of tektoncd/pipeline it goes through (\<open>resources.GetTaskFunc\<close>, \<open>GetTaskData\<close>,
  \<open>events.Emit\<close>, the name generator, \<open>kmeta.NewControllerRef\<close>).

  The API server, the listers, JSON, the clock and the random source are code outside the
  repository: the record \<open>Env\<close> holds one function for each call. The state threaded through the
  calls is the Run (a private copy, which the generated reconciler writes back), the decoded
  \<open>TaskGroupRunStatus\<close> and the log of what was sent to the API server and the event recorder.
  The clock is \<open>e_Now k\<close> at the \<open>k\<close>-th place of the code that reads it. Logging is left out.
\<close>

section \<open>The environment\<close>

record Env =
  e_getTaskGroup :: "string \<Rightarrow> string \<Rightarrow> goerror + TaskGroup"
  e_unmarshalSpec :: "string \<Rightarrow> goerror + TaskGroupSpec"
  e_decodeStatus :: "string \<Rightarrow> TaskGroupRunStatus go"
  e_encodeStatus :: "TaskGroupRunStatus \<Rightarrow> goerror + string"
  e_listTaskRuns :: "string \<Rightarrow> string gomap \<Rightarrow> goerror + TaskRun list"
  e_getRun :: "string \<Rightarrow> string \<Rightarrow> goerror + Run"
  e_getTask :: "string \<Rightarrow> string \<Rightarrow> goerror + TaskSpec"
  e_getClusterTask :: "string \<Rightarrow> goerror + TaskSpec"
  e_getBundleTask :: "string \<Rightarrow> string \<Rightarrow> string \<Rightarrow> string \<Rightarrow> string \<Rightarrow> goerror + TaskSpec"
  e_createTaskRun :: "TaskRun \<Rightarrow> goerror + TaskRun"
  e_patchTaskRun :: "string \<Rightarrow> string \<Rightarrow> string \<Rightarrow> goerror option"
  e_marshalPatch :: "string gomap option \<Rightarrow> string gomap option \<Rightarrow> goerror + string"
  e_patchRun :: "string \<Rightarrow> string \<Rightarrow> string \<Rightarrow> goerror option"
  e_cancelPatchBytes :: string
  e_EnableTektonOCIBundles :: bool
  e_cloudEventsSink :: string
  e_rand :: "nat \<Rightarrow> string"
  e_Now :: "nat \<Rightarrow> gotime"
  e_goSyntax :: "goerror \<Rightarrow> string"
  e_merger :: Merger
  e_order :: order
  e_leaf_order :: "leaf gomap \<Rightarrow> leaf gomap"

datatype effect =
    CreatedTaskRun TaskRun
  | PatchedTaskRun string string string
  | PatchedRun string string string
  | KubeEvent string string string
  | CloudEvent

record RState =
  st_Run :: Run
  st_Status :: TaskGroupRunStatus
  st_Effects :: "effect list"

definition add_effect :: "effect \<Rightarrow> RState \<Rightarrow> RState" where
  "add_effect e s = s\<lparr>st_Effects := st_Effects s @ [e]\<rparr>"

definition upd_run :: "(Run \<Rightarrow> Run) \<Rightarrow> RState \<Rightarrow> RState" where
  "upd_run f s = s\<lparr>st_Run := f (st_Run s)\<rparr>"

definition upd_run_status :: "(RunStatus \<Rightarrow> RunStatus) \<Rightarrow> RState \<Rightarrow> RState" where
  "upd_run_status f s = upd_run (\<lambda>r. r\<lparr>run_Status := f (run_Status r)\<rparr>) s"

abbreviation run_Name :: "Run \<Rightarrow> string" where "run_Name r \<equiv> om_Name (run_Meta r)"
abbreviation run_Namespace :: "Run \<Rightarrow> string" where "run_Namespace r \<equiv> om_Namespace (run_Meta r)"

section \<open>Labels, annotations, names\<close>

definition taskGroupLabelKey :: string where "taskGroupLabelKey = ''/taskGroup''"
definition taskGroupRunLabelKey :: string where "taskGroupRunLabelKey = ''/run''"
definition pipeline_GroupName :: string where "pipeline_GroupName = ''tekton.dev''"
definition RunControllerName :: string where "RunControllerName = ''Run''"

definition nil_map :: "string gomap option \<Rightarrow> string gomap" where
  "nil_map m = (case m of None \<Rightarrow> [] | Some m \<Rightarrow> m)"

definition getTaskRunAnnotations :: "Run \<Rightarrow> string gomap" where
  "getTaskRunAnnotations run = gomap_copy [] (nil_map (om_Annotations (run_Meta run)))"

definition getTaskRunLabels :: "Run \<Rightarrow> bool \<Rightarrow> string gomap" where
  "getTaskRunLabels run includeRunLabels =
     (let labels = (if includeRunLabels then gomap_copy [] (nil_map (om_Labels (run_Meta run))) else [])
      in gomap_set (pipeline_GroupName @ taskGroupRunLabelKey) (run_Name run) labels)"

definition propagateTaskGroupLabelsAndAnnotations :: "ObjectMeta \<Rightarrow> Run \<Rightarrow> Run" where
  "propagateTaskGroupLabelsAndAnnotations taskGroupMeta run =
     (let labels = gomap_set (GroupName @ taskGroupLabelKey) (om_Name taskGroupMeta)
            (gomap_copy (nil_map (om_Labels (run_Meta run))) (nil_map (om_Labels taskGroupMeta)));
          annotations = gomap_copy (nil_map (om_Annotations (run_Meta run))) (nil_map (om_Annotations taskGroupMeta))
      in run\<lparr>run_Meta := (run_Meta run)\<lparr>om_Labels := Some labels, om_Annotations := Some annotations\<rparr>\<rparr>)"

definition storeTaskGroupSpec :: "TaskGroupSpec \<Rightarrow> TaskGroupRunStatus \<Rightarrow> TaskGroupRunStatus" where
  "storeTaskGroupSpec tls status =
     (if tgs_TaskGroupSpec status = None then status\<lparr>tgs_TaskGroupSpec := Some tls\<rparr> else status)"

definition maxNameLength :: nat where "maxNameLength = 63"
definition randomLength :: nat where "randomLength = 5"
definition maxGeneratedNameLength :: nat where
  "maxGeneratedNameLength = maxNameLength - randomLength - 1"

definition RestrictLengthWithRandomSuffix :: "(nat \<Rightarrow> string) \<Rightarrow> string \<Rightarrow> string" where
  "RestrictLengthWithRandomSuffix rand base =
     (let base = (if length base > maxGeneratedNameLength then take maxGeneratedNameLength base else base)
      in base @ ''-'' @ rand randomLength)"

text \<open>\<open>Run.GetGroupVersionKind\<close> and \<open>metav1.NewControllerRef\<close>.\<close>

definition NewControllerRef :: "Run \<Rightarrow> OwnerReference" where
  "NewControllerRef run =
     \<lparr>or_APIVersion = gv_String \<lparr>gv_Group = pipeline_GroupName, gv_Version = ''v1alpha1''\<rparr>,
      or_Kind = RunControllerName, or_Name = run_Name run, or_UID = om_UID (run_Meta run),
      or_Controller = Some True, or_BlockOwnerDeletion = Some True\<rparr>"

section \<open>Events\<close>

text \<open>\<open>equality.Semantic.DeepEqual\<close> leaves out the volatile transition time.\<close>

definition cond_semantic_eq :: "Condition option \<Rightarrow> Condition option \<Rightarrow> bool" where
  "cond_semantic_eq a b \<longleftrightarrow>
     map_option (cond_LastTransitionTime_update (\<lambda>_. 0)) a = map_option (cond_LastTransitionTime_update (\<lambda>_. 0)) b"

definition sendKubernetesEvents :: "Condition option \<Rightarrow> Condition option \<Rightarrow> RState \<Rightarrow> RState" where
  "sendKubernetesEvents before after s =
     (case after of
        None \<Rightarrow> s
      | Some c \<Rightarrow>
          if cond_semantic_eq before after then s
          else if cond_Status c = ConditionTrue then add_effect (KubeEvent ''Normal'' ''Succeeded'' (cond_Message c)) s
          else if cond_Status c = ConditionFalse then add_effect (KubeEvent ''Warning'' ''Failed'' (cond_Message c)) s
          else if cond_Status c = ConditionUnknown
          then (case before of
                  None \<Rightarrow> add_effect (KubeEvent ''Normal'' ''Started'' []) s
                | Some _ \<Rightarrow> add_effect (KubeEvent ''Normal'' (cond_Reason c) (cond_Message c)) s)
          else s)"

definition Emit :: "Env \<Rightarrow> Condition option \<Rightarrow> Condition option \<Rightarrow> RState \<Rightarrow> RState" where
  "Emit env before after s =
     (let s = sendKubernetesEvents before after s in
      if e_cloudEventsSink env \<noteq> [] \<and> \<not> cond_semantic_eq before after then add_effect CloudEvent s else s)"

section \<open>Fetching the used tasks\<close>

definition errEtcdLeaderChange :: string where "errEtcdLeaderChange = ''etcdserver: leader changed''"

definition IsGetTaskErrTransient :: "goerror \<Rightarrow> bool" where
  "IsGetTaskErrTransient err = contains_string (error_string err) errEtcdLeaderChange"

definition NamespacedTaskKind :: string where "NamespacedTaskKind = ''Task''"
definition ClusterTaskKind :: string where "ClusterTaskKind = ''ClusterTask''"

definition LocalTaskRefResolver_GetTask :: "Env \<Rightarrow> string \<Rightarrow> string \<Rightarrow> string \<Rightarrow> goerror + TaskSpec" where
  "LocalTaskRefResolver_GetTask env namespace kind name =
     (if kind = ClusterTaskKind then e_getClusterTask env name
      else if namespace = [] then Inl (Errorf (''must specify namespace to resolve reference to task '' @ name))
      else e_getTask env namespace name)"

definition GetTaskFunc ::
    "Env \<Rightarrow> TaskRef \<Rightarrow> string \<Rightarrow> string \<Rightarrow> (string \<Rightarrow> goerror + TaskSpec) go" where
  "GetTaskFunc env tr namespace saName =
     (let kind = (if tref_Kind tr \<noteq> [] then tref_Kind tr else NamespacedTaskKind) in
      if e_EnableTektonOCIBundles env \<and> tref_Bundle tr \<noteq> []
      then (e_getBundleTask env (tref_Bundle tr) namespace saName kind, None)
      else (LocalTaskRefResolver_GetTask env namespace kind, None))"

definition ParamSpec_SetDefaults :: "ParamSpec \<Rightarrow> ParamSpec" where
  "ParamSpec_SetDefaults pp =
     (if p_Type pp = [] then
        (case p_Default pp of
           Some d \<Rightarrow>
             if as_Type d \<noteq> [] then pp\<lparr>p_Type := as_Type d\<rparr>
             else if as_ArrayVal d \<noteq> None then pp\<lparr>p_Type := ParamTypeArray\<rparr>
             else pp\<lparr>p_Type := ParamTypeString\<rparr>
         | None \<Rightarrow> pp\<lparr>p_Type := ParamTypeString\<rparr>)
      else pp)"

definition TaskSpec_SetDefaults :: "TaskSpec \<Rightarrow> TaskSpec" where
  "TaskSpec_SetDefaults ts = ts\<lparr>ts_Params := map ParamSpec_SetDefaults (ts_Params ts)\<rparr>"

text \<open>\<open>GetTaskData\<close> for a TaskRun of which only the task reference is set.\<close>

definition GetTaskData :: "TaskRef \<Rightarrow> (string \<Rightarrow> goerror + TaskSpec) \<Rightarrow> goerror + TaskSpec" where
  "GetTaskData taskRef getTask =
     (if tref_Name taskRef \<noteq> [] then
        (case getTask (tref_Name taskRef) of
           Inl err \<Rightarrow> Inl (Wrap ''error when listing tasks for taskRun '' err)
         | Inr t \<Rightarrow> Inr (TaskSpec_SetDefaults t))
      else Inl (Errorf ''taskRun  not providing TaskRef or TaskSpec''))"

fun fetchUsesTaskSpec_loop ::
    "Env \<Rightarrow> Run \<Rightarrow> nat \<Rightarrow> Step list \<Rightarrow> (nat \<rightharpoonup> TaskSpec) \<Rightarrow> goerror + (nat \<rightharpoonup> TaskSpec)" where
  "fetchUsesTaskSpec_loop env run i [] taskSpecs = Inr taskSpecs"
| "fetchUsesTaskSpec_loop env run i (step # steps) taskSpecs =
     (case gs_Uses step of
        None \<Rightarrow> fetchUsesTaskSpec_loop env run (Suc i) steps taskSpecs
      | Some uses \<Rightarrow>
          (case GetTaskFunc env (u_TaskRef uses) (run_Namespace run) (rsp_ServiceAccountName (run_Spec run)) of
             (_, Some err) \<Rightarrow> Inl (Wrap (''failed to fetch task reference '' @ tref_Name (u_TaskRef uses)) err)
           | (getTaskfunc, None) \<Rightarrow>
               (case GetTaskData (u_TaskRef uses) getTaskfunc of
                  Inl err \<Rightarrow> if IsGetTaskErrTransient err then Inl err else Inl (PermanentError err)
                | Inr taskSpec \<Rightarrow>
                    fetchUsesTaskSpec_loop env run (Suc i) steps (taskSpecs(i \<mapsto> taskSpec)))))"

definition fetchUsesTaskSpec :: "Env \<Rightarrow> TaskGroupSpec \<Rightarrow> Run \<Rightarrow> goerror + (nat \<rightharpoonup> TaskSpec)" where
  "fetchUsesTaskSpec env spec run = fetchUsesTaskSpec_loop env run 0 (tg_Steps spec) Map.empty"

section \<open>Creating the TaskRun\<close>

definition new_TaskRun :: "Env \<Rightarrow> Run \<Rightarrow> TaskSpec \<Rightarrow> TaskRun" where
  "new_TaskRun env run taskSpec =
     \<lparr>tr_Meta = empty_meta\<lparr>
        om_Name := RestrictLengthWithRandomSuffix (e_rand env) (run_Name run),
        om_Namespace := run_Namespace run,
        om_OwnerReferences := [NewControllerRef run],
        om_Labels := Some (getTaskRunLabels run True),
        om_Annotations := Some (getTaskRunAnnotations run)\<rparr>,
      tr_Spec = \<lparr>trs_Params = rsp_Params (run_Spec run),
        trs_ServiceAccountName = rsp_ServiceAccountName (run_Spec run),
        trs_TaskRef = None,
        trs_TaskSpec = Some taskSpec,
        trs_Status = [],
        trs_PodTemplate = rsp_PodTemplate (run_Spec run),
        trs_Workspaces = rsp_Workspaces (run_Spec run),
        trs_rest = []\<rparr>,
      tr_Status = \<lparr>trst_Conditions = [], trst_rest = []\<rparr>\<rparr>"

definition createTaskRun :: "Env \<Rightarrow> TaskGroupSpec \<Rightarrow> RState \<Rightarrow> (goerror + TaskRun) \<times> RState" where
  "createTaskRun env spec s =
     (let run = st_Run s in
      case fetchUsesTaskSpec env spec run of
        Inl err \<Rightarrow> (Inl err, s)
      | Inr usedTaskSpecs \<Rightarrow>
          (case resolve_TaskSpec (e_merger env) (e_order env) spec usedTaskSpecs of
             (_, Some err) \<Rightarrow> (Inl err, s)
           | (taskSpec, None) \<Rightarrow>
               let tr = new_TaskRun env run taskSpec
               in (e_createTaskRun env tr, add_effect (CreatedTaskRun tr) s)))"

section \<open>Cancelling and reading the TaskRun\<close>

definition processTaskRun :: "Env \<Rightarrow> TaskRun \<Rightarrow> RState \<Rightarrow> goerror option \<times> RState" where
  "processTaskRun env tr s =
     (if \<not> TaskRun_IsDone tr \<and> Run_IsCancelled (st_Run s) \<and> \<not> TaskRun_IsCancelled tr then
        let ns = run_Namespace (st_Run s);
            name = om_Name (tr_Meta tr);
            s = add_effect (PatchedTaskRun ns name (e_cancelPatchBytes env)) s
        in case e_patchTaskRun env ns name (e_cancelPatchBytes env) of
             Some err \<Rightarrow> (Some (Errorf (''Failed to patch TaskRun `'' @ name @ ''` with cancellation: '' @ error_string err)), s)
           | None \<Rightarrow> (None, s)
      else (None, s))"

definition time_Before :: "gotime option \<Rightarrow> gotime option \<Rightarrow> bool" where
  "time_Before t u = (case (t, u) of (Some a, Some b) \<Rightarrow> a < b | _ \<Rightarrow> False)"

text \<open>The results are \<open>taskRunDone\<close>, \<open>taskRunFailed\<close> and \<open>retryableErr\<close>.\<close>

definition updateTaskRunStatus :: "Env \<Rightarrow> RState \<Rightarrow> (bool \<times> bool \<times> goerror option) \<times> RState" where
  "updateTaskRunStatus env s =
     (let run = st_Run s;
          taskRunLabels = getTaskRunLabels run False
      in case e_listTaskRuns env (run_Namespace run) taskRunLabels of
           Inl err \<Rightarrow> ((False, False, Some (Errorf (''could not list TaskRuns '' @ e_goSyntax env err))), s)
         | Inr [] \<Rightarrow> ((False, False, None), s)
         | Inr [tr] \<Rightarrow>
             let s = s\<lparr>st_Status := (st_Status s)\<lparr>tgs_TaskRun := Some (tr_Status tr)\<rparr>\<rparr>;
                 s = (if time_Before (Some (om_CreationTimestamp (tr_Meta tr))) (rs_CompletionTime (run_Status (st_Run s)))
                      then upd_run_status (rs_CompletionTime_update (\<lambda>_. Some (om_CreationTimestamp (tr_Meta tr)))) s
                      else s)
             in (case processTaskRun env tr s of
                   (Some err, s') \<Rightarrow>
                     ((False, False, Some (Errorf (''error processing TaskRun '' @ om_Name (tr_Meta tr) @ '': '' @
                        e_goSyntax env err))), s')
                 | (None, s') \<Rightarrow>
                     ((TaskRun_IsDone tr, TaskRun_IsDone tr \<and> \<not> TaskRun_IsSuccessful tr, None), s'))
         | Inr _ \<Rightarrow> ((False, False, Some (Errorf ''Multiple taskRuns, this is a problem'')), s))"

section \<open>Fetching the TaskGroup\<close>

definition run_path :: "Run \<Rightarrow> string" where
  "run_path run = run_Namespace run @ ''/'' @ run_Name run"

definition getTaskGroup_failed :: "Env \<Rightarrow> goerror \<Rightarrow> RState \<Rightarrow> (goerror + ObjectMeta \<times> TaskGroupSpec) \<times> RState" where
  "getTaskGroup_failed env err s =
     (Inl (Wrap (''Error retrieving TaskGroup for Run '' @ run_path (st_Run s)) err),
      upd_run_status (MarkRunFailed (e_Now env 4) (reason_String TaskGroupRunReasonCouldntGetTaskGroup)
        (''Error retrieving TaskGroup for Run '' @ run_path (st_Run s) @ '': '' @ error_string err)) s)"

definition getTaskGroup :: "Env \<Rightarrow> RState \<Rightarrow> (goerror + ObjectMeta \<times> TaskGroupSpec) \<times> RState" where
  "getTaskGroup env s =
     (let run = st_Run s in
      case rsp_Ref (run_Spec run) of
        Some ref \<Rightarrow>
          if tref_Name ref \<noteq> [] then
            (case e_getTaskGroup env (run_Namespace run) (tref_Name ref) of
               Inl err \<Rightarrow> getTaskGroup_failed env err s
             | Inr tg \<Rightarrow> (Inr (tgr_Meta tg, tgr_Spec tg), s))
          else
            (case rsp_Spec (run_Spec run) of
               Some emb \<Rightarrow>
                 (case e_unmarshalSpec env (ers_Spec emb) of
                    Inl err \<Rightarrow> getTaskGroup_failed env err s
                  | Inr spec \<Rightarrow> (Inr (empty_meta, spec), s))
             | None \<Rightarrow> (Inr (empty_meta, empty_TaskGroupSpec), s))
      | None \<Rightarrow>
          (case rsp_Spec (run_Spec run) of
             Some emb \<Rightarrow>
               (case e_unmarshalSpec env (ers_Spec emb) of
                  Inl err \<Rightarrow> getTaskGroup_failed env err s
                | Inr spec \<Rightarrow> (Inr (empty_meta, spec), s))
           | None \<Rightarrow> (Inr (empty_meta, empty_TaskGroupSpec), s)))"

definition gomap_opt_eq :: "string gomap option \<Rightarrow> string gomap option \<Rightarrow> bool" where
  "gomap_opt_eq a b =
     (case (a, b) of (None, None) \<Rightarrow> True | (Some x, Some y) \<Rightarrow> gomap_eq x y | _ \<Rightarrow> False)"

definition updateLabelsAndAnnotations :: "Env \<Rightarrow> RState \<Rightarrow> goerror option \<times> RState" where
  "updateLabelsAndAnnotations env s =
     (let run = st_Run s in
      case e_getRun env (run_Namespace run) (run_Name run) of
        Inl err \<Rightarrow>
          (Some (Wrap (''error getting Run '' @ run_Name run @ '' when updating labels/annotations'') err), s)
      | Inr newRun \<Rightarrow>
          if \<not> gomap_opt_eq (om_Labels (run_Meta run)) (om_Labels (run_Meta newRun)) \<or>
             \<not> gomap_opt_eq (om_Annotations (run_Meta run)) (om_Annotations (run_Meta newRun))
          then (case e_marshalPatch env (om_Labels (run_Meta run)) (om_Annotations (run_Meta run)) of
                  Inl err \<Rightarrow> (Some err, s)
                | Inr patch \<Rightarrow>
                    (e_patchRun env (run_Namespace run) (run_Name run) patch,
                     add_effect (PatchedRun (run_Namespace run) (run_Name run) patch) s))
          else (None, s))"

section \<open>reconcile and ReconcileKind\<close>

definition reconcile_create :: "Env \<Rightarrow> ObjectMeta \<Rightarrow> TaskGroupSpec \<Rightarrow> RState \<Rightarrow> RState" where
  "reconcile_create env taskGroupMeta taskGroupSpec s =
     (if tgs_TaskRun (st_Status s) = None then
        (case createTaskRun env taskGroupSpec s of
           (Inl err, s') \<Rightarrow>
             upd_run_status (MarkRunFailed (e_Now env 5) (reason_String TaskGroupRunReasonFailedValidation)
               (''TaskGroup '' @ om_Namespace taskGroupMeta @ ''/'' @ om_Name taskGroupMeta @
                '' can't be Run; failed to create TaskRun: '' @ error_string err)) s'
         | (Inr tr, s') \<Rightarrow> s'\<lparr>st_Status := (st_Status s')\<lparr>tgs_TaskRun := Some (tr_Status tr)\<rparr>\<rparr>)
      else s)"

definition reconcile :: "Env \<Rightarrow> RState \<Rightarrow> goerror option \<times> RState" where
  "reconcile env s =
     (case getTaskGroup env s of
        (Inl err, s) \<Rightarrow> (Some err, s)
      | (Inr (taskGroupMeta, taskGroupSpec), s) \<Rightarrow>
          let s = s\<lparr>st_Status := storeTaskGroupSpec taskGroupSpec (st_Status s)\<rparr>;
              s = upd_run (propagateTaskGroupLabelsAndAnnotations taskGroupMeta) s
          in case TaskGroupSpec_Validate taskGroupSpec of
               Some err \<Rightarrow>
                 (None, upd_run_status (MarkRunFailed (e_Now env 4) (reason_String TaskGroupRunReasonFailedValidation)
                    (''TaskGroup '' @ om_Namespace taskGroupMeta @ ''/'' @ om_Name taskGroupMeta @
                     '' can't be Run; it has an invalid spec: '' @
                     FieldError_Error (e_leaf_order env) (Some err))) s)
             | None \<Rightarrow>
                 (case updateTaskRunStatus env s of
                    ((_, _, Some err), s) \<Rightarrow>
                      (Some (Wrap (''error updating TaskRun status for Run '' @ run_path (st_Run s)) err), s)
                  | ((taskRunDone, taskRunFailed, None), s) \<Rightarrow>
                      if taskRunDone then
                        if taskRunFailed
                        then (None, upd_run_status (MarkRunFailed (e_Now env 4)
                                (reason_String TaskGroupRunReasonFailed) ''TaskRun failed'') s)
                        else (None, upd_run_status (MarkRunSucceeded (e_Now env 4)
                                (reason_String TaskGroupRunReasonSucceeded) ''TaskRun succeeded'') s)
                      else
                        let s = upd_run_status (MarkRunRunning (e_Now env 4)
                                  (reason_String TaskGroupRunReasonRunning) (run_Name (st_Run s) @ '' running'')) s
                        in (None, reconcile_create env taskGroupMeta taskGroupSpec s)))"

definition references_TaskGroup :: "Run \<Rightarrow> bool" where
  "references_TaskGroup run =
     (let (apiVersion, kind) =
            (case rsp_Ref (run_Spec run) of
               Some ref \<Rightarrow> (tref_APIVersion ref, tref_Kind ref)
             | None \<Rightarrow>
                 (case rsp_Spec (run_Spec run) of
                    Some emb \<Rightarrow> (ers_APIVersion emb, ers_Kind emb)
                  | None \<Rightarrow> ([], [])))
      in \<not> (apiVersion \<noteq> gv_String SchemeGroupVersion \<or> kind \<noteq> TaskGroupControllerName))"

text \<open>The block that starts a new Run.\<close>

definition start_run :: "Env \<Rightarrow> RState \<Rightarrow> RState" where
  "start_run env s =
     (let s = upd_run_status (InitializeConditions (e_Now env 0) (e_Now env 1) (e_Now env 2)) s;
          start = rs_StartTime (run_Status (st_Run s));
          created = om_CreationTimestamp (run_Meta (st_Run s));
          s = (case start of
                 Some t \<Rightarrow> if t - created < 0
                            then upd_run_status (rs_StartTime_update (\<lambda>_. Some created)) s else s
               | None \<Rightarrow> s)
      in Emit env None (succeeded_of (run_Status (st_Run s))) s)"

definition empty_run_status :: TaskGroupRunStatus where
  "empty_run_status = \<lparr>tgs_TaskGroupSpec = None, tgs_TaskRun = None\<rparr>"

definition DecodeExtraFields :: "Env \<Rightarrow> RunStatus \<Rightarrow> TaskGroupRunStatus go" where
  "DecodeExtraFields env r =
     (if length (rs_ExtraFields r) = 0 then (empty_run_status, None) else e_decodeStatus env (rs_ExtraFields r))"

definition EncodeExtraFields :: "Env \<Rightarrow> TaskGroupRunStatus \<Rightarrow> RunStatus \<Rightarrow> RunStatus go" where
  "EncodeExtraFields env status r =
     (case e_encodeStatus env status of
        Inl err \<Rightarrow> (r, Some err)
      | Inr data \<Rightarrow> (r\<lparr>rs_ExtraFields := data\<rparr>, None))"

definition decode_status :: "Env \<Rightarrow> RState \<Rightarrow> RState" where
  "decode_status env s =
     (case DecodeExtraFields env (run_Status (st_Run s)) of
        (status, None) \<Rightarrow> s\<lparr>st_Status := status\<rparr>
      | (status, Some err) \<Rightarrow>
          upd_run_status (MarkRunFailed (e_Now env 3) (reason_String TaskGroupRunReasonInternalError)
            (''Internal error calling DecodeExtraFields: '' @ error_string err)) (s\<lparr>st_Status := status\<rparr>))"

definition encode_status :: "Env \<Rightarrow> RState \<Rightarrow> RState" where
  "encode_status env s =
     (case EncodeExtraFields env (st_Status s) (run_Status (st_Run s)) of
        (r, None) \<Rightarrow> upd_run_status (\<lambda>_. r) s
      | (r, Some err) \<Rightarrow>
          upd_run_status (MarkRunFailed (e_Now env 6) (reason_String TaskGroupRunReasonInternalError)
            (''Internal error calling EncodeExtraFields: '' @ error_string err)) s)"

definition opt_list :: "'a option \<Rightarrow> 'a list" where
  "opt_list x = (case x of None \<Rightarrow> [] | Some y \<Rightarrow> [y])"

text \<open>What follows the \<open>IsDone\<close> check of \<open>ReconcileKind\<close>; the errors collected in the multierror are
  the result.\<close>

definition reconcile_active :: "Env \<Rightarrow> RState \<Rightarrow> goerror list \<times> RState" where
  "reconcile_active env s =
     (let beforeCondition = succeeded_of (run_Status (st_Run s));
          s = decode_status env s;
          (err1, s) = reconcile env s;
          (err2, s) = updateLabelsAndAnnotations env s;
          s = encode_status env s;
          s = Emit env beforeCondition (succeeded_of (run_Status (st_Run s))) s
      in (opt_list err1 @ opt_list err2, s))"

definition ReconcileKind :: "Env \<Rightarrow> Run \<Rightarrow> goerror list \<times> RState" where
  "ReconcileKind env run =
     (let s = \<lparr>st_Run = run, st_Status = empty_run_status, st_Effects = []\<rparr> in
      if \<not> references_TaskGroup run then ([], s)
      else let s = (if \<not> Run_HasStarted run then start_run env s else s)
           in if Run_IsDone (st_Run s) then ([], s) else reconcile_active env s)"

end
