(* ===== verification/Examples.thy ===== *)
theory Examples
  imports Reconciler
begin

text \<open>
  Concrete inputs at which the properties are instantiated: a TaskGroup with an inline step and a step
  that uses a task, the task, a Run that refers to the TaskGroup, and an environment in which the API
  server answers every request.
\<close>

section \<open>TaskGroups\<close>

text \<open>A merger that takes the template's image where the step has none, a TaskGroup with one inline
  step and one step that uses a task with a bound parameter, and that task.\<close>

definition ex_merger :: Merger where
  "ex_merger = \<lparr>mg_getMergeData = (\<lambda>t. None),
     mg_mergeObj = (\<lambda>t c. Inr (if c_Image c = [] then c\<lparr>c_Image := c_Image t\<rparr> else c))\<rparr>"

definition ex_group :: TaskGroupSpec where
  "ex_group = empty_TaskGroupSpec\<lparr>
     tg_Params := [mkParam ''git_sha'' ''string''],
     tg_Steps := [\<lparr>gs_Step = mkStep ''hi'' ''bash'' ''echo'', gs_Uses = None\<rparr>,
       \<lparr>gs_Step = mkStep [] [] [],
        gs_Uses = Some (mkUses ''git-clone'' [\<lparr>pb_Name = ''revision'', pb_Param = ''git_sha''\<rparr>] [])\<rparr>]\<rparr>"

definition ex_task :: TaskSpec where
  "ex_task = empty_TaskSpec\<lparr>
     ts_Params := [mkParam ''url'' ''string'', mkParam ''revision'' ''string''],
     ts_Steps := [mkStep ''clone'' ''git'' ''run $(params.revision) $(params.url)'']\<rparr>"

definition ex_used :: "nat \<rightharpoonup> TaskSpec" where
  "ex_used = [1 \<mapsto> ex_task]"

declare ex_merger_def [go_defs] ex_group_def [go_defs] ex_task_def [go_defs] ex_used_def [go_defs]

text \<open>Two steps that use the same task, whose parameter \<open>url\<close> the TaskGroup does not declare.\<close>

definition ex_twice :: TaskGroupSpec where
  "ex_twice = empty_TaskGroupSpec\<lparr>
     tg_Steps := [\<lparr>gs_Step = mkStep ''a'' [] [], gs_Uses = Some (mkUses ''git-clone'' [] [])\<rparr>,
                  \<lparr>gs_Step = mkStep ''b'' [] [], gs_Uses = Some (mkUses ''git-clone'' [] [])\<rparr>]\<rparr>"

definition ex_twice_used :: "nat \<rightharpoonup> TaskSpec" where
  "ex_twice_used = [0 \<mapsto> ex_task, 1 \<mapsto> ex_task]"

declare ex_twice_def [go_defs] ex_twice_used_def [go_defs]

lemma ex_group_ok: "snd (resolve_TaskSpec ex_merger (\<lambda>m. m) ex_group ex_used) = None"
  by code_simp

lemma ex_twice_ok: "snd (resolve_TaskSpec ex_merger (\<lambda>m. m) ex_twice ex_twice_used) = None"
  by code_simp

section \<open>Runs and environments\<close>

definition ex_env :: "TaskRun list \<Rightarrow> Env" where
  "ex_env trs =
     \<lparr>e_getTaskGroup = (\<lambda>ns n. Inr \<lparr>tgr_TypeMeta = zero_TypeMeta, tgr_Meta = empty_meta\<lparr>om_Name := n, om_Namespace := ns\<rparr>, tgr_Spec = ex_group\<rparr>),
      e_unmarshalSpec = (\<lambda>raw. Inr empty_TaskGroupSpec),
      e_decodeStatus = (\<lambda>raw. (empty_run_status, None)),
      e_encodeStatus = (\<lambda>st. Inr ''encoded''),
      e_listTaskRuns = (\<lambda>ns sel. Inr trs),
      e_getRun = (\<lambda>ns n. Inl (Errorf ''not in the cache'')),
      e_getTask = (\<lambda>ns n. Inr ex_task),
      e_getClusterTask = (\<lambda>n. Inl (Errorf ''no such task'')),
      e_getBundleTask = (\<lambda>b ns sa k n. Inl (Errorf ''no such bundle'')),
      e_createTaskRun = Inr,
      e_patchTaskRun = (\<lambda>ns n p. None),
      e_marshalPatch = (\<lambda>ls as. Inr ''patch''),
      e_patchRun = (\<lambda>ns n p. None),
      e_cancelPatchBytes = ''cancel'',
      e_EnableTektonOCIBundles = False,
      e_cloudEventsSink = [],
      e_rand = (\<lambda>n. replicate n CHR ''x''),
      e_Now = (\<lambda>k. 100 + int k),
      e_goSyntax = error_string,
      e_merger = ex_merger,
      e_order = (\<lambda>m. m),
      e_leaf_order = (\<lambda>m. m)\<rparr>"

definition empty_RunStatus :: RunStatus where
  "empty_RunStatus = \<lparr>rs_ObservedGeneration = 0, rs_Conditions = [], rs_StartTime = None, rs_CompletionTime = None,
     rs_ExtraFields = [], rs_rest = []\<rparr>"

definition ex_run :: Run where
  "ex_run =
     \<lparr>run_Meta = empty_meta\<lparr>om_Name := ''run'', om_Namespace := ''ns'', om_CreationTimestamp := 50\<rparr>,
      run_Spec = \<lparr>rsp_Ref = Some \<lparr>tref_Name = ''group'', tref_Kind = ''TaskGroup'',
          tref_APIVersion = ''custom.tekton.dev/v1alpha1'', tref_Bundle = []\<rparr>,
        rsp_Spec = None, rsp_Params = [], rsp_Status = [], rsp_ServiceAccountName = [],
        rsp_PodTemplate = None, rsp_Workspaces = [], rsp_rest = []\<rparr>,
      run_Status = empty_RunStatus\<rparr>"

text \<open>A TaskRun of that Run whose \<open>Succeeded\<close> condition has the given status.\<close>

definition ex_taskrun :: "string \<Rightarrow> TaskRun" where
  "ex_taskrun st =
     (new_TaskRun (ex_env []) ex_run empty_TaskSpec)
       \<lparr>tr_Status := \<lparr>trst_Conditions = [new_condition ConditionSucceeded st [] []], trst_rest = []\<rparr>\<rparr>"

declare ex_env_def [go_defs] ex_run_def [go_defs] empty_RunStatus_def [go_defs]

lemma ex_run_wf [simp]: "status_wf (run_Status ex_run)"
  by (simp add: ex_run_def empty_RunStatus_def status_wf_def conds_wf_def)

lemma ex_run_references [simp]: "references_TaskGroup ex_run"
  by code_simp

lemma ex_run_not_done [simp]: "\<not> Run_IsDone ex_run"
  by code_simp

lemma ex_group_valid [simp]: "valid_spec ex_group"
  unfolding TaskGroupSpec_Validate_None [symmetric] by code_simp

end
