(* ===== verification/Resolve_Properties.thy ===== *)
theory Resolve_Properties
  imports Examples
begin

text \<open>
  The properties of \<open>pkg/resolve\<close>: what \<open>TaskSpec\<close> returns, when it fails and with which error, that
  the random iteration order of Go maps cannot be observed, what happens to the references in the
  steps of a used task, and which names the merged spec declares.
\<close>

section \<open>What TaskSpec returns\<close>

text \<open>C1. When \<open>TaskSpec\<close> succeeds, its result is the specified merge: the TaskGroup's own
  declarations first, then those of the used tasks that are neither bound nor already declared, the
  steps expanded in order (an inline step, or the used task's steps substituted and renamed, each
  merged with the right step template), the description kept and no step template left.\<close>

theorem resolve_TaskSpec_result:
  assumes "snd (resolve_TaskSpec mg ord spec used) = None"
  shows "fst (resolve_TaskSpec mg ord spec used) = merged_spec mg ord spec used"
  using assms by (rule resolve_TaskSpec_fst)

theorem resolve_TaskSpec_result_witness:
  "fst (resolve_TaskSpec ex_merger (\<lambda>m. m) ex_group ex_used) =
     merged_spec ex_merger (\<lambda>m. m) ex_group ex_used"
  using resolve_TaskSpec_result [OF ex_group_ok] .

text \<open>C8. \<open>TaskSpec\<close> returns exactly the first error in the order of the code: of the first step
  that cannot be expanded, then the first clash of parameters, workspaces, sidecars and volumes; it
  returns no error when there is none of these. Results never clash.\<close>

theorem resolve_TaskSpec_error:
  "snd (resolve_TaskSpec mg ord spec used) =
     first_some (expand_error mg ord spec used 0 (tg_Steps spec) # merge_errors spec used)"
  by (rule resolve_TaskSpec_snd)

lemma merge_errors_None:
  "(\<forall>x \<in> set (merge_errors spec used). x = None) \<longleftrightarrow>
     (\<forall>p \<in> set (brought_params used spec). \<forall>d. declared p_Name (tg_Params spec) (p_Name p) = Some d
        \<longrightarrow> p_Type d = p_Type p) \<and>
     (\<forall>w \<in> set (brought_workspaces used spec). \<forall>d.
        declared w_Name (tg_Workspaces spec) (w_Name w) = Some d \<longrightarrow>
        w_MountPath d = w_MountPath w \<and> w_ReadOnly d = w_ReadOnly w \<and> w_Optional d = w_Optional w) \<and>
     sc_Name ` set (brought_sidecars used spec) \<inter> sc_Name ` set (tg_Sidecars spec) = {} \<and>
     v_Name ` set (brought_volumes used spec) \<inter> v_Name ` set (tg_Volumes spec) = {}"
proof -
  have "first_clash sc_Name sidecar_clash (declared sc_Name ds) us = None \<longleftrightarrow>
      sc_Name ` set us \<inter> sc_Name ` set ds = {}" for ds us
    using mergeSidecars_ok_iff [of us "empty_TaskSpec\<lparr>ts_Sidecars := ds\<rparr>"] by (simp add: sidecars.merge_snd)
  moreover have "first_clash v_Name volume_clash (declared v_Name ds) us = None \<longleftrightarrow>
      v_Name ` set us \<inter> v_Name ` set ds = {}" for ds us
    using mergeVolumes_ok_iff [of us "empty_TaskSpec\<lparr>ts_Volumes := ds\<rparr>"] by (simp add: volumes.merge_snd)
  ultimately show ?thesis
    by (simp add: merge_errors_def first_clash_None [of p_Name] first_clash_None [of w_Name]
        param_clash_None workspace_clash_None)
qed

text \<open>\<open>TaskSpec\<close> succeeds if and only if every step can be expanded, every used parameter that
  the TaskGroup also declares has the declared type, every such workspace has the declared mount
  path, read-only and optional flags, and no sidecar or volume of a used task has the name of one of
  the TaskGroup.\<close>

theorem resolve_TaskSpec_succeeds_iff:
  "snd (resolve_TaskSpec mg ord spec used) = None \<longleftrightarrow>
     (\<forall>x \<in> set (enumerate 0 (tg_Steps spec)). snd (expand mg ord spec used x) = None) \<and>
     (\<forall>p \<in> set (brought_params used spec). \<forall>d. declared p_Name (tg_Params spec) (p_Name p) = Some d
        \<longrightarrow> p_Type d = p_Type p) \<and>
     (\<forall>w \<in> set (brought_workspaces used spec). \<forall>d.
        declared w_Name (tg_Workspaces spec) (w_Name w) = Some d \<longrightarrow>
        w_MountPath d = w_MountPath w \<and> w_ReadOnly d = w_ReadOnly w \<and> w_Optional d = w_Optional w) \<and>
     sc_Name ` set (brought_sidecars used spec) \<inter> sc_Name ` set (tg_Sidecars spec) = {} \<and>
     v_Name ` set (brought_volumes used spec) \<inter> v_Name ` set (tg_Volumes spec) = {}"
  unfolding resolve_TaskSpec_snd first_some_None set_simps ball_simps(7) merge_errors_None
    expand_error_None by (rule refl)

theorem resolve_TaskSpec_succeeds_iff_witness:
  "snd (resolve_TaskSpec ex_merger (\<lambda>m. m) ex_group ex_used) = None \<and>
   snd (expand ex_merger (\<lambda>m. m) ex_group ex_used (1, tg_Steps ex_group ! 1)) = None \<and>
   sc_Name ` set (brought_sidecars ex_used ex_group) \<inter> sc_Name ` set (tg_Sidecars ex_group) = {}"
proof -
  have x: "(1, tg_Steps ex_group ! 1) \<in> set (enumerate 0 (tg_Steps ex_group))"
    by (simp add: in_set_enumerate_eq ex_group_def)
  note ok = resolve_TaskSpec_succeeds_iff [THEN iffD1, OF ex_group_ok]
  show ?thesis
    by (rule conjI [OF ex_group_ok conjI [OF bspec [OF conjunct1 [OF ok] x]
          conjunct1 [OF conjunct2 [OF conjunct2 [OF conjunct2 [OF ok]]]]]])
qed

text \<open>A step that uses a task whose spec was not fetched stops the resolution: the error names
  the step, and the returned partial spec holds exactly the steps expanded before it.\<close>

theorem resolve_TaskSpec_missing_use:
  assumes "i < length (tg_Steps spec)" and "gs_Uses (tg_Steps spec ! i) \<noteq> None" and "used i = None"
    and "\<And>j. j < i \<Longrightarrow> snd (expand mg ord spec used (j, tg_Steps spec ! j)) = None"
  shows "snd (resolve_TaskSpec mg ord spec used) =
      Some (Errorf (''step '' @ s_Name (gs_Step (tg_Steps spec ! i)) @ '' uses not found'')) \<and>
    ts_Steps (fst (resolve_TaskSpec mg ord spec used)) =
      concat (map (\<lambda>j. fst (expand mg ord spec used (j, tg_Steps spec ! j))) [0..<i])"
proof (rule conjI)
  let ?P = "\<lambda>x. snd (expand mg ord spec used x) = None" and ?xs = "enumerate 0 (tg_Steps spec)"
  let ?e = "Errorf (''step '' @ s_Name (gs_Step (tg_Steps spec ! i)) @ '' uses not found'')"
  have nth: "?xs ! j = (j, tg_Steps spec ! j)" if "j < length (tg_Steps spec)" for j
    using that by (simp add: nth_enumerate_eq)
  have ei: "snd (expand mg ord spec used (?xs ! i)) = Some ?e"
    using assms(1-3) by (auto simp: nth expand_def)
  have tw: "takeWhile ?P ?xs = take i ?xs"
    using assms(1,4) ei by (intro takeWhile_eq_take_P_nth) (auto simp: nth)
  have "find (\<lambda>x. \<not> ?P x) ?xs = Some (?xs ! i)"
    using assms(1,4) ei by (auto simp: find_Some_iff nth intro!: exI [of _ i])
  with ei have err: "expand_error mg ord spec used 0 (tg_Steps spec) = Some ?e"
    by (simp add: expand_error_def)
  then show "snd (resolve_TaskSpec mg ord spec used) = Some ?e"
    by (simp add: resolve_TaskSpec_snd)
  have "take i ?xs = map (\<lambda>j. (j, tg_Steps spec ! j)) [0..<i]"
    using assms(1) by (intro nth_equalityI) (auto simp: nth)
  with resolve_TaskSpec_partial [OF err] tw
  show "ts_Steps (fst (resolve_TaskSpec mg ord spec used)) =
      concat (map (\<lambda>j. fst (expand mg ord spec used (j, tg_Steps spec ! j))) [0..<i])"
    by (simp add: expanded_def comp_def)
qed

theorem resolve_TaskSpec_missing_use_witness:
  "snd (resolve_TaskSpec ex_merger (\<lambda>m. m) ex_group Map.empty) = Some (Errorf ''step  uses not found'')"
proof -
  have p: "snd (expand ex_merger (\<lambda>m. m) ex_group Map.empty (0, tg_Steps ex_group ! 0)) = None"
    by code_simp
  have "snd (resolve_TaskSpec ex_merger (\<lambda>m. m) ex_group Map.empty) =
      Some (Errorf (''step '' @ s_Name (gs_Step (tg_Steps ex_group ! 1)) @ '' uses not found''))"
    by (rule resolve_TaskSpec_missing_use [of 1, THEN conjunct1]) (use p in \<open>simp_all add: go_defs\<close>)
  then show ?thesis by (simp add: go_defs)
qed

section \<open>Map iteration order\<close>

text \<open>C37. Go leaves the order of iteration over a map open, and both the binding maps and the
  replacement maps are iterated. As long as no bound name contains a closing parenthesis, the result
  of \<open>TaskSpec\<close>, value and error, does not depend on it.\<close>

theorem resolve_TaskSpec_deterministic:
  assumes "is_order ord" "is_order ord'"
    and "\<And>s u. s \<in> set (tg_Steps spec) \<Longrightarrow> gs_Uses s = Some u \<Longrightarrow> uses_paren_free u"
  shows "resolve_TaskSpec mg ord spec used = resolve_TaskSpec mg ord' spec used"
proof -
  have step: "TaskSpec_step mg ord spec used i s acc = TaskSpec_step mg ord' spec used i s acc"
    if "s \<in> set (tg_Steps spec)" for i s acc
  proof (cases "gs_Uses s")
    case (Some u)
    have "resolved_step ord (pbinds u) (wbinds u) n = resolved_step ord' (pbinds u) (wbinds u) n" for n
      using assms(1,2) binds_paren_free [OF assms(3) [OF that Some]]
      by (intro resolved_step_order) simp_all
    with Some show ?thesis
      by (simp add: TaskSpec_step_def TaskSpec_uses_closed used_steps_def split: option.splits)
  qed (simp add: TaskSpec_step_def)
  have "TaskSpec_loop mg ord spec used i steps acc = TaskSpec_loop mg ord' spec used i steps acc"
    if "set steps \<subseteq> set (tg_Steps spec)" for i steps acc
    using that
    by (induction steps arbitrary: i acc) (auto simp: step split: prod.splits option.splits)
  then show ?thesis by (simp add: resolve_TaskSpec_def)
qed

theorem resolve_TaskSpec_deterministic_witness:
  "resolve_TaskSpec ex_merger (\<lambda>m. m) ex_group ex_used = resolve_TaskSpec ex_merger rev ex_group ex_used"
  by (rule resolve_TaskSpec_deterministic) (auto simp: go_defs uses_paren_free_def)

section \<open>References in the steps of a used task\<close>

text \<open>C24. Substitution is simultaneous: on a text made of literals and references, every
  reference that is a key becomes the key's value in one pass and nothing else changes, so a value
  that itself looks like a reference is not substituted again.\<close>

theorem ApplyReplacements_simultaneous:
  assumes "is_order ord" "gomap_wf r" "paren_free r" "\<forall>g \<in> set segs. seg_clean g"
  shows "ApplyReplacements ord (render segs) r = concat (map (subst_seg r) segs)"
  using assms by (rule ApplyReplacements_render)

text \<open>Swapping two names needs a single pass: the instance below swaps \<open>a\<close> and \<open>b\<close>.\<close>

theorem ApplyReplacements_simultaneous_witness:
  "ApplyReplacements rev ''x $(a) $(b)'' [(''a'', ''$(b)''), (''b'', ''$(a)'')] = ''x $(b) $(a)''"
proof -
  have "ApplyReplacements rev (render [Lit ''x '', Ref ''a'', Lit '' '', Ref ''b''])
      [(''a'', ''$(b)''), (''b'', ''$(a)'')] =
    concat (map (subst_seg [(''a'', ''$(b)''), (''b'', ''$(a)'')]) [Lit ''x '', Ref ''a'', Lit '' '', Ref ''b''])"
    by (rule ApplyReplacements_simultaneous) (auto simp: ref_clean_def)
  then show ?thesis by (simp add: render_def var_ref_def)
qed











text \<open>The steps of a used task keep their number and order; each goes through the same
  substitution in all of its substitutable fields, gets the name of the using step, a dash and its own
  (substituted) name, and keeps its timeout, workspaces and error mode.\<close>

theorem resolveSteps_result:
  "resolveSteps name ut [replaceParams ord pb, replaceWorkspaces ord wb] =
     (map (\<lambda>s. let s' = map_UStep (resolve_string ord pb wb) s
               in set_step_name (name @ ''-'' @ s_Name s') s') (ts_Steps ut), None)"
  by (simp add: resolveSteps_closed resolved_step_def [abs_def])

section \<open>Names\<close>

lemma dash_prefix_inj:
  assumes "CHR ''-'' \<notin> set a" "CHR ''-'' \<notin> set b" "a @ CHR ''-'' # x = b @ CHR ''-'' # y"
  shows "a = b \<and> x = y"
  using assms
proof (induction a arbitrary: b)
  case Nil
  then show ?case by (cases b) auto
next
  case (Cons c a)
  then show ?case by (cases b) auto
qed

lemma itoa_no_dash: "CHR ''-'' \<notin> set (itoa n)"
  using itoa_digits [of n] by auto

definition generated_names :: "order \<Rightarrow> string gomap \<Rightarrow> string gomap \<Rightarrow> nat \<Rightarrow> TaskSpec \<Rightarrow> string list" where
  "generated_names ord pb wb n ut =
     map s_Name (fst (resolveSteps (''unamed-'' @ itoa n) ut [replaceParams ord pb, replaceWorkspaces ord wb]))"

lemma generated_names_closed:
  "generated_names ord pb wb n ut =
     map (\<lambda>s. ''unamed-'' @ itoa n @ ''-'' @ resolve_string ord pb wb (s_Name s)) (ts_Steps ut)"
  by (simp add: generated_names_def resolveSteps_closed resolved_step_def Let_def set_step_name_def map_UStep_def
      map_Container_def)

text \<open>Steps that use a task and have no name of their own get generated names: the steps that two
  different positions of the TaskGroup expand to never share a name, whatever the tasks and the
  bindings are.\<close>

theorem resolveSteps_generated_names:
  assumes "i \<noteq> j"
  shows "set (generated_names ord pb wb i ut) \<inter> set (generated_names ord' pb' wb' j ut') = {}"
  using assms itoa_inj [of i j]
  by (auto simp: generated_names_closed dest!: dash_prefix_inj [OF itoa_no_dash itoa_no_dash])

theorem resolveSteps_generated_names_witness:
  "set (generated_names rev [] [] 1 ex_task) \<inter> set (generated_names rev [] [] 11 ex_task) = {}"
  by (rule resolveSteps_generated_names) simp

section \<open>Declared names of the merged spec\<close>

lemma used_of_Some:
  "used_of used x = Some y \<longleftrightarrow> gs_Uses (snd x) = Some (fst y) \<and> used (fst x) = Some (snd y)"
  by (cases y) (auto simp: used_of_def bind_eq_Some_conv)

lemma brought_mem:
  "x \<in> set (brought f used 0 steps) \<longleftrightarrow>
     (\<exists>i u ut. i < length steps \<and> gs_Uses (steps ! i) = Some u \<and> used i = Some ut \<and> x \<in> set (f u ut))"
proof
  assume "x \<in> set (brought f used 0 steps)"
  then obtain y where y: "y \<in> set (enumerate 0 steps)"
      "x \<in> set (case used_of used y of None \<Rightarrow> [] | Some (u, ut) \<Rightarrow> f u ut)"
    by (auto simp: brought_def)
  then obtain u ut where "used_of used y = Some (u, ut)" "x \<in> set (f u ut)"
    by (cases "used_of used y") auto
  with y(1) show "\<exists>i u ut. i < length steps \<and> gs_Uses (steps ! i) = Some u \<and> used i = Some ut \<and> x \<in> set (f u ut)"
    by (intro exI [of _ "fst y"] exI [of _ u] exI [of _ ut])
      (auto simp: used_of_Some in_set_enumerate_eq)
next
  assume "\<exists>i u ut. i < length steps \<and> gs_Uses (steps ! i) = Some u \<and> used i = Some ut \<and> x \<in> set (f u ut)"
  then obtain i u ut where i: "i < length steps" "gs_Uses (steps ! i) = Some u" "used i = Some ut" "x \<in> set (f u ut)"
    by blast
  then have "(i, steps ! i) \<in> set (enumerate 0 steps)" by (simp add: in_set_enumerate_eq)
  moreover have "used_of used (i, steps ! i) = Some (u, ut)" using i by (simp add: used_of_Some)
  ultimately show "x \<in> set (brought f used 0 steps)"
    using i(4) by (auto simp: brought_def intro!: bexI [of _ "(i, steps ! i)"])
qed

text \<open>Every parameter and workspace of the merged spec is declared by the TaskGroup or comes
  from a used task that does not bind it: binding a name removes it from what its task brings.\<close>

theorem resolve_TaskSpec_no_bound_names:
  assumes "snd (resolve_TaskSpec mg ord spec used) = None"
  shows "set (ts_Params (fst (resolve_TaskSpec mg ord spec used))) \<subseteq> set (tg_Params spec) \<union>
      {p. \<exists>i u ut. i < length (tg_Steps spec) \<and> gs_Uses (tg_Steps spec ! i) = Some u \<and> used i = Some ut \<and>
         p \<in> set (ts_Params ut) \<and> p_Name p \<notin> pb_Name ` set (u_ParamBindings u)} \<and>
    set (ts_Workspaces (fst (resolve_TaskSpec mg ord spec used))) \<subseteq> set (tg_Workspaces spec) \<union>
      {w. \<exists>i u ut. i < length (tg_Steps spec) \<and> gs_Uses (tg_Steps spec ! i) = Some u \<and> used i = Some ut \<and>
         w \<in> set (ts_Workspaces ut) \<and> w_Name w \<notin> wb_Name ` set (u_WorkspaceBindings u)}"
  unfolding resolve_TaskSpec_fst [OF assms]
  by (auto simp: merged_spec_def fresh_def unbound_params_def unbound_workspaces_def brought_mem)

theorem resolve_TaskSpec_no_bound_names_witness:
  "mkParam ''revision'' ''string'' \<notin> set (ts_Params (fst (resolve_TaskSpec ex_merger (\<lambda>m. m) ex_group ex_used)))"
proof
  assume "mkParam ''revision'' ''string'' \<in> set (ts_Params (fst (resolve_TaskSpec ex_merger (\<lambda>m. m) ex_group ex_used)))"
  with resolve_TaskSpec_no_bound_names [OF ex_group_ok, THEN conjunct1]
  obtain i u ut where "mkParam ''revision'' ''string'' \<in> set (tg_Params ex_group) \<or>
      i < length (tg_Steps ex_group) \<and> gs_Uses (tg_Steps ex_group ! i) = Some u \<and> ex_used i = Some ut \<and>
      p_Name (mkParam ''revision'' ''string'') \<notin> pb_Name ` set (u_ParamBindings u)"
    by blast
  then show False by (auto simp: go_defs less_Suc_eq split: if_splits)
qed

lemma brought_split:
  assumes "i < length steps"
  shows "brought f used k steps =
    brought f used k (take i steps) @
    (case used_of used (k + i, steps ! i) of None \<Rightarrow> [] | Some (u, ut) \<Rightarrow> f u ut) @
    brought f used (Suc (k + i)) (drop (Suc i) steps)"
  using assms
proof (induction steps arbitrary: i k)
  case (Cons s ss)
  then show ?case by (cases i) (simp_all add: brought_Cons)
qed simp

lemma brought_twice:
  assumes "i < j" "j < length steps"
    and "used_of used (i, steps ! i) = Some (u, ut)" "x \<in> set (f u ut)"
    and "used_of used (j, steps ! j) = Some (u', ut')" "y \<in> set (f u' ut')"
    and "nm x = nm y" "P x" "P y"
  shows "\<not> distinct (map nm (filter P (brought f used 0 steps)))"
proof -
  let ?rest = "brought f used (Suc i) (drop (Suc i) steps)"
  have "brought f used 0 steps = brought f used 0 (take i steps) @ f u ut @ ?rest"
    using brought_split [of i steps f used 0] assms(1-3) by simp
  moreover have "y \<in> set ?rest"
    using brought_split [of "j - Suc i" "drop (Suc i) steps" f used "Suc i"] assms(1,2,5,6) by simp
  ultimately show ?thesis using assms(4,7-9) by (force simp: distinct_append)
qed

text \<open>On success the parameter names of the merged spec are distinct exactly when those the
  TaskGroup declares are and the undeclared, unbound ones that the used tasks bring are: nothing
  removes a parameter that two used tasks share.\<close>

theorem resolve_TaskSpec_distinct_params:
  assumes "snd (resolve_TaskSpec mg ord spec used) = None"
  shows "distinct (map p_Name (ts_Params (fst (resolve_TaskSpec mg ord spec used)))) \<longleftrightarrow>
    distinct (map p_Name (tg_Params spec)) \<and>
    distinct (map p_Name (filter (\<lambda>p. p_Name p \<notin> p_Name ` set (tg_Params spec)) (brought_params used spec)))"
proof -
  have "m \<notin> nm ` set ds" if "m \<in> nm ` set (fresh nm ds us)" for m and nm :: "ParamSpec \<Rightarrow> string" and ds us
    using that by (auto simp only: fresh_def set_filter)
  then have "p_Name ` set (tg_Params spec) \<inter>
      p_Name ` set (fresh p_Name (tg_Params spec) (brought_params used spec)) = {}"
    by blast
  then have "distinct (map p_Name (tg_Params spec @ fresh p_Name (tg_Params spec) (brought_params used spec))) \<longleftrightarrow>
      distinct (map p_Name (tg_Params spec)) \<and>
      distinct (map p_Name (fresh p_Name (tg_Params spec) (brought_params used spec)))"
    by simp
  then show ?thesis
    by (simp only: resolve_TaskSpec_fst [OF assms] merged_spec_def TaskSpec.select_convs fresh_def)
qed

theorem resolve_TaskSpec_distinct_params_witness:
  "distinct (map p_Name (ts_Params (fst (resolve_TaskSpec ex_merger (\<lambda>m. m) ex_group ex_used))))"
  unfolding resolve_TaskSpec_distinct_params [OF ex_group_ok] by code_simp

text \<open>C38. Two steps whose used tasks have a parameter of the same name, which neither binds and the
  TaskGroup does not declare, give a merged spec that declares that parameter twice.\<close>

theorem resolve_TaskSpec_duplicate_params:
  assumes "snd (resolve_TaskSpec mg ord spec used) = None"
    and "i < j" "j < length (tg_Steps spec)"
    and "gs_Uses (tg_Steps spec ! i) = Some u" "used i = Some ut" "p \<in> set (ts_Params ut)"
    and "gs_Uses (tg_Steps spec ! j) = Some u'" "used j = Some ut'" "q \<in> set (ts_Params ut')"
    and "p_Name p = n" "p_Name q = n" "n \<notin> p_Name ` set (tg_Params spec)"
    and "n \<notin> pb_Name ` set (u_ParamBindings u)" "n \<notin> pb_Name ` set (u_ParamBindings u')"
  shows "\<not> distinct (map p_Name (ts_Params (fst (resolve_TaskSpec mg ord spec used))))"
proof -
  have "p \<in> set (unbound_params u ut)" "q \<in> set (unbound_params u' ut')"
    using assms(6,9-14) by (simp_all only: unbound_params_def set_filter mem_Collect_eq) simp_all
  then have "\<not> distinct (map p_Name (filter (\<lambda>p. p_Name p \<notin> p_Name ` set (tg_Params spec)) (brought_params used spec)))"
    using assms(2-5,7,8,10-12)
    by (intro brought_twice [where i = i and j = j and u = u and ut = ut and x = p and
          u' = u' and ut' = ut' and y = q])
      (simp_all only: used_of_Some fst_conv snd_conv simp_thms)
  then have "\<not> distinct (map p_Name (fresh p_Name (tg_Params spec) (brought_params used spec)))"
    by (simp only: fresh_def not_False_eq_True)
  then show ?thesis
    by (simp only: resolve_TaskSpec_fst [OF assms(1)] merged_spec_def TaskSpec.select_convs map_append
        distinct_append) simp
qed

theorem resolve_TaskSpec_duplicate_params_witness:
  "\<not> distinct (map p_Name (ts_Params (fst (resolve_TaskSpec ex_merger (\<lambda>m. m) ex_twice ex_twice_used))))"
  by (rule resolve_TaskSpec_duplicate_params [OF ex_twice_ok, where i = 0 and j = 1 and n = "''url''" and
        p = "mkParam ''url'' ''string''" and q = "mkParam ''url'' ''string''" and
        u = "mkUses ''git-clone'' [] []" and u' = "mkUses ''git-clone'' [] []" and ut = ex_task and ut' = ex_task])
    (simp_all add: go_defs)

section \<open>The step template\<close>

text \<open>What a step becomes when the template is merged into it.\<close>

definition templated :: "Merger \<Rightarrow> Container \<Rightarrow> UStep \<Rightarrow> UStep \<Rightarrow> bool" where
  "templated mg t s s' \<longleftrightarrow>
     (\<exists>c. mg_mergeObj mg t (s_Container s) = Inr c \<and>
       s_Container s' = (if c_Args c = None \<and> c_Args (s_Container s) \<noteq> None then c\<lparr>c_Args := Some []\<rparr> else c) \<and>
       s_Script s' = s_Script s \<and> s_Timeout s' = s_Timeout s \<and> s_OnError s' = s_OnError s \<and>
       s_Workspaces s' = [])"

lemma mergeSteps_loop_frame:
  "mergeSteps_loop mg t ss = Inr ss' \<Longrightarrow> list_all2 (templated mg t) ss ss'"
proof (induction mg t ss arbitrary: ss' rule: mergeSteps_loop.induct)
  case (2 mg t s ss)
  from "2.prems" obtain c ss2 where m: "mg_mergeObj mg t (s_Container s) = Inr c"
      "mergeSteps_loop mg t ss = Inr ss2"
    by (auto simp: Let_def split: sum.splits)
  with "2.prems" "2.IH" [OF m(1) refl refl m(2)] show ?case
    by (auto simp: Let_def templated_def [of _ _ s])
qed simp

text \<open>A step template is merged into every step separately: there are as many steps as before,
  each container is the strategic merge of the template and the step's own, script, timeout and
  \<open>onError\<close> are kept, arguments the step set explicitly empty do not turn nil again, and the
  workspaces of the steps are dropped.\<close>

theorem MergeStepsWithStepTemplate_frame:
  assumes "MergeStepsWithStepTemplate mg (Some t) ss = (ss', None)"
  shows "list_all2 (templated mg t) ss ss'"
  using assms
  by (intro mergeSteps_loop_frame) (auto simp: MergeStepsWithStepTemplate_def split: option.splits sum.splits)

theorem MergeStepsWithStepTemplate_frame_witness:
  "\<exists>ss'. MergeStepsWithStepTemplate ex_merger (Some (mkContainer [] ''ubi'')) [mkStep ''a'' [] ''ls''] = (ss', None) \<and>
     length ss' = 1"
proof -
  let ?s = "mkStep ''a'' ''ubi'' ''ls''"
  have "MergeStepsWithStepTemplate ex_merger (Some (mkContainer [] ''ubi'')) [mkStep ''a'' [] ''ls''] = ([?s], None)"
    by (simp add: go_defs)
  from this MergeStepsWithStepTemplate_frame [OF this] show ?thesis
    by (auto simp only: list_all2_Cons1) simp
qed

end
