(* ===== verification/Deep_Copy_Model.thy ===== *)
theory Deep_Copy_Model
  imports Api_Types
begin

text \<open>
  A memory model for \<open>zz_generated.deepcopy.go\<close>: a heap of arrays, slices and pointers into it, and the
  contract of a \<open>DeepCopyInto\<close> method. A pointer is the address of an array with one element. The heap
  is a list of cells and an address its index, so that allocation appends a cell.

  A \<open>shape\<close> says of a type of Go values which of them are well formed in a heap, what is read through
  them (\<open>sh_view\<close>) and which cells they reach (\<open>sh_refs\<close>). The locale \<open>deep_copy\<close> is the contract: the
  copy reads like the original, nothing that existed is written, and the copy reaches new cells only.
  It is closed under pairs, slices and pointers.
\<close>

section \<open>Heaps\<close>

record slice =
  sl_array :: nat
  sl_off :: nat
  sl_len :: nat

type_synonym pointer = "nat option"

text \<open>How arrays with elements \<open>'a\<close> are stored in cells \<open>'c\<close>.\<close>

record ('a, 'c) arr =
  ar_mk :: "'a list \<Rightarrow> 'c"
  ar_un :: "'c \<Rightarrow> 'a list option"

definition arr_ok :: "('a, 'c) arr \<Rightarrow> bool" where
  "arr_ok A \<longleftrightarrow> (\<forall>xs. ar_un A (ar_mk A xs) = Some xs)"

definition alloc :: "'c \<Rightarrow> 'c list \<Rightarrow> nat \<times> 'c list" where
  "alloc c h = (length h, h @ [c])"

definition array_at :: "('a, 'c) arr \<Rightarrow> 'c list \<Rightarrow> nat \<Rightarrow> 'a list" where
  "array_at A h a = (if a < length h then (case ar_un A (h ! a) of None \<Rightarrow> [] | Some xs \<Rightarrow> xs) else [])"

definition elems :: "('a, 'c) arr \<Rightarrow> 'c list \<Rightarrow> slice \<Rightarrow> 'a list" where
  "elems A h s = take (sl_len s) (drop (sl_off s) (array_at A h (sl_array s)))"

definition store :: "('a, 'c) arr \<Rightarrow> nat \<Rightarrow> nat \<Rightarrow> 'a \<Rightarrow> 'c list \<Rightarrow> 'c list" where
  "store A a i x h = h[a := ar_mk A ((array_at A h a)[i := x])]"

definition ext :: "'c list \<Rightarrow> 'c list \<Rightarrow> bool" where
  "ext h h' \<longleftrightarrow> length h \<le> length h' \<and> (\<forall>a < length h. h' ! a = h ! a)"

lemma ext_refl [simp]: "ext h h"
  by (simp add: ext_def)

lemma ext_trans [trans]: "ext h h' \<Longrightarrow> ext h' h'' \<Longrightarrow> ext h h''"
  by (auto simp: ext_def)

lemma ext_length: "ext h h' \<Longrightarrow> length h \<le> length h'"
  by (simp add: ext_def)

lemma ext_alloc [simp]: "ext h (h @ [c])"
  by (simp add: ext_def nth_append)

lemma ext_update: "ext h h' \<Longrightarrow> length h \<le> a \<Longrightarrow> ext h (h'[a := c])"
  by (simp add: ext_def)

section \<open>The copying statements of the generated code\<close>

text \<open>\<open>for i := range *in { (*in)[i].DeepCopyInto(&(*out)[i]) }\<close> after \<open>n\<close> rounds; \<open>out\<close> is the array \<open>a\<close>.\<close>

primrec copy_loop ::
    "('a, 'c) arr \<Rightarrow> ('a \<Rightarrow> 'c list \<Rightarrow> 'a \<times> 'c list) \<Rightarrow> slice \<Rightarrow> nat \<Rightarrow> nat \<Rightarrow> 'c list \<Rightarrow> 'c list" where
  "copy_loop A copy s a 0 h = h"
| "copy_loop A copy s a (Suc i) h =
     (let h = copy_loop A copy s a i h;
          (x, h) = copy (elems A h s ! i) h
      in store A a i x h)"

text \<open>\<open>if in.F != nil { *out = make([]T, len(*in)); for ... }\<close>\<close>

definition copy_slice ::
    "('a, 'c) arr \<Rightarrow> 'a \<Rightarrow> ('a \<Rightarrow> 'c list \<Rightarrow> 'a \<times> 'c list) \<Rightarrow> slice option \<Rightarrow> 'c list \<Rightarrow> slice option \<times> 'c list" where
  "copy_slice A zero copy s h =
     (case s of
        None \<Rightarrow> (None, h)
      | Some s \<Rightarrow>
          let (a, h) = alloc (ar_mk A (replicate (sl_len s) zero)) h;
              h = copy_loop A copy s a (sl_len s) h
          in (Some \<lparr>sl_array = a, sl_off = 0, sl_len = sl_len s\<rparr>, h))"

text \<open>\<open>if in.F != nil { *out = make([]T, len(*in)); copy(*out, *in) }\<close>\<close>

definition copy_flat_slice :: "('a, 'c) arr \<Rightarrow> slice option \<Rightarrow> 'c list \<Rightarrow> slice option \<times> 'c list" where
  "copy_flat_slice A s h =
     (case s of
        None \<Rightarrow> (None, h)
      | Some s \<Rightarrow>
          let (a, h) = alloc (ar_mk A (elems A h s)) h
          in (Some \<lparr>sl_array = a, sl_off = 0, sl_len = sl_len s\<rparr>, h))"

text \<open>\<open>if in.F != nil { *out = new(T); (*in).DeepCopyInto(*out) }\<close>, and the body of every \<open>DeepCopy\<close>.\<close>

definition copy_pointer ::
    "('a, 'c) arr \<Rightarrow> 'a \<Rightarrow> ('a \<Rightarrow> 'c list \<Rightarrow> 'a \<times> 'c list) \<Rightarrow> pointer \<Rightarrow> 'c list \<Rightarrow> pointer \<times> 'c list" where
  "copy_pointer A zero copy p h =
     (case p of
        None \<Rightarrow> (None, h)
      | Some p \<Rightarrow>
          let (a, h) = alloc (ar_mk A [zero]) h;
              (x, h) = copy (array_at A h p ! 0) h
          in (Some a, store A a 0 x h))"

section \<open>Shapes\<close>

record ('a, 'c, 'v) shape =
  sh_wf :: "'c list \<Rightarrow> 'a \<Rightarrow> bool"
  sh_view :: "'c list \<Rightarrow> 'a \<Rightarrow> 'v"
  sh_refs :: "'c list \<Rightarrow> 'a \<Rightarrow> nat set"

definition flat :: "('a, 'c, 'a) shape" where
  "flat = \<lparr>sh_wf = (\<lambda>h x. True), sh_view = (\<lambda>h x. x), sh_refs = (\<lambda>h x. {})\<rparr>"

definition pair_shape :: "('a, 'c, 'v) shape \<Rightarrow> ('b, 'c, 'w) shape \<Rightarrow> ('a \<times> 'b, 'c, 'v \<times> 'w) shape" where
  "pair_shape S T =
     \<lparr>sh_wf = (\<lambda>h (x, y). sh_wf S h x \<and> sh_wf T h y),
      sh_view = (\<lambda>h (x, y). (sh_view S h x, sh_view T h y)),
      sh_refs = (\<lambda>h (x, y). sh_refs S h x \<union> sh_refs T h y)\<rparr>"

definition via :: "('a \<Rightarrow> 'b) \<Rightarrow> ('b, 'c, 'v) shape \<Rightarrow> ('a, 'c, 'v) shape" where
  "via f S = \<lparr>sh_wf = (\<lambda>h x. sh_wf S h (f x)), sh_view = (\<lambda>h x. sh_view S h (f x)),
     sh_refs = (\<lambda>h x. sh_refs S h (f x))\<rparr>"

definition slice_shape :: "('a, 'c) arr \<Rightarrow> ('a, 'c, 'v) shape \<Rightarrow> (slice option, 'c, 'v list option) shape" where
  "slice_shape A S =
     \<lparr>sh_wf = (\<lambda>h s. case s of
        None \<Rightarrow> True
      | Some s \<Rightarrow> sl_array s < length h \<and> sl_off s + sl_len s \<le> length (array_at A h (sl_array s)) \<and>
          list_all (sh_wf S h) (elems A h s)),
      sh_view = (\<lambda>h s. map_option (\<lambda>s. map (sh_view S h) (elems A h s)) s),
      sh_refs = (\<lambda>h s. case s of
        None \<Rightarrow> {} | Some s \<Rightarrow> insert (sl_array s) (\<Union>x \<in> set (elems A h s). sh_refs S h x))\<rparr>"

definition one :: "pointer \<Rightarrow> slice option" where
  "one p = map_option (\<lambda>a. \<lparr>sl_array = a, sl_off = 0, sl_len = 1\<rparr>) p"

definition pointer_shape :: "('a, 'c) arr \<Rightarrow> ('a, 'c, 'v) shape \<Rightarrow> (pointer, 'c, 'v list option) shape" where
  "pointer_shape A S = via one (slice_shape A S)"

named_theorems shapes "the components of the shapes"

lemma shape_sel [shapes]:
  "sh_wf flat h x" "sh_view flat h x = x" "sh_refs flat h x = {}"
  "sh_wf (pair_shape S T) h (y, z) \<longleftrightarrow> sh_wf S h y \<and> sh_wf T h z"
  "sh_view (pair_shape S T) h (y, z) = (sh_view S h y, sh_view T h z)"
  "sh_refs (pair_shape S T) h (y, z) = sh_refs S h y \<union> sh_refs T h z"
  "sh_wf (via f U) h w = sh_wf U h (f w)" "sh_view (via f U) h w = sh_view U h (f w)"
  "sh_refs (via f U) h w = sh_refs U h (f w)"
  by (simp_all add: flat_def pair_shape_def via_def)

lemma slice_shape_sel [shapes]:
  "sh_wf (slice_shape A S) h None" "sh_view (slice_shape A S) h None = None" "sh_refs (slice_shape A S) h None = {}"
  "sh_wf (slice_shape A S) h (Some s) \<longleftrightarrow>
     sl_array s < length h \<and> sl_off s + sl_len s \<le> length (array_at A h (sl_array s)) \<and>
     list_all (sh_wf S h) (elems A h s)"
  "sh_view (slice_shape A S) h (Some s) = Some (map (sh_view S h) (elems A h s))"
  "sh_refs (slice_shape A S) h (Some s) = insert (sl_array s) (\<Union>x \<in> set (elems A h s). sh_refs S h x)"
  by (simp_all add: slice_shape_def)

section \<open>The contract\<close>

text \<open>What a shape says depends on the cells it reaches only.\<close>

definition shape_ok :: "('a, 'c, 'v) shape \<Rightarrow> bool" where
  "shape_ok S \<longleftrightarrow> (\<forall>h x. sh_wf S h x \<longrightarrow>
     sh_refs S h x \<subseteq> {..<length h} \<and>
     (\<forall>h'. length h \<le> length h' \<and> (\<forall>a \<in> sh_refs S h x. h' ! a = h ! a) \<longrightarrow>
       sh_wf S h' x \<and> sh_view S h' x = sh_view S h x \<and> sh_refs S h' x = sh_refs S h x))"

definition copies_deeply :: "('a, 'c, 'v) shape \<Rightarrow> ('a \<Rightarrow> 'c list \<Rightarrow> 'a \<times> 'c list) \<Rightarrow> bool" where
  "copies_deeply S copy \<longleftrightarrow> (\<forall>h x. sh_wf S h x \<longrightarrow>
     (case copy x h of (y, h') \<Rightarrow>
        ext h h' \<and> sh_wf S h' y \<and> sh_view S h' y = sh_view S h x \<and>
        sh_refs S h' y \<subseteq> {length h..<length h'}))"

locale deep_copy =
  fixes S :: "('a, 'c, 'v) shape" and copy :: "'a \<Rightarrow> 'c list \<Rightarrow> 'a \<times> 'c list"
  assumes shape: "shape_ok S" and deep: "copies_deeply S copy"
begin

lemma bounded: "sh_wf S h x \<Longrightarrow> sh_refs S h x \<subseteq> {..<length h}"
  using shape unfolding shape_ok_def by blast

lemma frame:
  assumes "sh_wf S h x" "length h \<le> length h'" "\<And>a. a \<in> sh_refs S h x \<Longrightarrow> h' ! a = h ! a"
  shows "sh_wf S h' x" "sh_view S h' x = sh_view S h x" "sh_refs S h' x = sh_refs S h x"
proof -
  have "\<forall>h'. length h \<le> length h' \<and> (\<forall>a \<in> sh_refs S h x. h' ! a = h ! a) \<longrightarrow>
       sh_wf S h' x \<and> sh_view S h' x = sh_view S h x \<and> sh_refs S h' x = sh_refs S h x"
    using shape assms(1) unfolding shape_ok_def by blast
  with assms(2,3) show "sh_wf S h' x" "sh_view S h' x = sh_view S h x" "sh_refs S h' x = sh_refs S h x"
    by blast+
qed

lemma frame_ext:
  assumes "sh_wf S h x" "ext h h'"
  shows "sh_wf S h' x" "sh_view S h' x = sh_view S h x" "sh_refs S h' x = sh_refs S h x"
proof -
  have "h' ! a = h ! a" if "a \<in> sh_refs S h x" for a
  proof -
    have "a < length h" using bounded [OF assms(1)] that by blast
    with assms(2) show ?thesis by (simp add: ext_def)
  qed
  from frame [OF assms(1) ext_length [OF assms(2)] this]
  show "sh_wf S h' x" "sh_view S h' x = sh_view S h x" "sh_refs S h' x = sh_refs S h x" by blast+
qed

lemma copied:
  assumes "sh_wf S h x" "copy x h = (y, h')"
  shows "ext h h'" "sh_wf S h' y" "sh_view S h' y = sh_view S h x" "sh_refs S h' y \<subseteq> {length h..<length h'}"
proof -
  have "case copy x h of (y, h') \<Rightarrow> ext h h' \<and> sh_wf S h' y \<and> sh_view S h' y = sh_view S h x \<and>
        sh_refs S h' y \<subseteq> {length h..<length h'}"
    by (rule deep [unfolded copies_deeply_def, THEN spec, THEN spec, THEN mp, OF assms(1)])
  then show "ext h h'" "sh_wf S h' y" "sh_view S h' y = sh_view S h x" "sh_refs S h' y \<subseteq> {length h..<length h'}"
    unfolding assms(2) by simp_all
qed

text \<open>Original and copy can be written through without the other one noticing.\<close>

lemma isolated:
  assumes "sh_wf S h x" "copy x h = (y, h')" "length h'' = length h'"
  shows "(\<And>a. a \<notin> sh_refs S h' y \<Longrightarrow> h'' ! a = h' ! a) \<Longrightarrow> sh_view S h'' x = sh_view S h x"
    and "(\<And>a. a \<notin> sh_refs S h x \<Longrightarrow> h'' ! a = h' ! a) \<Longrightarrow> sh_view S h'' y = sh_view S h x"
proof -
  note c = copied [OF assms(1,2)]
  note f = frame_ext [OF assms(1) c(1)]
  have d: "a \<notin> sh_refs S h' y" if "a \<in> sh_refs S h x" for a
    using that c(4) bounded [OF assms(1)] by fastforce
  have l: "length h' \<le> length h''" using assms(3) by simp
  show "sh_view S h'' x = sh_view S h x" if w: "\<And>a. a \<notin> sh_refs S h' y \<Longrightarrow> h'' ! a = h' ! a"
    unfolding f(2) [symmetric] by (rule frame(2) [OF f(1) l]) (use w d in \<open>simp add: f(3)\<close>)
  show "sh_view S h'' y = sh_view S h x" if w: "\<And>a. a \<notin> sh_refs S h x \<Longrightarrow> h'' ! a = h' ! a"
    unfolding c(3) [symmetric] by (rule frame(2) [OF c(2) l]) (use w d in blast)
qed

lemma copies_isolated:
  assumes "sh_wf S h x" "copy x h = (y, h')"
  shows "ext h h'" "sh_view S h' y = sh_view S h x" "sh_refs S h' y \<inter> sh_refs S h x = {}"
    "{h''. length h'' = length h' \<and> (\<forall>a. a \<notin> sh_refs S h' y \<longrightarrow> h'' ! a = h' ! a)}
      \<subseteq> {h''. sh_view S h'' x = sh_view S h x}"
    "{h''. length h'' = length h' \<and> (\<forall>a. a \<notin> sh_refs S h x \<longrightarrow> h'' ! a = h' ! a)}
      \<subseteq> {h''. sh_view S h'' y = sh_view S h x}"
proof -
  note c = copied [OF assms]
  show "ext h h'" "sh_view S h' y = sh_view S h x" by (fact c)+
  show "sh_refs S h' y \<inter> sh_refs S h x = {}"
    using c(4) bounded [OF assms(1)] by fastforce
  show "{h''. length h'' = length h' \<and> (\<forall>a. a \<notin> sh_refs S h' y \<longrightarrow> h'' ! a = h' ! a)}
      \<subseteq> {h''. sh_view S h'' x = sh_view S h x}"
    using isolated(1) [OF assms] by blast
  show "{h''. length h'' = length h' \<and> (\<forall>a. a \<notin> sh_refs S h x \<longrightarrow> h'' ! a = h' ! a)}
      \<subseteq> {h''. sh_view S h'' y = sh_view S h x}"
    using isolated(2) [OF assms] by blast
qed

end

section \<open>Flat values, pairs and projections\<close>

lemma shape_okI:
  assumes "\<And>h x a. sh_wf S h x \<Longrightarrow> a \<in> sh_refs S h x \<Longrightarrow> a < length h"
    and "\<And>h x h'. sh_wf S h x \<Longrightarrow> length h \<le> length h' \<Longrightarrow> (\<And>a. a \<in> sh_refs S h x \<Longrightarrow> h' ! a = h ! a) \<Longrightarrow>
      sh_wf S h' x \<and> sh_view S h' x = sh_view S h x \<and> sh_refs S h' x = sh_refs S h x"
  shows "shape_ok S"
  unfolding shape_ok_def using assms by blast

lemma copies_deeplyI:
  assumes "\<And>h x y h'. sh_wf S h x \<Longrightarrow> copy x h = (y, h') \<Longrightarrow>
      ext h h' \<and> sh_wf S h' y \<and> sh_view S h' y = sh_view S h x \<and> sh_refs S h' y \<subseteq> {length h..<length h'}"
  shows "copies_deeply S copy"
  unfolding copies_deeply_def using assms by (auto split: prod.split)

lemma deep_copy_flat: "deep_copy flat (\<lambda>x h. (x, h))"
  by unfold_locales (auto intro!: shape_okI copies_deeplyI simp: shapes)

definition copy_pair ::
    "('a \<Rightarrow> 'c list \<Rightarrow> 'a \<times> 'c list) \<Rightarrow> ('b \<Rightarrow> 'c list \<Rightarrow> 'b \<times> 'c list) \<Rightarrow> 'a \<times> 'b \<Rightarrow> 'c list \<Rightarrow> ('a \<times> 'b) \<times> 'c list" where
  "copy_pair c d x h =
     (let (y, h) = c (fst x) h; (z, h) = d (snd x) h in ((y, z), h))"

lemma deep_copy_pair:
  assumes "deep_copy S c" "deep_copy T d"
  shows "deep_copy (pair_shape S T) (copy_pair c d)"
proof unfold_locales
  show "shape_ok (pair_shape S T)"
  proof (rule shape_okI)
    fix h x a
    assume "sh_wf (pair_shape S T) h x" "a \<in> sh_refs (pair_shape S T) h x"
    then show "a < length h"
      using deep_copy.bounded [OF assms(1), of h "fst x"] deep_copy.bounded [OF assms(2), of h "snd x"]
      by (cases x) (auto simp: shapes)
  next
    fix h x h'
    assume wf: "sh_wf (pair_shape S T) h x" and l: "length h \<le> length h'"
      and same: "\<And>a. a \<in> sh_refs (pair_shape S T) h x \<Longrightarrow> h' ! a = h ! a"
    obtain y z where x: "x = (y, z)" by (cases x)
    have "sh_wf S h y" "sh_wf T h z" using wf by (simp_all add: x shapes)
    with deep_copy.frame [OF assms(1) _ l, of y] deep_copy.frame [OF assms(2) _ l, of z] same
    show "sh_wf (pair_shape S T) h' x \<and> sh_view (pair_shape S T) h' x = sh_view (pair_shape S T) h x \<and>
        sh_refs (pair_shape S T) h' x = sh_refs (pair_shape S T) h x"
      by (auto simp: x shapes)
  qed
  show "copies_deeply (pair_shape S T) (copy_pair c d)"
  proof (rule copies_deeplyI)
    fix h x y h'
    assume wf: "sh_wf (pair_shape S T) h x" and c: "copy_pair c d x h = (y, h')"
    obtain x1 x2 where x: "x = (x1, x2)" by (cases x)
    obtain y1 h1 where y1: "c x1 h = (y1, h1)" by (cases "c x1 h")
    obtain y2 where y2: "d x2 h1 = (y2, h')" "y = (y1, y2)"
      using c by (auto simp: copy_pair_def x y1 split: prod.splits)
    have w: "sh_wf S h x1" "sh_wf T h x2" using wf by (simp_all add: x shapes)
    note c1 = deep_copy.copied [OF assms(1) w(1) y1]
    note f2 = deep_copy.frame_ext [OF assms(2) w(2) c1(1)]
    note c2 = deep_copy.copied [OF assms(2) f2(1) y2(1)]
    note f1 = deep_copy.frame_ext [OF assms(1) c1(2) c2(1)]
    have "sh_refs S h' y1 \<union> sh_refs T h' y2 \<subseteq> {length h..<length h'}"
      using c1(4) c2(4) f1(3) ext_length [OF c1(1)] ext_length [OF c2(1)] by fastforce
    then show "ext h h' \<and> sh_wf (pair_shape S T) h' y \<and>
        sh_view (pair_shape S T) h' y = sh_view (pair_shape S T) h x \<and>
        sh_refs (pair_shape S T) h' y \<subseteq> {length h..<length h'}"
      using ext_trans [OF c1(1) c2(1)] c1(3) c2(2,3) f1(1,2) f2(2) by (simp add: x y2(2) shapes)
  qed
qed

lemma deep_copy_via:
  assumes "deep_copy S c"
    and "\<And>x h. (case copy x h of (y, h') \<Rightarrow> (f y, h')) = c (f x) h"
  shows "deep_copy (via f S) copy"
proof unfold_locales
  show "shape_ok (via f S)"
  proof (rule shape_okI)
    fix h x a
    assume "sh_wf (via f S) h x" "a \<in> sh_refs (via f S) h x"
    with deep_copy.bounded [OF assms(1), of h "f x"] show "a < length h" by (auto simp: shapes)
  next
    fix h x h'
    assume "sh_wf (via f S) h x" "length h \<le> length h'" "\<And>a. a \<in> sh_refs (via f S) h x \<Longrightarrow> h' ! a = h ! a"
    with deep_copy.frame [OF assms(1), of h "f x" h']
    show "sh_wf (via f S) h' x \<and> sh_view (via f S) h' x = sh_view (via f S) h x \<and>
        sh_refs (via f S) h' x = sh_refs (via f S) h x"
      by (simp add: shapes)
  qed
  show "copies_deeply (via f S) copy"
  proof (rule copies_deeplyI)
    fix h x y h'
    assume wf: "sh_wf (via f S) h x" and c: "copy x h = (y, h')"
    from assms(2) [of x h] c have "c (f x) h = (f y, h')" by simp
    with deep_copy.copied [OF assms(1), of h "f x" "f y" h'] wf
    show "ext h h' \<and> sh_wf (via f S) h' y \<and> sh_view (via f S) h' y = sh_view (via f S) h x \<and>
        sh_refs (via f S) h' y \<subseteq> {length h..<length h'}"
      by (simp add: shapes)
  qed
qed

section \<open>Slices and pointers\<close>

lemma array_at_same: "sl_array s < length h \<Longrightarrow> length h \<le> length h' \<Longrightarrow> h' ! sl_array s = h ! sl_array s \<Longrightarrow>
    array_at A h' (sl_array s) = array_at A h (sl_array s)"
  by (simp add: array_at_def)

lemma elems_same: "sl_array s < length h \<Longrightarrow> length h \<le> length h' \<Longrightarrow> h' ! sl_array s = h ! sl_array s \<Longrightarrow>
    elems A h' s = elems A h s"
  unfolding elems_def by (simp only: array_at_same [of s h h'])

lemma elems_ext: "sl_array s < length h \<Longrightarrow> ext h h' \<Longrightarrow> elems A h' s = elems A h s"
  by (rule elems_same) (simp_all add: ext_def)

locale array_copy = deep_copy S copy
  for S :: "('a, 'c, 'v) shape" and copy :: "'a \<Rightarrow> 'c list \<Rightarrow> 'a \<times> 'c list" +
  fixes A :: "('a, 'c) arr" and zero :: 'a
  assumes arr: "arr_ok A"
begin

lemma array_at_mk: "a < length h \<Longrightarrow> h ! a = ar_mk A xs \<Longrightarrow> array_at A h a = xs"
  using arr by (simp add: array_at_def arr_ok_def)

lemma store_at: "a < length h \<Longrightarrow> h ! a = ar_mk A xs \<Longrightarrow> store A a i x h = h[a := ar_mk A (xs[i := x])]"
  by (simp add: store_def array_at_mk)

lemma frame_list:
  assumes "list_all (sh_wf S h) xs" "length h \<le> length h'"
    and "\<And>x a. x \<in> set xs \<Longrightarrow> a \<in> sh_refs S h x \<Longrightarrow> h' ! a = h ! a"
  shows "list_all (sh_wf S h') xs" "map (sh_view S h') xs = map (sh_view S h) xs"
    "(\<Union>x \<in> set xs. sh_refs S h' x) = (\<Union>x \<in> set xs. sh_refs S h x)"
proof -
  have e: "sh_wf S h' x \<and> sh_view S h' x = sh_view S h x \<and> sh_refs S h' x = sh_refs S h x" if x: "x \<in> set xs" for x
  proof -
    have "sh_wf S h x" using assms(1) x by (simp add: list_all_iff)
    from frame [OF this assms(2) assms(3) [OF x]] show ?thesis by blast
  qed
  show "list_all (sh_wf S h') xs" unfolding list_all_iff using e by blast
  show "map (sh_view S h') xs = map (sh_view S h) xs" by (rule map_cong [OF refl]) (use e in blast)
  show "(\<Union>x \<in> set xs. sh_refs S h' x) = (\<Union>x \<in> set xs. sh_refs S h x)" by (rule SUP_cong [OF refl]) (use e in blast)
qed

lemma slice_shape_ok: "shape_ok (slice_shape A S)"
proof (rule shape_okI)
  fix h s a
  assume w: "sh_wf (slice_shape A S) h s" "a \<in> sh_refs (slice_shape A S) h s"
  show "a < length h"
  proof (cases s)
    case None
    then show ?thesis using w by (simp add: shapes)
  next
    case (Some s')
    with w have "a = sl_array s' \<or> (\<exists>x \<in> set (elems A h s'). a \<in> sh_refs S h x)" "sl_array s' < length h"
      "list_all (sh_wf S h) (elems A h s')"
      by (auto simp: shapes)
    then consider "a = sl_array s'" | x where "x \<in> set (elems A h s')" "a \<in> sh_refs S h x" "sh_wf S h x"
      by (auto simp: list_all_iff)
    then show ?thesis
      by cases (use \<open>sl_array s' < length h\<close> bounded in blast)+
  qed
next
  fix h s h'
  assume w: "sh_wf (slice_shape A S) h s" and l: "length h \<le> length h'"
    and same: "\<And>a. a \<in> sh_refs (slice_shape A S) h s \<Longrightarrow> h' ! a = h ! a"
  show "sh_wf (slice_shape A S) h' s \<and> sh_view (slice_shape A S) h' s = sh_view (slice_shape A S) h s \<and>
      sh_refs (slice_shape A S) h' s = sh_refs (slice_shape A S) h s"
  proof (cases s)
    case None
    then show ?thesis by (simp add: shapes)
  next
    case (Some s')
    with w have s': "sl_array s' < length h" "sl_off s' + sl_len s' \<le> length (array_at A h (sl_array s'))"
      "list_all (sh_wf S h) (elems A h s')"
      by (simp_all add: shapes)
    have e: "h' ! sl_array s' = h ! sl_array s'" "\<And>x a. x \<in> set (elems A h s') \<Longrightarrow> a \<in> sh_refs S h x \<Longrightarrow> h' ! a = h ! a"
      using same by (auto simp: Some shapes)
    have sm: "elems A h' s' = elems A h s'" "array_at A h' (sl_array s') = array_at A h (sl_array s')"
      by (rule elems_same [OF s'(1) l e(1)], rule array_at_same [OF s'(1) l e(1)])
    show ?thesis
      using frame_list [OF s'(3) l e(2)] s'(1,2) l by (simp add: Some shapes sm)
  qed
qed

text \<open>The loop: after \<open>k\<close> rounds the first \<open>k\<close> elements of the new array are deep copies.\<close>

lemma copy_loop_inv:
  assumes s: "sl_array s < length h" "list_all (sh_wf S h) (elems A h s)" "length (elems A h s) = sl_len s"
  defines "a \<equiv> length h" and "h1 \<equiv> h @ [ar_mk A (replicate (sl_len s) zero)]"
  assumes k: "k \<le> sl_len s"
  shows "\<exists>ys. length ys = k \<and> a < length (copy_loop A copy s a k h1) \<and> ext h (copy_loop A copy s a k h1) \<and>
    copy_loop A copy s a k h1 ! a = ar_mk A (ys @ replicate (sl_len s - k) zero) \<and>
    list_all (sh_wf S (copy_loop A copy s a k h1)) ys \<and>
    map (sh_view S (copy_loop A copy s a k h1)) ys = map (sh_view S h) (take k (elems A h s)) \<and>
    (\<Union>y \<in> set ys. sh_refs S (copy_loop A copy s a k h1) y) \<subseteq> {Suc a..<length (copy_loop A copy s a k h1)}"
  using k
proof (induction k)
  case 0
  show ?case by (simp add: h1_def a_def)
next
  case (Suc k)
  let ?n = "sl_len s" and ?hk = "copy_loop A copy s a k h1"
  from Suc obtain ys where ys: "length ys = k" "a < length ?hk" "ext h ?hk"
      "?hk ! a = ar_mk A (ys @ replicate (?n - k) zero)" "list_all (sh_wf S ?hk) ys"
      "map (sh_view S ?hk) ys = map (sh_view S h) (take k (elems A h s))"
      "(\<Union>y \<in> set ys. sh_refs S ?hk y) \<subseteq> {Suc a..<length ?hk}"
    by auto
  have kn: "k < length (elems A h s)" using Suc.prems s(3) by simp
  let ?x = "elems A h s ! k"
  have "sh_wf S h ?x" using s(2) kn by (simp add: list_all_length)
  note x = frame_ext [OF this ys(3)]
  obtain y h' where y: "copy ?x ?hk = (y, h')" by (cases "copy ?x ?hk")
  note c = copied [OF x(1) y]
  let ?zs = "(ys @ replicate (?n - k) zero)[k := y]" and ?h = "store A a k y h'"
  have zs: "?zs = (ys @ [y]) @ replicate (?n - Suc k) zero"
  proof -
    have "?n - k = Suc (?n - Suc k)" using Suc.prems by simp
    then show ?thesis using ys(1) by (simp add: list_update_append)
  qed
  have a: "a < length h'" "h' ! a = ?hk ! a" using ys(2) c(1) by (auto simp: ext_def)
  have loop: "copy_loop A copy s a (Suc k) h1 = ?h" "?h = h'[a := ar_mk A ?zs]"
    using a ys(4) by (simp_all add: elems_ext [OF s(1) ys(3)] y store_at)
  have same: "?h ! b = h' ! b" if "b \<noteq> a" for b
    using that by (simp add: loop(2))
  have l: "length h' \<le> length ?h" by (simp add: loop(2))
  have keep_y: "?h ! b = h' ! b" if "b \<in> sh_refs S h' y" for b
    using that c(4) ys(2) by (intro same) force
  note fy = frame [OF c(2) l keep_y]
  have "list_all (sh_wf S ?hk) ys" by (rule ys(5))
  moreover have "h' ! b = ?hk ! b" if "x \<in> set ys" "b \<in> sh_refs S ?hk x" for x b
    using that ys(7) c(1) by (force simp: ext_def)
  ultimately have f1: "list_all (sh_wf S h') ys" "map (sh_view S h') ys = map (sh_view S ?hk) ys"
      "(\<Union>y \<in> set ys. sh_refs S h' y) = (\<Union>y \<in> set ys. sh_refs S ?hk y)"
    using frame_list [of ?hk ys h'] ext_length [OF c(1)] by blast+
  have keep: "?h ! b = h' ! b" if "x \<in> set ys" "b \<in> sh_refs S h' x" for x b
    using that ys(7) f1(3) by (intro same) force
  have f2: "list_all (sh_wf S ?h) ys" "map (sh_view S ?h) ys = map (sh_view S ?hk) ys"
      "(\<Union>y \<in> set ys. sh_refs S ?h y) = (\<Union>y \<in> set ys. sh_refs S ?hk y)"
    using frame_list [of h' ys "?h"] f1 l keep by simp_all
  have e: "ext h ?h"
    unfolding loop(2) by (rule ext_update) (use ext_trans [OF ys(3) c(1)] in \<open>simp_all add: a_def\<close>)
  have len: "Suc a \<le> length ?hk" "length ?hk \<le> length ?h"
    using ys(2) ext_length [OF c(1)] l by linarith+
  have r1: "sh_refs S ?h y \<subseteq> {Suc a..<length ?h}"
  proof -
    have "{length ?hk..<length h'} \<subseteq> {Suc a..<length ?h}" using len(1) l by simp
    from order_trans [OF c(4) this] show ?thesis by (simp only: fy(3))
  qed
  have r2: "(\<Union>y \<in> set ys. sh_refs S ?h y) \<subseteq> {Suc a..<length ?h}"
  proof -
    have "{Suc a..<length ?hk} \<subseteq> {Suc a..<length ?h}" using len(2) by simp
    from order_trans [OF ys(7) this] show ?thesis by (simp only: f2(3))
  qed
  show ?case
    unfolding loop(1)
  proof (intro exI [of _ "ys @ [y]"] conjI)
    show "?h ! a = ar_mk A ((ys @ [y]) @ replicate (?n - Suc k) zero)"
      using a(1) zs by (simp add: loop(2))
    show "map (sh_view S ?h) (ys @ [y]) = map (sh_view S h) (take (Suc k) (elems A h s))"
      using f2(2) ys(6) fy(2) c(3) x(2) kn by (simp add: take_Suc_conv_app_nth)
  qed (use a ys(1) e f2(1) fy(1) r1 r2 in \<open>simp_all add: loop(2) del: list_update_append\<close>)
qed

lemma slice_copies_deeply: "copies_deeply (slice_shape A S) (copy_slice A zero copy)"
proof (rule copies_deeplyI)
  fix h s t h'
  assume w: "sh_wf (slice_shape A S) h s" and c: "copy_slice A zero copy s h = (t, h')"
  show "ext h h' \<and> sh_wf (slice_shape A S) h' t \<and>
      sh_view (slice_shape A S) h' t = sh_view (slice_shape A S) h s \<and>
      sh_refs (slice_shape A S) h' t \<subseteq> {length h..<length h'}"
  proof (cases s)
    case None
    then show ?thesis using c by (simp add: copy_slice_def shapes)
  next
    case (Some s')
    let ?n = "sl_len s'" and ?a = "length h"
    from w have s': "sl_array s' < length h" "?n + sl_off s' \<le> length (array_at A h (sl_array s'))"
      "list_all (sh_wf S h) (elems A h s')"
      by (simp_all add: Some shapes add.commute)
    have n: "length (elems A h s') = ?n" using s'(2) by (simp add: elems_def)
    have h': "h' = copy_loop A copy s' ?a ?n (h @ [ar_mk A (replicate ?n zero)])"
      and t: "t = Some \<lparr>sl_array = ?a, sl_off = 0, sl_len = ?n\<rparr>"
      using c by (simp_all add: copy_slice_def Some alloc_def)
    obtain ys where ys: "length ys = ?n" "?a < length h'" "ext h h'" "h' ! ?a = ar_mk A ys"
        "list_all (sh_wf S h') ys" "map (sh_view S h') ys = map (sh_view S h) (elems A h s')"
        "(\<Union>y \<in> set ys. sh_refs S h' y) \<subseteq> {Suc ?a..<length h'}"
      using copy_loop_inv [OF s'(1,3) n order_refl] n by (auto simp: h')
    have arr: "array_at A h' ?a = ys" using array_at_mk [OF ys(2,4)] .
    then have "elems A h' \<lparr>sl_array = ?a, sl_off = 0, sl_len = ?n\<rparr> = ys" using ys(1) by (simp add: elems_def)
    moreover have "{Suc ?a..<length h'} \<subseteq> {?a..<length h'}" by auto
    ultimately show ?thesis
      using ys arr by (auto simp: t Some shapes)
  qed
qed

end

sublocale array_copy \<subseteq> slice: deep_copy "slice_shape A S" "copy_slice A zero copy"
  by unfold_locales (rule slice_shape_ok, rule slice_copies_deeply)

lemma copy_pointer_slice:
  "(case copy_pointer A zero copy p h of (q, h') \<Rightarrow> (one q, h')) = copy_slice A zero copy (one p) h"
  by (simp add: copy_pointer_def copy_slice_def one_def alloc_def elems_def split: option.split prod.split)

sublocale array_copy \<subseteq> pointer: deep_copy "pointer_shape A S" "copy_pointer A zero copy"
  unfolding pointer_shape_def
  by (rule deep_copy_via [OF slice.deep_copy_axioms]) (rule copy_pointer_slice)

text \<open>The built-in \<open>copy\<close> is enough for flat elements.\<close>

lemma array_copy_flat: "arr_ok A \<Longrightarrow> array_copy flat (\<lambda>x h. (x, h)) A"
  by (intro array_copy.intro deep_copy_flat array_copy_axioms.intro)

lemma deep_copy_flat_slice:
  assumes "arr_ok A"
  shows "deep_copy (slice_shape A flat) (copy_flat_slice A)"
proof unfold_locales
  show "shape_ok (slice_shape A flat)"
    by (rule array_copy.slice_shape_ok [OF array_copy_flat [OF assms]])
  show "copies_deeply (slice_shape A flat) (copy_flat_slice A)"
  proof (rule copies_deeplyI)
    fix h s t h'
    assume "sh_wf (slice_shape A flat) h s" "copy_flat_slice A s h = (t, h')"
    then show "ext h h' \<and> sh_wf (slice_shape A flat) h' t \<and>
        sh_view (slice_shape A flat) h' t = sh_view (slice_shape A flat) h s \<and>
        sh_refs (slice_shape A flat) h' t \<subseteq> {length h..<length h'}"
      using assms
      by (cases s) (auto simp: copy_flat_slice_def alloc_def shapes elems_def array_at_def arr_ok_def list_all_iff)
  qed
qed

end
