(* ===== verification/Deep_Copy.thy ===== *)
theory Deep_Copy
  imports Deep_Copy_Model
begin

text \<open>
  \<open>pkg/apis/taskgroup/v1alpha1/zz_generated.deepcopy.go\<close>: the \<open>DeepCopyInto\<close>, \<open>DeepCopy\<close> and
  \<open>DeepCopyObject\<close> methods of the TaskGroup types over the heap of \<open>Deep_Copy_Model\<close>. A struct in the heap
  (suffix \<open>_s\<close>) holds its strings and its references; \<open>DeepCopyInto\<close> takes the struct \<open>*in\<close> and gives
  what it leaves in \<open>*out\<close>.

  The structs of tektoncd/pipeline and of Kubernetes that contain references, and their
  \<open>DeepCopyInto\<close> methods, are the parameter \<open>Library\<close>; \<open>library_ok\<close> is their contract.
\<close>

section \<open>The structs and the heap\<close>

record 'l Uses_s =
  us_TaskRef :: 'l
  us_ParamBindings :: "slice option"
  us_WorkspaceBindings :: "slice option"

record 'l Step_s =
  ss_Step :: 'l
  ss_Uses :: pointer

record TaskGroupSpec_s =
  ts_Params :: "slice option"
  ts_Description :: string
  ts_Steps :: "slice option"
  ts_Volumes :: "slice option"
  ts_StepTemplate :: pointer
  ts_Sidecars :: "slice option"
  ts_Workspaces :: "slice option"
  ts_Results :: "slice option"

record 'l TaskGroup_s =
  tgs_TypeMeta :: TypeMeta
  tgs_ObjectMeta :: 'l
  tgs_Spec :: TaskGroupSpec_s

record 'l TaskGroupList_s =
  tgl_TypeMeta :: TypeMeta
  tgl_ListMeta :: 'l
  tgl_Items :: "slice option"

record TaskGroupRunStatus_s =
  rss_TaskGroupSpec :: pointer
  rss_TaskRun :: pointer

datatype 'l cell =
    ParamBinding_cell "ParamBinding list"
  | WorkspaceBinding_cell "WorkspaceBinding list"
  | WorkspaceDeclaration_cell "WorkspaceDeclaration list"
  | TaskResult_cell "TaskResult list"
  | Uses_cell "'l Uses_s list"
  | Step_cell "'l Step_s list"
  | TaskGroupSpec_cell "TaskGroupSpec_s list"
  | TaskGroup_cell "'l TaskGroup_s list"
  | TaskGroupList_cell "'l TaskGroupList_s list"
  | TaskGroupRunStatus_cell "TaskGroupRunStatus_s list"
  | Library_cell "'l list"

definition ParamBinding_arr :: "(ParamBinding, 'l cell) arr" where
  "ParamBinding_arr = \<lparr>ar_mk = ParamBinding_cell, ar_un = (\<lambda>c. case c of ParamBinding_cell xs \<Rightarrow> Some xs | _ \<Rightarrow> None)\<rparr>"
definition WorkspaceBinding_arr :: "(WorkspaceBinding, 'l cell) arr" where
  "WorkspaceBinding_arr = \<lparr>ar_mk = WorkspaceBinding_cell, ar_un = (\<lambda>c. case c of WorkspaceBinding_cell xs \<Rightarrow> Some xs | _ \<Rightarrow> None)\<rparr>"
definition WorkspaceDeclaration_arr :: "(WorkspaceDeclaration, 'l cell) arr" where
  "WorkspaceDeclaration_arr = \<lparr>ar_mk = WorkspaceDeclaration_cell, ar_un = (\<lambda>c. case c of WorkspaceDeclaration_cell xs \<Rightarrow> Some xs | _ \<Rightarrow> None)\<rparr>"
definition TaskResult_arr :: "(TaskResult, 'l cell) arr" where
  "TaskResult_arr = \<lparr>ar_mk = TaskResult_cell, ar_un = (\<lambda>c. case c of TaskResult_cell xs \<Rightarrow> Some xs | _ \<Rightarrow> None)\<rparr>"
definition Uses_arr :: "('l Uses_s, 'l cell) arr" where
  "Uses_arr = \<lparr>ar_mk = Uses_cell, ar_un = (\<lambda>c. case c of Uses_cell xs \<Rightarrow> Some xs | _ \<Rightarrow> None)\<rparr>"
definition Step_arr :: "('l Step_s, 'l cell) arr" where
  "Step_arr = \<lparr>ar_mk = Step_cell, ar_un = (\<lambda>c. case c of Step_cell xs \<Rightarrow> Some xs | _ \<Rightarrow> None)\<rparr>"
definition TaskGroupSpec_arr :: "(TaskGroupSpec_s, 'l cell) arr" where
  "TaskGroupSpec_arr = \<lparr>ar_mk = TaskGroupSpec_cell, ar_un = (\<lambda>c. case c of TaskGroupSpec_cell xs \<Rightarrow> Some xs | _ \<Rightarrow> None)\<rparr>"
definition TaskGroup_arr :: "('l TaskGroup_s, 'l cell) arr" where
  "TaskGroup_arr = \<lparr>ar_mk = TaskGroup_cell, ar_un = (\<lambda>c. case c of TaskGroup_cell xs \<Rightarrow> Some xs | _ \<Rightarrow> None)\<rparr>"
definition TaskGroupList_arr :: "('l TaskGroupList_s, 'l cell) arr" where
  "TaskGroupList_arr = \<lparr>ar_mk = TaskGroupList_cell, ar_un = (\<lambda>c. case c of TaskGroupList_cell xs \<Rightarrow> Some xs | _ \<Rightarrow> None)\<rparr>"
definition TaskGroupRunStatus_arr :: "(TaskGroupRunStatus_s, 'l cell) arr" where
  "TaskGroupRunStatus_arr = \<lparr>ar_mk = TaskGroupRunStatus_cell, ar_un = (\<lambda>c. case c of TaskGroupRunStatus_cell xs \<Rightarrow> Some xs | _ \<Rightarrow> None)\<rparr>"
definition Library_arr :: "('l, 'l cell) arr" where
  "Library_arr = \<lparr>ar_mk = Library_cell, ar_un = (\<lambda>c. case c of Library_cell xs \<Rightarrow> Some xs | _ \<Rightarrow> None)\<rparr>"

lemmas arr_defs = ParamBinding_arr_def WorkspaceBinding_arr_def WorkspaceDeclaration_arr_def TaskResult_arr_def
  Uses_arr_def Step_arr_def TaskGroupSpec_arr_def TaskGroup_arr_def TaskGroupList_arr_def
  TaskGroupRunStatus_arr_def Library_arr_def

lemma arrs_ok [simp]:
  "arr_ok ParamBinding_arr" "arr_ok WorkspaceBinding_arr" "arr_ok WorkspaceDeclaration_arr" "arr_ok TaskResult_arr"
  "arr_ok Uses_arr" "arr_ok Step_arr" "arr_ok TaskGroupSpec_arr" "arr_ok TaskGroup_arr" "arr_ok TaskGroupList_arr"
  "arr_ok TaskGroupRunStatus_arr" "arr_ok Library_arr"
  by (simp_all add: arr_ok_def arr_defs)

section \<open>The library\<close>

type_synonym ('a, 'l) copier = "'a \<Rightarrow> 'l cell list \<Rightarrow> 'a \<times> 'l cell list"

record ('l, 'v) Library =
  lb_zero :: 'l
  lb_shape :: "('l, 'l cell, 'v) shape"
  lb_TaskRef :: "('l, 'l) copier"
  lb_ParamSpec :: "('l, 'l) copier"
  lb_Step :: "('l, 'l) copier"
  lb_Volume :: "('l, 'l) copier"
  lb_Container :: "('l, 'l) copier"
  lb_Sidecar :: "('l, 'l) copier"
  lb_TaskRunStatus :: "('l, 'l) copier"
  lb_ObjectMeta :: "('l, 'l) copier"
  lb_ListMeta :: "('l, 'l) copier"

text \<open>The documented behaviour of the \<open>DeepCopyInto\<close> methods of the libraries.\<close>

definition library_ok :: "('l, 'v) Library \<Rightarrow> bool" where
  "library_ok L \<longleftrightarrow> shape_ok (lb_shape L) \<and>
     copies_deeply (lb_shape L) (lb_TaskRef L) \<and>
     copies_deeply (lb_shape L) (lb_ParamSpec L) \<and> copies_deeply (lb_shape L) (lb_Step L) \<and>
     copies_deeply (lb_shape L) (lb_Volume L) \<and> copies_deeply (lb_shape L) (lb_Container L) \<and>
     copies_deeply (lb_shape L) (lb_Sidecar L) \<and> copies_deeply (lb_shape L) (lb_TaskRunStatus L) \<and>
     copies_deeply (lb_shape L) (lb_ObjectMeta L) \<and> copies_deeply (lb_shape L) (lb_ListMeta L)"

section \<open>The copying methods\<close>

definition ParamBinding_DeepCopyInto :: "(ParamBinding, 'l) copier" where
  "ParamBinding_DeepCopyInto inp h = (inp, h)"

definition ParamBinding_DeepCopy :: "(pointer, 'l) copier" where
  "ParamBinding_DeepCopy inp h =
     copy_pointer ParamBinding_arr \<lparr>pb_Name = [], pb_Param = []\<rparr> ParamBinding_DeepCopyInto inp h"

definition WorkspaceBinding_DeepCopyInto :: "(WorkspaceBinding, 'l) copier" where
  "WorkspaceBinding_DeepCopyInto inp h = (inp, h)"

definition WorkspaceBinding_DeepCopy :: "(pointer, 'l) copier" where
  "WorkspaceBinding_DeepCopy inp h =
     copy_pointer WorkspaceBinding_arr \<lparr>wb_Name = [], wb_Workspace = []\<rparr> WorkspaceBinding_DeepCopyInto inp h"

definition zero_Uses :: "('l, 'v) Library \<Rightarrow> 'l Uses_s" where
  "zero_Uses L = \<lparr>us_TaskRef = lb_zero L,
     us_ParamBindings = None, us_WorkspaceBindings = None\<rparr>"

definition Uses_DeepCopyInto :: "('l, 'v) Library \<Rightarrow> ('l Uses_s, 'l) copier" where
  "Uses_DeepCopyInto L inp h =
     (let out = inp;
          (ref, h) = lb_TaskRef L (us_TaskRef inp) h;
          out = out\<lparr>us_TaskRef := ref\<rparr>;
          (pbs, h) = copy_flat_slice ParamBinding_arr (us_ParamBindings inp) h;
          out = out\<lparr>us_ParamBindings := pbs\<rparr>;
          (wbs, h) = copy_flat_slice WorkspaceBinding_arr (us_WorkspaceBindings inp) h;
          out = out\<lparr>us_WorkspaceBindings := wbs\<rparr>
      in (out, h))"

definition Uses_DeepCopy :: "('l, 'v) Library \<Rightarrow> (pointer, 'l) copier" where
  "Uses_DeepCopy L inp h = copy_pointer Uses_arr (zero_Uses L) (Uses_DeepCopyInto L) inp h"

definition Step_DeepCopyInto :: "('l, 'v) Library \<Rightarrow> ('l Step_s, 'l) copier" where
  "Step_DeepCopyInto L inp h =
     (let out = inp;
          (step, h) = lb_Step L (ss_Step inp) h;
          out = out\<lparr>ss_Step := step\<rparr>;
          (uses, h) = copy_pointer Uses_arr (zero_Uses L) (Uses_DeepCopyInto L) (ss_Uses inp) h;
          out = out\<lparr>ss_Uses := uses\<rparr>
      in (out, h))"

definition zero_Step :: "('l, 'v) Library \<Rightarrow> 'l Step_s" where
  "zero_Step L = \<lparr>ss_Step = lb_zero L, ss_Uses = None\<rparr>"

definition Step_DeepCopy :: "('l, 'v) Library \<Rightarrow> (pointer, 'l) copier" where
  "Step_DeepCopy L inp h = copy_pointer Step_arr (zero_Step L) (Step_DeepCopyInto L) inp h"

definition TaskGroupSpec_DeepCopyInto :: "('l, 'v) Library \<Rightarrow> (TaskGroupSpec_s, 'l) copier" where
  "TaskGroupSpec_DeepCopyInto L inp h =
     (let out = inp;
          (x, h) = copy_slice Library_arr (lb_zero L) (lb_ParamSpec L) (ts_Params inp) h;
          out = out\<lparr>ts_Params := x\<rparr>;
          (x, h) = copy_slice Step_arr (zero_Step L) (Step_DeepCopyInto L) (ts_Steps inp) h;
          out = out\<lparr>ts_Steps := x\<rparr>;
          (x, h) = copy_slice Library_arr (lb_zero L) (lb_Volume L) (ts_Volumes inp) h;
          out = out\<lparr>ts_Volumes := x\<rparr>;
          (p, h) = copy_pointer Library_arr (lb_zero L) (lb_Container L) (ts_StepTemplate inp) h;
          out = out\<lparr>ts_StepTemplate := p\<rparr>;
          (x, h) = copy_slice Library_arr (lb_zero L) (lb_Sidecar L) (ts_Sidecars inp) h;
          out = out\<lparr>ts_Sidecars := x\<rparr>;
          (x, h) = copy_flat_slice WorkspaceDeclaration_arr (ts_Workspaces inp) h;
          out = out\<lparr>ts_Workspaces := x\<rparr>;
          (x, h) = copy_flat_slice TaskResult_arr (ts_Results inp) h;
          out = out\<lparr>ts_Results := x\<rparr>
      in (out, h))"

definition zero_TaskGroupSpec :: TaskGroupSpec_s where
  "zero_TaskGroupSpec = \<lparr>ts_Params = None, ts_Description = [], ts_Steps = None, ts_Volumes = None,
     ts_StepTemplate = None, ts_Sidecars = None, ts_Workspaces = None, ts_Results = None\<rparr>"

definition TaskGroupSpec_DeepCopy :: "('l, 'v) Library \<Rightarrow> (pointer, 'l) copier" where
  "TaskGroupSpec_DeepCopy L inp h =
     copy_pointer TaskGroupSpec_arr zero_TaskGroupSpec (TaskGroupSpec_DeepCopyInto L) inp h"

definition TaskGroup_DeepCopyInto :: "('l, 'v) Library \<Rightarrow> ('l TaskGroup_s, 'l) copier" where
  "TaskGroup_DeepCopyInto L inp h =
     (let out = inp;
          out = out\<lparr>tgs_TypeMeta := tgs_TypeMeta inp\<rparr>;
          (meta, h) = lb_ObjectMeta L (tgs_ObjectMeta inp) h;
          out = out\<lparr>tgs_ObjectMeta := meta\<rparr>;
          (spec, h) = TaskGroupSpec_DeepCopyInto L (tgs_Spec inp) h;
          out = out\<lparr>tgs_Spec := spec\<rparr>
      in (out, h))"

definition zero_TaskGroup :: "('l, 'v) Library \<Rightarrow> 'l TaskGroup_s" where
  "zero_TaskGroup L = \<lparr>tgs_TypeMeta = zero_TypeMeta, tgs_ObjectMeta = lb_zero L, tgs_Spec = zero_TaskGroupSpec\<rparr>"

definition TaskGroup_DeepCopy :: "('l, 'v) Library \<Rightarrow> (pointer, 'l) copier" where
  "TaskGroup_DeepCopy L inp h =
     copy_pointer TaskGroup_arr (zero_TaskGroup L) (TaskGroup_DeepCopyInto L) inp h"

text \<open>A \<open>runtime.Object\<close>: a nil interface is \<open>None\<close>, a typed pointer, nil or not, is \<open>Some\<close>.\<close>

datatype Object = TaskGroup_Object pointer | TaskGroupList_Object pointer

definition TaskGroup_DeepCopyObject :: "('l, 'v) Library \<Rightarrow> pointer \<Rightarrow> 'l cell list \<Rightarrow> Object option \<times> 'l cell list" where
  "TaskGroup_DeepCopyObject L inp h =
     (let (c, h) = TaskGroup_DeepCopy L inp h
      in if c \<noteq> None then (Some (TaskGroup_Object c), h) else (None, h))"

definition TaskGroupList_DeepCopyInto :: "('l, 'v) Library \<Rightarrow> ('l TaskGroupList_s, 'l) copier" where
  "TaskGroupList_DeepCopyInto L inp h =
     (let out = inp;
          out = out\<lparr>tgl_TypeMeta := tgl_TypeMeta inp\<rparr>;
          (meta, h) = lb_ListMeta L (tgl_ListMeta inp) h;
          out = out\<lparr>tgl_ListMeta := meta\<rparr>;
          (items, h) = copy_slice TaskGroup_arr (zero_TaskGroup L) (TaskGroup_DeepCopyInto L) (tgl_Items inp) h;
          out = out\<lparr>tgl_Items := items\<rparr>
      in (out, h))"

definition TaskGroupList_DeepCopy :: "('l, 'v) Library \<Rightarrow> (pointer, 'l) copier" where
  "TaskGroupList_DeepCopy L inp h =
     copy_pointer TaskGroupList_arr \<lparr>tgl_TypeMeta = zero_TypeMeta, tgl_ListMeta = lb_zero L, tgl_Items = None\<rparr>
       (TaskGroupList_DeepCopyInto L) inp h"

definition TaskGroupList_DeepCopyObject :: "('l, 'v) Library \<Rightarrow> pointer \<Rightarrow> 'l cell list \<Rightarrow> Object option \<times> 'l cell list" where
  "TaskGroupList_DeepCopyObject L inp h =
     (let (c, h) = TaskGroupList_DeepCopy L inp h
      in if c \<noteq> None then (Some (TaskGroupList_Object c), h) else (None, h))"

definition TaskGroupRunStatus_DeepCopyInto :: "('l, 'v) Library \<Rightarrow> (TaskGroupRunStatus_s, 'l) copier" where
  "TaskGroupRunStatus_DeepCopyInto L inp h =
     (let out = inp;
          (spec, h) = copy_pointer TaskGroupSpec_arr zero_TaskGroupSpec (TaskGroupSpec_DeepCopyInto L)
            (rss_TaskGroupSpec inp) h;
          out = out\<lparr>rss_TaskGroupSpec := spec\<rparr>;
          (tr, h) = copy_pointer Library_arr (lb_zero L) (lb_TaskRunStatus L) (rss_TaskRun inp) h;
          out = out\<lparr>rss_TaskRun := tr\<rparr>
      in (out, h))"

definition TaskGroupRunStatus_DeepCopy :: "('l, 'v) Library \<Rightarrow> (pointer, 'l) copier" where
  "TaskGroupRunStatus_DeepCopy L inp h =
     copy_pointer TaskGroupRunStatus_arr \<lparr>rss_TaskGroupSpec = None, rss_TaskRun = None\<rparr>
       (TaskGroupRunStatus_DeepCopyInto L) inp h"

section \<open>The methods meet the contract\<close>

lemma library_deep_copy:
  assumes "library_ok L"
  shows "deep_copy (lb_shape L) (lb_TaskRef L)" "deep_copy (lb_shape L) (lb_ParamSpec L)"
    "deep_copy (lb_shape L) (lb_Step L)" "deep_copy (lb_shape L) (lb_Volume L)"
    "deep_copy (lb_shape L) (lb_Container L)" "deep_copy (lb_shape L) (lb_Sidecar L)"
    "deep_copy (lb_shape L) (lb_TaskRunStatus L)" "deep_copy (lb_shape L) (lb_ObjectMeta L)"
    "deep_copy (lb_shape L) (lb_ListMeta L)"
  using assms by (simp_all add: library_ok_def deep_copy_def)

lemma array_copyI: "deep_copy S copy \<Longrightarrow> arr_ok A \<Longrightarrow> array_copy S copy A"
  by (intro array_copy.intro array_copy_axioms.intro)

lemma deep_copy_sliceI:
  fixes zero :: 'a and S :: "('a, 'c, 'v) shape"
  assumes "deep_copy S copy" "arr_ok A"
  shows "deep_copy (slice_shape A S) (copy_slice A zero copy)"
  using array_copy.slice_shape_ok [OF array_copyI [OF assms]]
    array_copy.slice_copies_deeply [OF array_copyI [OF assms]]
  by (simp add: deep_copy_def)

lemma deep_copy_pointerI:
  assumes "deep_copy S copy" "arr_ok A"
  shows "deep_copy (pointer_shape A S) (copy_pointer A zero copy)"
  unfolding pointer_shape_def
  by (rule deep_copy_via [OF deep_copy_sliceI [OF assms] copy_pointer_slice])

interpretation pb: array_copy flat ParamBinding_DeepCopyInto ParamBinding_arr "\<lparr>pb_Name = [], pb_Param = []\<rparr>"
  by (rule array_copyI) (simp_all add: ParamBinding_DeepCopyInto_def [abs_def] deep_copy_flat)

interpretation wb: array_copy flat WorkspaceBinding_DeepCopyInto WorkspaceBinding_arr "\<lparr>wb_Name = [], wb_Workspace = []\<rparr>"
  by (rule array_copyI) (simp_all add: WorkspaceBinding_DeepCopyInto_def [abs_def] deep_copy_flat)

definition Uses_shape :: "('l, 'v) Library \<Rightarrow>
    ('l Uses_s, 'l cell, 'v \<times> ParamBinding list option \<times> WorkspaceBinding list option) shape" where
  "Uses_shape L = via (\<lambda>u. (us_TaskRef u, us_ParamBindings u, us_WorkspaceBindings u))
     (pair_shape (lb_shape L) (pair_shape (slice_shape ParamBinding_arr flat) (slice_shape WorkspaceBinding_arr flat)))"

lemma Uses_deep:
  assumes "library_ok L"
  shows "deep_copy (Uses_shape L) (Uses_DeepCopyInto L)"
  unfolding Uses_shape_def
  by (rule deep_copy_via [OF deep_copy_pair [OF library_deep_copy(1) [OF assms]
        deep_copy_pair [OF deep_copy_flat_slice deep_copy_flat_slice]]])
    (simp_all add: Uses_DeepCopyInto_def copy_pair_def split: prod.split)

definition Step_shape :: "('l, 'v) Library \<Rightarrow> ('l Step_s, 'l cell,
    'v \<times> ('v \<times> ParamBinding list option \<times> WorkspaceBinding list option) list option) shape" where
  "Step_shape L = via (\<lambda>s. (ss_Step s, ss_Uses s)) (pair_shape (lb_shape L) (pointer_shape Uses_arr (Uses_shape L)))"

lemma Step_deep:
  assumes "library_ok L"
  shows "deep_copy (Step_shape L) (Step_DeepCopyInto L)"
  unfolding Step_shape_def
  by (rule deep_copy_via [OF deep_copy_pair [OF library_deep_copy(3) [OF assms]
        deep_copy_pointerI [OF Uses_deep [OF assms] arrs_ok(5), where zero = "zero_Uses L"]]])
    (simp add: Step_DeepCopyInto_def copy_pair_def split: prod.split)

definition TaskGroupSpec_shape where
  "TaskGroupSpec_shape L =
     via (\<lambda>s. (ts_Description s, ts_Params s, ts_Steps s, ts_Volumes s, ts_StepTemplate s, ts_Sidecars s,
           ts_Workspaces s, ts_Results s))
     (pair_shape flat
     (pair_shape (slice_shape Library_arr (lb_shape L))
     (pair_shape (slice_shape Step_arr (Step_shape L))
     (pair_shape (slice_shape Library_arr (lb_shape L))
     (pair_shape (pointer_shape Library_arr (lb_shape L))
     (pair_shape (slice_shape Library_arr (lb_shape L))
     (pair_shape (slice_shape WorkspaceDeclaration_arr flat) (slice_shape TaskResult_arr flat))))))))"

lemma TaskGroupSpec_deep:
  assumes "library_ok L"
  shows "deep_copy (TaskGroupSpec_shape L) (TaskGroupSpec_DeepCopyInto L)"
proof -
  note l = library_deep_copy [OF assms]
  have "deep_copy
     (pair_shape flat
     (pair_shape (slice_shape Library_arr (lb_shape L))
     (pair_shape (slice_shape Step_arr (Step_shape L))
     (pair_shape (slice_shape Library_arr (lb_shape L))
     (pair_shape (pointer_shape Library_arr (lb_shape L))
     (pair_shape (slice_shape Library_arr (lb_shape L))
     (pair_shape (slice_shape WorkspaceDeclaration_arr flat) (slice_shape TaskResult_arr flat))))))))
     (copy_pair (\<lambda>x h. (x, h))
     (copy_pair (copy_slice Library_arr (lb_zero L) (lb_ParamSpec L))
     (copy_pair (copy_slice Step_arr (zero_Step L) (Step_DeepCopyInto L))
     (copy_pair (copy_slice Library_arr (lb_zero L) (lb_Volume L))
     (copy_pair (copy_pointer Library_arr (lb_zero L) (lb_Container L))
     (copy_pair (copy_slice Library_arr (lb_zero L) (lb_Sidecar L))
     (copy_pair (copy_flat_slice WorkspaceDeclaration_arr) (copy_flat_slice TaskResult_arr))))))))"
    by (intro deep_copy_pair deep_copy_flat deep_copy_sliceI deep_copy_pointerI deep_copy_flat_slice l
        Step_deep [OF assms] arrs_ok)
  then show ?thesis
    unfolding TaskGroupSpec_shape_def
    by (rule deep_copy_via) (simp add: TaskGroupSpec_DeepCopyInto_def copy_pair_def split: prod.split)
qed

definition TaskGroup_shape where
  "TaskGroup_shape L = via (\<lambda>g. (tgs_TypeMeta g, tgs_ObjectMeta g, tgs_Spec g))
     (pair_shape flat (pair_shape (lb_shape L) (TaskGroupSpec_shape L)))"

lemma TaskGroup_deep:
  assumes "library_ok L"
  shows "deep_copy (TaskGroup_shape L) (TaskGroup_DeepCopyInto L)"
  unfolding TaskGroup_shape_def
  by (rule deep_copy_via [OF deep_copy_pair [OF deep_copy_flat
        deep_copy_pair [OF library_deep_copy(8) [OF assms] TaskGroupSpec_deep [OF assms]]]])
    (simp add: TaskGroup_DeepCopyInto_def copy_pair_def split: prod.split)

definition TaskGroupList_shape where
  "TaskGroupList_shape L = via (\<lambda>g. (tgl_TypeMeta g, tgl_ListMeta g, tgl_Items g))
     (pair_shape flat (pair_shape (lb_shape L) (slice_shape TaskGroup_arr (TaskGroup_shape L))))"

lemma TaskGroupList_deep:
  assumes "library_ok L"
  shows "deep_copy (TaskGroupList_shape L) (TaskGroupList_DeepCopyInto L)"
  unfolding TaskGroupList_shape_def
  by (rule deep_copy_via [OF deep_copy_pair [OF deep_copy_flat deep_copy_pair [OF library_deep_copy(9) [OF assms]
        deep_copy_sliceI [OF TaskGroup_deep [OF assms] arrs_ok(8), where zero = "zero_TaskGroup L"]]]])
    (simp add: TaskGroupList_DeepCopyInto_def copy_pair_def split: prod.split)

definition TaskGroupRunStatus_shape where
  "TaskGroupRunStatus_shape L = via (\<lambda>s. (rss_TaskGroupSpec s, rss_TaskRun s))
     (pair_shape (pointer_shape TaskGroupSpec_arr (TaskGroupSpec_shape L)) (pointer_shape Library_arr (lb_shape L)))"

lemma TaskGroupRunStatus_deep:
  assumes "library_ok L"
  shows "deep_copy (TaskGroupRunStatus_shape L) (TaskGroupRunStatus_DeepCopyInto L)"
  unfolding TaskGroupRunStatus_shape_def
  by (rule deep_copy_via [OF deep_copy_pair [OF
        deep_copy_pointerI [OF TaskGroupSpec_deep [OF assms] arrs_ok(7), where zero = zero_TaskGroupSpec]
        deep_copy_pointerI [OF library_deep_copy(7) [OF assms] arrs_ok(11), where zero = "lb_zero L"]]])
    (simp add: TaskGroupRunStatus_DeepCopyInto_def copy_pair_def split: prod.split)

section \<open>Properties\<close>

abbreviation TaskGroup_pointer where
  "TaskGroup_pointer L \<equiv> pointer_shape TaskGroup_arr (TaskGroup_shape L)"
abbreviation TaskGroupList_pointer where
  "TaskGroupList_pointer L \<equiv> pointer_shape TaskGroupList_arr (TaskGroupList_shape L)"
abbreviation TaskGroupRunStatus_pointer where
  "TaskGroupRunStatus_pointer L \<equiv> pointer_shape TaskGroupRunStatus_arr (TaskGroupRunStatus_shape L)"

lemma TaskGroup_DeepCopy_deep:
  "library_ok L \<Longrightarrow> deep_copy (TaskGroup_pointer L) (TaskGroup_DeepCopy L)"
  unfolding TaskGroup_DeepCopy_def [abs_def] by (intro deep_copy_pointerI TaskGroup_deep arrs_ok)

lemma TaskGroupList_DeepCopy_deep:
  "library_ok L \<Longrightarrow> deep_copy (TaskGroupList_pointer L) (TaskGroupList_DeepCopy L)"
  unfolding TaskGroupList_DeepCopy_def [abs_def] by (intro deep_copy_pointerI TaskGroupList_deep arrs_ok)

lemma TaskGroupRunStatus_DeepCopy_deep:
  "library_ok L \<Longrightarrow> deep_copy (TaskGroupRunStatus_pointer L) (TaskGroupRunStatus_DeepCopy L)"
  unfolding TaskGroupRunStatus_DeepCopy_def [abs_def] by (intro deep_copy_pointerI TaskGroupRunStatus_deep arrs_ok)

lemma copy_pointer_nil: "fst (copy_pointer A zero copy p h) = None \<longleftrightarrow> p = None"
  by (auto simp: copy_pointer_def Let_def split: option.splits prod.splits)

text \<open>An example: two steps of which one uses a task, in a TaskGroup whose library structs are pointers
  to one cell.\<close>

definition ex_lib :: "(pointer, pointer list option) Library" where
  "ex_lib = (let c = copy_pointer Library_arr None (\<lambda>x h. (x, h)) in
     \<lparr>lb_zero = None, lb_shape = pointer_shape Library_arr flat, lb_TaskRef = c, lb_ParamSpec = c, lb_Step = c,
      lb_Volume = c, lb_Container = c, lb_Sidecar = c, lb_TaskRunStatus = c, lb_ObjectMeta = c, lb_ListMeta = c\<rparr>)"

lemma ex_lib_ok: "library_ok ex_lib"
  using deep_copy_pointerI [OF deep_copy_flat arrs_ok(11)]
  by (simp add: library_ok_def ex_lib_def Let_def deep_copy_def)

definition ex_heap :: "pointer cell list" where
  "ex_heap =
     [Library_cell [Some 7],
      ParamBinding_cell [\<lparr>pb_Name = ''a'', pb_Param = ''b''\<rparr>, \<lparr>pb_Name = ''c'', pb_Param = ''d''\<rparr>],
      Uses_cell [\<lparr>us_TaskRef = Some 0, us_ParamBindings = Some \<lparr>sl_array = 1, sl_off = 1, sl_len = 1\<rparr>,
        us_WorkspaceBindings = None\<rparr>],
      Step_cell [\<lparr>ss_Step = Some 0, ss_Uses = Some 2\<rparr>, \<lparr>ss_Step = None, ss_Uses = None\<rparr>],
      TaskGroup_cell [\<lparr>tgs_TypeMeta = zero_TypeMeta, tgs_ObjectMeta = Some 0,
        tgs_Spec = zero_TaskGroupSpec\<lparr>ts_Steps := Some \<lparr>sl_array = 3, sl_off = 0, sl_len = 2\<rparr>,
          ts_StepTemplate := Some 8\<rparr>\<rparr>],
      TaskGroupList_cell [\<lparr>tgl_TypeMeta = zero_TypeMeta, tgl_ListMeta = None,
        tgl_Items = Some \<lparr>sl_array = 4, sl_off = 0, sl_len = 1\<rparr>\<rparr>],
      TaskGroupSpec_cell [zero_TaskGroupSpec\<lparr>ts_Steps := Some \<lparr>sl_array = 3, sl_off = 1, sl_len = 1\<rparr>\<rparr>],
      TaskGroupRunStatus_cell [\<lparr>rss_TaskGroupSpec = Some 6, rss_TaskRun = Some 8\<rparr>],
      Library_cell [Some 0]]"

lemma ex_heap_wf:
  "sh_wf (TaskGroup_pointer ex_lib) ex_heap (Some 4)"
  "sh_wf (TaskGroupList_pointer ex_lib) ex_heap (Some 5)"
  "sh_wf (TaskGroupRunStatus_pointer ex_lib) ex_heap (Some 7)"
  by code_simp+

text \<open>C21. \<open>DeepCopy\<close> of a TaskGroup gives a pointer through which the same value is read, writes no cell
  that existed, and shares nothing with the original: whatever is written to the cells reached from the
  one is not seen through the other. A nil pointer is copied to nil.\<close>

theorem TaskGroup_DeepCopy_isolates:
  assumes "library_ok L" "sh_wf (TaskGroup_pointer L) h p" "TaskGroup_DeepCopy L p h = (q, h')"
  shows "ext h h' \<and> sh_view (TaskGroup_pointer L) h' q = sh_view (TaskGroup_pointer L) h p \<and>
    sh_refs (TaskGroup_pointer L) h' q \<inter> sh_refs (TaskGroup_pointer L) h p = {} \<and>
    {h''. length h'' = length h' \<and> (\<forall>a. a \<notin> sh_refs (TaskGroup_pointer L) h' q \<longrightarrow> h'' ! a = h' ! a)}
      \<subseteq> {h''. sh_view (TaskGroup_pointer L) h'' p = sh_view (TaskGroup_pointer L) h p} \<and>
    {h''. length h'' = length h' \<and> (\<forall>a. a \<notin> sh_refs (TaskGroup_pointer L) h p \<longrightarrow> h'' ! a = h' ! a)}
      \<subseteq> {h''. sh_view (TaskGroup_pointer L) h'' q = sh_view (TaskGroup_pointer L) h p} \<and>
    (q = None \<longleftrightarrow> p = None)"
proof -
  note d = TaskGroup_DeepCopy_deep [OF assms(1)]
  have n: "q = None \<longleftrightarrow> p = None"
    using assms(3) copy_pointer_nil by (metis TaskGroup_DeepCopy_def fst_conv)
  show ?thesis
    using deep_copy.copies_isolated [OF d assms(2,3)] n by blast
qed

theorem TaskGroup_DeepCopy_isolates_witness:
  "sh_view (TaskGroup_pointer ex_lib) (snd (TaskGroup_DeepCopy ex_lib (Some 4) ex_heap))
     (fst (TaskGroup_DeepCopy ex_lib (Some 4) ex_heap)) = sh_view (TaskGroup_pointer ex_lib) ex_heap (Some 4)"
  using TaskGroup_DeepCopy_isolates [OF ex_lib_ok ex_heap_wf(1) prod.collapse [symmetric]] by blast

text \<open>\<open>DeepCopyObject\<close> of a TaskGroupList, which the informers call, gives an object of the same type
  that reads the same and shares no cell with the original; for a nil pointer it gives the nil interface
  and not an interface that holds a nil pointer.\<close>

theorem TaskGroupList_DeepCopyObject_copies:
  assumes "library_ok L" "sh_wf (TaskGroupList_pointer L) h p"
    and "TaskGroupList_DeepCopyObject L p h = (ob, h')"
  shows "ext h h' \<and> (p = None \<longleftrightarrow> ob = None) \<and>
    (p = None \<or> (\<exists>q. ob = Some (TaskGroupList_Object (Some q)) \<and>
      sh_view (TaskGroupList_pointer L) h' (Some q) = sh_view (TaskGroupList_pointer L) h p \<and>
      sh_refs (TaskGroupList_pointer L) h' (Some q) \<inter> sh_refs (TaskGroupList_pointer L) h p = {}))"
proof -
  obtain q where q: "TaskGroupList_DeepCopy L p h = (q, h')"
      "ob = (if q \<noteq> None then Some (TaskGroupList_Object q) else None)"
    using assms(3) by (auto simp: TaskGroupList_DeepCopyObject_def split: prod.splits if_splits)
  have "q = None \<longleftrightarrow> p = None"
    using q(1) copy_pointer_nil by (metis TaskGroupList_DeepCopy_def fst_conv)
  then show ?thesis
    using deep_copy.copies_isolated(1-3) [OF TaskGroupList_DeepCopy_deep [OF assms(1)] assms(2) q(1)] q(2) by auto
qed

theorem TaskGroupList_DeepCopyObject_copies_witness:
  "\<exists>q. fst (TaskGroupList_DeepCopyObject ex_lib (Some 5) ex_heap) = Some (TaskGroupList_Object (Some q))"
  using TaskGroupList_DeepCopyObject_copies [OF ex_lib_ok ex_heap_wf(2) prod.collapse [symmetric]] by blast

text \<open>The deep copy of the status of a Run keeps nil fields nil, reads the same and shares no cell with the
  original.\<close>

theorem TaskGroupRunStatus_DeepCopy_copies:
  assumes "library_ok L" "sh_wf (TaskGroupRunStatus_pointer L) h p" "TaskGroupRunStatus_DeepCopy L p h = (q, h')"
  shows "ext h h' \<and> sh_wf (TaskGroupRunStatus_pointer L) h' q \<and>
    sh_view (TaskGroupRunStatus_pointer L) h' q = sh_view (TaskGroupRunStatus_pointer L) h p \<and>
    sh_refs (TaskGroupRunStatus_pointer L) h' q \<inter> sh_refs (TaskGroupRunStatus_pointer L) h p = {}"
  using deep_copy.copies_isolated(1-3) [OF TaskGroupRunStatus_DeepCopy_deep [OF assms(1)] assms(2,3)]
    deep_copy.copied(2) [OF TaskGroupRunStatus_DeepCopy_deep [OF assms(1)] assms(2,3)]
  by blast

theorem TaskGroupRunStatus_DeepCopy_copies_witness:
  "ext ex_heap (snd (TaskGroupRunStatus_DeepCopy ex_lib (Some 7) ex_heap))"
  using TaskGroupRunStatus_DeepCopy_copies [OF ex_lib_ok ex_heap_wf(3) prod.collapse [symmetric]] by blast

end
