(* ===== verification/Reconcile_Spec.thy ===== *)
theory Reconcile_Spec
  imports Reconciler
begin

text \<open>
  The specification of a reconcile: which TaskRun the controller writes to the API server
  (\<open>task_writes\<close>), which \<open>Succeeded\<close> condition the Run ends with (\<open>outcome\<close>), which errors are
  returned for a retry (\<open>retry_error\<close>) and what is recorded in the extra fields (\<open>recorded\<close>), each as
  a function of the Run, the decoded status and the environment. The lemmas show that \<open>ReconcileKind\<close>
  meets it.
\<close>

section \<open>The specification\<close>

definition taskgroup_of :: "Env \<Rightarrow> Run \<Rightarrow> goerror + ObjectMeta \<times> TaskGroupSpec" where
  "taskgroup_of env run =
     (case (rsp_Ref (run_Spec run), rsp_Spec (run_Spec run)) of
        (ref, emb) \<Rightarrow>
          if ref \<noteq> None \<and> tref_Name (the ref) \<noteq> []
          then (case e_getTaskGroup env (run_Namespace run) (tref_Name (the ref)) of
                  Inl err \<Rightarrow> Inl err | Inr tg \<Rightarrow> Inr (tgr_Meta tg, tgr_Spec tg))
          else (case emb of
                  None \<Rightarrow> Inr (empty_meta, empty_TaskGroupSpec)
                | Some e \<Rightarrow> (case e_unmarshalSpec env (ers_Spec e) of
                               Inl err \<Rightarrow> Inl err | Inr spec \<Rightarrow> Inr (empty_meta, spec))))"

definition listed :: "Env \<Rightarrow> Run \<Rightarrow> goerror + TaskRun list" where
  "listed env run = e_listTaskRuns env (run_Namespace run) [(pipeline_GroupName @ taskGroupRunLabelKey, run_Name run)]"

definition must_cancel :: "Run \<Rightarrow> TaskRun \<Rightarrow> bool" where
  "must_cancel run tr \<longleftrightarrow> \<not> TaskRun_IsDone tr \<and> Run_IsCancelled run \<and> \<not> TaskRun_IsCancelled tr"

text \<open>The TaskSpec the controller wants to run, or the error that stops it.\<close>

definition wanted_spec :: "Env \<Rightarrow> Run \<Rightarrow> TaskGroupSpec \<Rightarrow> goerror + TaskSpec" where
  "wanted_spec env run spec =
     (case fetchUsesTaskSpec env spec run of
        Inl err \<Rightarrow> Inl err
      | Inr used \<Rightarrow>
          (case resolve_TaskSpec (e_merger env) (e_order env) spec used of
             (_, Some err) \<Rightarrow> Inl err | (ts, None) \<Rightarrow> Inr ts))"

definition wanted_TaskRun :: "Env \<Rightarrow> Run \<Rightarrow> ObjectMeta \<Rightarrow> TaskSpec \<Rightarrow> TaskRun" where
  "wanted_TaskRun env run meta ts = new_TaskRun env (propagateTaskGroupLabelsAndAnnotations meta run) ts"

definition create_result :: "Env \<Rightarrow> Run \<Rightarrow> ObjectMeta \<Rightarrow> TaskGroupSpec \<Rightarrow> goerror + TaskRun" where
  "create_result env run meta spec =
     (case wanted_spec env run spec of
        Inl err \<Rightarrow> Inl err | Inr ts \<Rightarrow> e_createTaskRun env (wanted_TaskRun env run meta ts))"

definition task_writes :: "Env \<Rightarrow> Run \<Rightarrow> TaskGroupRunStatus \<Rightarrow> effect list" where
  "task_writes env run status =
     (case taskgroup_of env run of
        Inl err \<Rightarrow> []
      | Inr (meta, spec) \<Rightarrow>
          if \<not> valid_spec spec then []
          else (case listed env run of
                  Inl err \<Rightarrow> []
                | Inr [] \<Rightarrow>
                    if tgs_TaskRun status \<noteq> None then []
                    else (case wanted_spec env run spec of
                            Inl err \<Rightarrow> []
                          | Inr ts \<Rightarrow> [CreatedTaskRun (wanted_TaskRun env run meta ts)])
                | Inr [tr] \<Rightarrow>
                    if must_cancel run tr
                    then [PatchedTaskRun (run_Namespace run) (om_Name (tr_Meta tr)) (e_cancelPatchBytes env)]
                    else []
                | Inr _ \<Rightarrow> []))"

definition cannot_run :: "ObjectMeta \<Rightarrow> string \<Rightarrow> string" where
  "cannot_run meta why =
     ''TaskGroup '' @ om_Namespace meta @ ''/'' @ om_Name meta @ '' can't be Run; '' @ why"

text \<open>The condition the Run ends with; \<open>None\<close> leaves it as it was.\<close>

definition outcome :: "Env \<Rightarrow> Run \<Rightarrow> TaskGroupRunStatus \<Rightarrow> (string \<times> TaskGroupRunReason \<times> string) option" where
  "outcome env run status =
     (case taskgroup_of env run of
        Inl err \<Rightarrow> Some (ConditionFalse, TaskGroupRunReasonCouldntGetTaskGroup,
                      ''Error retrieving TaskGroup for Run '' @ run_path run @ '': '' @ error_string err)
      | Inr (meta, spec) \<Rightarrow>
          if \<not> valid_spec spec
          then Some (ConditionFalse, TaskGroupRunReasonFailedValidation,
                 cannot_run meta (''it has an invalid spec: '' @
                   FieldError_Error (e_leaf_order env) (TaskGroupSpec_Validate spec)))
          else (case listed env run of
                  Inl err \<Rightarrow> None
                | Inr [] \<Rightarrow>
                    (case (tgs_TaskRun status, create_result env run meta spec) of
                       (None, Inl err) \<Rightarrow> Some (ConditionFalse, TaskGroupRunReasonFailedValidation,
                          cannot_run meta (''failed to create TaskRun: '' @ error_string err))
                     | _ \<Rightarrow> Some (ConditionUnknown, TaskGroupRunReasonRunning, run_Name run @ '' running''))
                | Inr [tr] \<Rightarrow>
                    if TaskRun_IsDone tr then
                      if TaskRun_IsSuccessful tr
                      then Some (ConditionTrue, TaskGroupRunReasonSucceeded, ''TaskRun succeeded'')
                      else Some (ConditionFalse, TaskGroupRunReasonFailed, ''TaskRun failed'')
                    else if must_cancel run tr \<and>
                            e_patchTaskRun env (run_Namespace run) (om_Name (tr_Meta tr)) (e_cancelPatchBytes env) \<noteq> None
                    then None
                    else Some (ConditionUnknown, TaskGroupRunReasonRunning, run_Name run @ '' running'')
                | Inr _ \<Rightarrow> None))"

definition retries :: "Env \<Rightarrow> Run \<Rightarrow> bool" where
  "retries env run \<longleftrightarrow>
     (case taskgroup_of env run of
        Inl err \<Rightarrow> True
      | Inr (meta, spec) \<Rightarrow>
          valid_spec spec \<and>
          (case listed env run of
             Inl err \<Rightarrow> True
           | Inr [] \<Rightarrow> False
           | Inr [tr] \<Rightarrow>
               must_cancel run tr \<and>
               e_patchTaskRun env (run_Namespace run) (om_Name (tr_Meta tr)) (e_cancelPatchBytes env) \<noteq> None
           | Inr _ \<Rightarrow> True))"

definition recorded :: "Env \<Rightarrow> Run \<Rightarrow> TaskGroupRunStatus \<Rightarrow> TaskGroupRunStatus" where
  "recorded env run status =
     (case taskgroup_of env run of
        Inl err \<Rightarrow> status
      | Inr (meta, spec) \<Rightarrow>
          let status = storeTaskGroupSpec spec status in
          if \<not> valid_spec spec then status
          else (case listed env run of
                  Inr [] \<Rightarrow>
                    (case (tgs_TaskRun status, create_result env run meta spec) of
                       (None, Inr tr) \<Rightarrow> status\<lparr>tgs_TaskRun := Some (tr_Status tr)\<rparr>
                     | _ \<Rightarrow> status)
                | Inr [tr] \<Rightarrow> status\<lparr>tgs_TaskRun := Some (tr_Status tr)\<rparr>
                | _ \<Rightarrow> status))"

section \<open>State components\<close>

named_theorems rstate "what the state updates do to the components of the state"

lemma upd_simps [rstate, simp]:
  "st_Effects (upd_run f s) = st_Effects s" "st_Status (upd_run f s) = st_Status s"
  "st_Run (upd_run f s) = f (st_Run s)"
  "st_Effects (upd_run_status g s) = st_Effects s" "st_Status (upd_run_status g s) = st_Status s"
  "run_Meta (st_Run (upd_run_status g s)) = run_Meta (st_Run s)"
  "run_Spec (st_Run (upd_run_status g s)) = run_Spec (st_Run s)"
  "run_Status (st_Run (upd_run_status g s)) = g (run_Status (st_Run s))"
  "st_Run (add_effect e s) = st_Run s" "st_Status (add_effect e s) = st_Status s"
  "st_Effects (add_effect e s) = st_Effects s @ [e]"
  by (simp_all add: upd_run_def upd_run_status_def add_effect_def)

lemma propagate_simps [rstate, simp]:
  "run_Spec (propagateTaskGroupLabelsAndAnnotations m run) = run_Spec run"
  "run_Status (propagateTaskGroupLabelsAndAnnotations m run) = run_Status run"
  "run_Name (propagateTaskGroupLabelsAndAnnotations m run) = run_Name run"
  "run_Namespace (propagateTaskGroupLabelsAndAnnotations m run) = run_Namespace run"
  "om_UID (run_Meta (propagateTaskGroupLabelsAndAnnotations m run)) = om_UID (run_Meta run)"
  by (simp_all add: propagateTaskGroupLabelsAndAnnotations_def Let_def)

lemma fetch_loop_cong:
  "run_Namespace r = run_Namespace r' \<Longrightarrow> run_Spec r = run_Spec r' \<Longrightarrow>
     fetchUsesTaskSpec_loop env r i steps m = fetchUsesTaskSpec_loop env r' i steps m"
  by (induction env r i steps m rule: fetchUsesTaskSpec_loop.induct)
    (auto split: option.splits sum.splits prod.splits)

lemma wanted_spec_cong:
  "run_Namespace r = run_Namespace r' \<Longrightarrow> run_Spec r = run_Spec r' \<Longrightarrow> wanted_spec env r spec = wanted_spec env r' spec"
  by (simp add: wanted_spec_def fetchUsesTaskSpec_def fetch_loop_cong [of r r'])

lemma new_TaskRun_cong:
  "run_Meta r = run_Meta r' \<Longrightarrow> run_Spec r = run_Spec r' \<Longrightarrow> new_TaskRun env r ts = new_TaskRun env r' ts"
  by (simp add: new_TaskRun_def NewControllerRef_def getTaskRunLabels_def getTaskRunAnnotations_def Let_def)

lemma createTaskRun_spec:
  "createTaskRun env spec s =
     (case wanted_spec env (st_Run s) spec of
        Inl err \<Rightarrow> (Inl err, s)
      | Inr ts \<Rightarrow> (e_createTaskRun env (new_TaskRun env (st_Run s) ts),
                   add_effect (CreatedTaskRun (new_TaskRun env (st_Run s) ts)) s))"
  by (auto simp: createTaskRun_def wanted_spec_def Let_def split: sum.splits prod.splits option.splits)

lemma getTaskGroup_spec:
  "getTaskGroup env s =
     (case taskgroup_of env (st_Run s) of
        Inl err \<Rightarrow> getTaskGroup_failed env err s | Inr x \<Rightarrow> (Inr x, s))"
  by (auto simp: getTaskGroup_def taskgroup_of_def Let_def split: option.splits sum.splits)

lemma getTaskRunLabels_False: "getTaskRunLabels run False = [(pipeline_GroupName @ taskGroupRunLabelKey, run_Name run)]"
  by (simp add: getTaskRunLabels_def gomap_set_def)

lemma processTaskRun_spec:
  "processTaskRun env tr s =
     (if must_cancel (st_Run s) tr
      then (map_option (\<lambda>err. Errorf (''Failed to patch TaskRun `'' @ om_Name (tr_Meta tr) @ ''` with cancellation: '' @ error_string err))
              (e_patchTaskRun env (run_Namespace (st_Run s)) (om_Name (tr_Meta tr)) (e_cancelPatchBytes env)),
            add_effect (PatchedTaskRun (run_Namespace (st_Run s)) (om_Name (tr_Meta tr)) (e_cancelPatchBytes env)) s)
      else (None, s))"
  by (auto simp: processTaskRun_def must_cancel_def Let_def split: option.splits)

section \<open>The branches of reconcile\<close>

text \<open>The state when the TaskGroup is fetched, and after a TaskRun was listed.\<close>

definition prepared :: "ObjectMeta \<Rightarrow> TaskGroupSpec \<Rightarrow> RState \<Rightarrow> RState" where
  "prepared meta spec s =
     upd_run (propagateTaskGroupLabelsAndAnnotations meta) (s\<lparr>st_Status := storeTaskGroupSpec spec (st_Status s)\<rparr>)"

definition observed :: "TaskRun \<Rightarrow> RState \<Rightarrow> RState" where
  "observed tr s =
     (let s = s\<lparr>st_Status := (st_Status s)\<lparr>tgs_TaskRun := Some (tr_Status tr)\<rparr>\<rparr>
      in if time_Before (Some (om_CreationTimestamp (tr_Meta tr))) (rs_CompletionTime (run_Status (st_Run s)))
         then upd_run_status (rs_CompletionTime_update (\<lambda>_. Some (om_CreationTimestamp (tr_Meta tr)))) s
         else s)"

lemma prepared_simps [rstate, simp]:
  "st_Effects (prepared meta spec s) = st_Effects s"
  "st_Status (prepared meta spec s) = storeTaskGroupSpec spec (st_Status s)"
  "st_Run (prepared meta spec s) = propagateTaskGroupLabelsAndAnnotations meta (st_Run s)"
  by (simp_all add: prepared_def)

lemma observed_simps [rstate, simp]:
  "st_Effects (observed tr s) = st_Effects s"
  "st_Status (observed tr s) = (st_Status s)\<lparr>tgs_TaskRun := Some (tr_Status tr)\<rparr>"
  "run_Meta (st_Run (observed tr s)) = run_Meta (st_Run s)"
  "run_Spec (st_Run (observed tr s)) = run_Spec (st_Run s)"
  "rs_Conditions (run_Status (st_Run (observed tr s))) = rs_Conditions (run_Status (st_Run s))"
  by (simp_all add: observed_def Let_def)

lemma observed_status [rstate, simp]:
  "GetCondition t (run_Status (st_Run (observed tr s))) = GetCondition t (run_Status (st_Run s))"
  "status_wf (run_Status (st_Run (observed tr s))) = status_wf (run_Status (st_Run s))"
  by (simp_all add: GetCondition_def status_wf_def)

lemma must_cancel_cong: "run_Spec r = run_Spec r' \<Longrightarrow> must_cancel r tr = must_cancel r' tr"
  by (simp add: must_cancel_def Run_IsCancelled_def)

lemma storeTaskGroupSpec_TaskRun [simp]: "tgs_TaskRun (storeTaskGroupSpec spec st) = tgs_TaskRun st"
  by (simp add: storeTaskGroupSpec_def)

lemma updateTaskRunStatus_cases:
  "listed env (st_Run s) = Inl err \<Longrightarrow>
     updateTaskRunStatus env s = ((False, False, Some (Errorf (''could not list TaskRuns '' @ e_goSyntax env err))), s)"
  "listed env (st_Run s) = Inr [] \<Longrightarrow> updateTaskRunStatus env s = ((False, False, None), s)"
  "listed env (st_Run s) = Inr (tr # tr' # trs) \<Longrightarrow>
     updateTaskRunStatus env s = ((False, False, Some (Errorf ''Multiple taskRuns, this is a problem'')), s)"
  "listed env (st_Run s) = Inr [tr] \<Longrightarrow>
     updateTaskRunStatus env s =
       (case processTaskRun env tr (observed tr s) of
          (Some err, s') \<Rightarrow>
            ((False, False, Some (Errorf (''error processing TaskRun '' @ om_Name (tr_Meta tr) @ '': '' @ e_goSyntax env err))), s')
        | (None, s') \<Rightarrow> ((TaskRun_IsDone tr, TaskRun_IsDone tr \<and> \<not> TaskRun_IsSuccessful tr, None), s'))"
  by (simp_all add: updateTaskRunStatus_def listed_def getTaskRunLabels_False observed_def Let_def)

lemma listed_propagate [simp]: "listed env (propagateTaskGroupLabelsAndAnnotations meta run) = listed env run"
  by (simp add: listed_def)

lemma reconcile_missing:
  "taskgroup_of env (st_Run s) = Inl err \<Longrightarrow>
     reconcile env s =
       (Some (Wrap (''Error retrieving TaskGroup for Run '' @ run_path (st_Run s)) err),
        upd_run_status (MarkRunFailed (e_Now env 4) (reason_String TaskGroupRunReasonCouldntGetTaskGroup)
          (''Error retrieving TaskGroup for Run '' @ run_path (st_Run s) @ '': '' @ error_string err)) s)"
  by (simp add: reconcile_def getTaskGroup_spec getTaskGroup_failed_def)

lemma reconcile_invalid:
  assumes "taskgroup_of env (st_Run s) = Inr (meta, spec)" "\<not> valid_spec spec"
  shows "reconcile env s =
    (None, upd_run_status (MarkRunFailed (e_Now env 4) (reason_String TaskGroupRunReasonFailedValidation)
       (cannot_run meta (''it has an invalid spec: '' @ FieldError_Error (e_leaf_order env) (TaskGroupSpec_Validate spec))))
       (prepared meta spec s))"
proof -
  obtain err where "TaskGroupSpec_Validate spec = Some err"
    using assms(2) TaskGroupSpec_Validate_None by blast
  with assms show ?thesis
    by (simp add: reconcile_def getTaskGroup_spec prepared_def cannot_run_def)
qed

lemma reconcile_valid:
  assumes "taskgroup_of env (st_Run s) = Inr (meta, spec)" "valid_spec spec"
  shows "reconcile env s =
    (case updateTaskRunStatus env (prepared meta spec s) of
       ((_, _, Some err), s) \<Rightarrow>
         (Some (Wrap (''error updating TaskRun status for Run '' @ run_path (st_Run s)) err), s)
     | ((taskRunDone, taskRunFailed, None), s) \<Rightarrow>
         if taskRunDone then
           if taskRunFailed
           then (None, upd_run_status (MarkRunFailed (e_Now env 4)
                   (reason_String TaskGroupRunReasonFailed) ''TaskRun failed'') s)
           else (None, upd_run_status (MarkRunSucceeded (e_Now env 4)
                   (reason_String TaskGroupRunReasonSucceeded) ''TaskRun succeeded'') s)
         else (None, reconcile_create env meta spec (upd_run_status (MarkRunRunning (e_Now env 4)
                 (reason_String TaskGroupRunReasonRunning) (run_Name (st_Run s) @ '' running'')) s)))"
proof -
  have "TaskGroupSpec_Validate spec = None" using assms(2) TaskGroupSpec_Validate_None by blast
  then show ?thesis
    by (simp only: reconcile_def getTaskGroup_spec assms(1) prod.case sum.case option.case Let_def prepared_def)
qed

lemma reconcile_create_spec:
  assumes "run_Meta (st_Run s) = run_Meta (propagateTaskGroupLabelsAndAnnotations meta run)"
    "run_Spec (st_Run s) = run_Spec run"
  shows "reconcile_create env meta spec s =
    (if tgs_TaskRun (st_Status s) \<noteq> None then s
     else (case wanted_spec env run spec of
             Inl err \<Rightarrow> upd_run_status (MarkRunFailed (e_Now env 5) (reason_String TaskGroupRunReasonFailedValidation)
                (cannot_run meta (''failed to create TaskRun: '' @ error_string err))) s
           | Inr ts \<Rightarrow>
               (case create_result env run meta spec of
                  Inl err \<Rightarrow> upd_run_status (MarkRunFailed (e_Now env 5) (reason_String TaskGroupRunReasonFailedValidation)
                    (cannot_run meta (''failed to create TaskRun: '' @ error_string err)))
                      (add_effect (CreatedTaskRun (wanted_TaskRun env run meta ts)) s)
                | Inr tr \<Rightarrow> (add_effect (CreatedTaskRun (wanted_TaskRun env run meta ts)) s)
                    \<lparr>st_Status := (st_Status s)\<lparr>tgs_TaskRun := Some (tr_Status tr)\<rparr>\<rparr>)))"
proof -
  have w: "wanted_spec env (st_Run s) spec = wanted_spec env run spec"
    using assms by (intro wanted_spec_cong) simp_all
  have n: "new_TaskRun env (st_Run s) ts = wanted_TaskRun env run meta ts" for ts
    unfolding wanted_TaskRun_def using assms by (intro new_TaskRun_cong) simp_all
  show ?thesis
    by (auto simp: reconcile_create_def createTaskRun_spec w n create_result_def cannot_run_def split: sum.splits)
qed

lemma reconcile_branches:
  obtains (missing) err where "taskgroup_of env run = Inl err"
  | (invalid) meta spec where "taskgroup_of env run = Inr (meta, spec)" "\<not> valid_spec spec"
  | (list_error) meta spec err where "taskgroup_of env run = Inr (meta, spec)" "valid_spec spec" "listed env run = Inl err"
  | (none) meta spec where "taskgroup_of env run = Inr (meta, spec)" "valid_spec spec" "listed env run = Inr []"
  | (one) meta spec tr where "taskgroup_of env run = Inr (meta, spec)" "valid_spec spec" "listed env run = Inr [tr]"
  | (many) meta spec tr tr' trs where "taskgroup_of env run = Inr (meta, spec)" "valid_spec spec"
      "listed env run = Inr (tr # tr' # trs)"
  by (cases "taskgroup_of env run"; cases "listed env run") (fastforce split: prod.splits, fastforce split: prod.splits,
      fastforce split: prod.splits, metis list.exhaust surj_pair)

text \<open>The result of \<open>reconcile\<close> when no or one TaskRun is listed.\<close>

lemma reconcile_none:
  assumes "taskgroup_of env (st_Run s) = Inr (meta, spec)" "valid_spec spec" "listed env (st_Run s) = Inr []"
  shows "reconcile env s =
    (None, reconcile_create env meta spec (upd_run_status (MarkRunRunning (e_Now env 4)
       (reason_String TaskGroupRunReasonRunning) (run_Name (st_Run s) @ '' running'')) (prepared meta spec s)))"
  using assms by (simp add: reconcile_valid updateTaskRunStatus_cases(2))

definition after_cancel :: "Env \<Rightarrow> TaskRun \<Rightarrow> RState \<Rightarrow> RState" where
  "after_cancel env tr s =
     (if must_cancel (st_Run s) tr
      then add_effect (PatchedTaskRun (run_Namespace (st_Run s)) (om_Name (tr_Meta tr)) (e_cancelPatchBytes env)) s
      else s)"

lemma after_cancel_simps [rstate, simp]:
  "st_Run (after_cancel env tr s) = st_Run s" "st_Status (after_cancel env tr s) = st_Status s"
  by (simp_all add: after_cancel_def)

lemma reconcile_one:
  assumes t: "taskgroup_of env (st_Run s) = Inr (meta, spec)" "valid_spec spec" "listed env (st_Run s) = Inr [tr]"
  defines "s' \<equiv> after_cancel env tr (observed tr (prepared meta spec s))"
  shows "TaskRun_IsDone tr \<Longrightarrow> TaskRun_IsSuccessful tr \<Longrightarrow> reconcile env s =
      (None, upd_run_status (MarkRunSucceeded (e_Now env 4) (reason_String TaskGroupRunReasonSucceeded) ''TaskRun succeeded'') s')"
    and "TaskRun_IsDone tr \<Longrightarrow> \<not> TaskRun_IsSuccessful tr \<Longrightarrow> reconcile env s =
      (None, upd_run_status (MarkRunFailed (e_Now env 4) (reason_String TaskGroupRunReasonFailed) ''TaskRun failed'') s')"
    and "must_cancel (st_Run s) tr \<Longrightarrow>
      e_patchTaskRun env (run_Namespace (st_Run s)) (om_Name (tr_Meta tr)) (e_cancelPatchBytes env) \<noteq> None \<Longrightarrow>
      \<exists>err. reconcile env s = (Some err, s')"
    and "\<not> TaskRun_IsDone tr \<Longrightarrow>
      \<not> (must_cancel (st_Run s) tr \<and>
        e_patchTaskRun env (run_Namespace (st_Run s)) (om_Name (tr_Meta tr)) (e_cancelPatchBytes env) \<noteq> None) \<Longrightarrow>
      reconcile env s =
        (None, upd_run_status (MarkRunRunning (e_Now env 4) (reason_String TaskGroupRunReasonRunning)
           (run_Name (st_Run s) @ '' running'')) s')"
proof -
  let ?o = "observed tr (prepared meta spec s)"
  have m: "must_cancel (st_Run ?o) tr = must_cancel (st_Run s) tr" by (rule must_cancel_cong) simp
  have c: "must_cancel (st_Run s) tr \<Longrightarrow> \<not> TaskRun_IsDone tr" by (simp add: must_cancel_def)
  have u: "updateTaskRunStatus env (prepared meta spec s) =
       (case processTaskRun env tr ?o of
          (Some err, s') \<Rightarrow>
            ((False, False, Some (Errorf (''error processing TaskRun '' @ om_Name (tr_Meta tr) @ '': '' @ e_goSyntax env err))), s')
        | (None, s') \<Rightarrow> ((TaskRun_IsDone tr, TaskRun_IsDone tr \<and> \<not> TaskRun_IsSuccessful tr, None), s'))"
    using t(3) by (intro updateTaskRunStatus_cases(4)) simp
  note unf = reconcile_valid [OF t(1,2)] u processTaskRun_spec m s'_def after_cancel_def
  show "TaskRun_IsDone tr \<Longrightarrow> TaskRun_IsSuccessful tr \<Longrightarrow> reconcile env s =
      (None, upd_run_status (MarkRunSucceeded (e_Now env 4) (reason_String TaskGroupRunReasonSucceeded) ''TaskRun succeeded'') s')"
    using c unfolding unf by auto
  show "TaskRun_IsDone tr \<Longrightarrow> \<not> TaskRun_IsSuccessful tr \<Longrightarrow> reconcile env s =
      (None, upd_run_status (MarkRunFailed (e_Now env 4) (reason_String TaskGroupRunReasonFailed) ''TaskRun failed'') s')"
    using c unfolding unf by auto
  show "\<exists>err. reconcile env s = (Some err, s')"
    if "must_cancel (st_Run s) tr"
      "e_patchTaskRun env (run_Namespace (st_Run s)) (om_Name (tr_Meta tr)) (e_cancelPatchBytes env) \<noteq> None"
    using that unfolding unf by auto
  show "reconcile env s =
        (None, upd_run_status (MarkRunRunning (e_Now env 4) (reason_String TaskGroupRunReasonRunning)
           (run_Name (st_Run s) @ '' running'')) s')"
    if "\<not> TaskRun_IsDone tr"
      "\<not> (must_cancel (st_Run s) tr \<and>
        e_patchTaskRun env (run_Namespace (st_Run s)) (om_Name (tr_Meta tr)) (e_cancelPatchBytes env) \<noteq> None)"
    using that unfolding unf by (auto simp: reconcile_create_def)
qed

lemma reconcile_error_branch:
  assumes "taskgroup_of env (st_Run s) = Inr (meta, spec)" "valid_spec spec"
    and "listed env (st_Run s) = Inl e \<or> listed env (st_Run s) = Inr (tr # tr' # trs)"
  shows "\<exists>err. reconcile env s = (Some err, prepared meta spec s)"
  using assms(3) by (auto simp: reconcile_valid [OF assms(1,2)] updateTaskRunStatus_cases)

lemma one_TaskRun_cases:
  fixes env s tr
  defines "p \<equiv> e_patchTaskRun env (run_Namespace (st_Run s)) (om_Name (tr_Meta tr)) (e_cancelPatchBytes env)"
  obtains (succeeded) "TaskRun_IsDone tr" "TaskRun_IsSuccessful tr"
  | (failed) "TaskRun_IsDone tr" "\<not> TaskRun_IsSuccessful tr"
  | (unpatched) "must_cancel (st_Run s) tr" "p \<noteq> None"
  | (running) "\<not> TaskRun_IsDone tr" "\<not> (must_cancel (st_Run s) tr \<and> p \<noteq> None)"
  by blast

lemma reconcile_one_state:
  assumes "taskgroup_of env (st_Run s) = Inr (meta, spec)" "valid_spec spec" "listed env (st_Run s) = Inr [tr]"
  shows "\<exists>err f. reconcile env s =
    (err, upd_run_status f (after_cancel env tr (observed tr (prepared meta spec s))))"
proof -
  have i: "s' = upd_run_status (\<lambda>r. r) s'" for s' by (simp add: upd_run_status_def upd_run_def)
  from one_TaskRun_cases [where s = s and env = env and tr = tr] show ?thesis
    by cases (use reconcile_one [OF assms] i in \<open>metis+\<close>)
qed

section \<open>reconcile meets the specification\<close>

lemma after_cancel_effects:
  "st_Effects (after_cancel env tr (observed tr (prepared meta spec s))) =
     st_Effects s @ (if must_cancel (st_Run s) tr
       then [PatchedTaskRun (run_Namespace (st_Run s)) (om_Name (tr_Meta tr)) (e_cancelPatchBytes env)] else [])"
proof -
  have "must_cancel (st_Run (observed tr (prepared meta spec s))) tr = must_cancel (st_Run s) tr"
    by (rule must_cancel_cong) simp
  then show ?thesis by (simp add: after_cancel_def)
qed

lemma create_spec:
  "reconcile_create env meta spec (upd_run_status f (prepared meta spec s)) =
    (let s' = upd_run_status f (prepared meta spec s) in
     if tgs_TaskRun (st_Status s) \<noteq> None then s'
     else (case wanted_spec env (st_Run s) spec of
             Inl err \<Rightarrow> upd_run_status (MarkRunFailed (e_Now env 5) (reason_String TaskGroupRunReasonFailedValidation)
                (cannot_run meta (''failed to create TaskRun: '' @ error_string err))) s'
           | Inr ts \<Rightarrow>
               (case create_result env (st_Run s) meta spec of
                  Inl err \<Rightarrow> upd_run_status (MarkRunFailed (e_Now env 5) (reason_String TaskGroupRunReasonFailedValidation)
                    (cannot_run meta (''failed to create TaskRun: '' @ error_string err)))
                      (add_effect (CreatedTaskRun (wanted_TaskRun env (st_Run s) meta ts)) s')
                | Inr tr \<Rightarrow> (add_effect (CreatedTaskRun (wanted_TaskRun env (st_Run s) meta ts)) s')
                    \<lparr>st_Status := (st_Status s')\<lparr>tgs_TaskRun := Some (tr_Status tr)\<rparr>\<rparr>)))"
  by (subst reconcile_create_spec [where run = "st_Run s"]) (simp_all add: Let_def)

lemma create_result_wanted:
  "wanted_spec env run spec = Inl err \<Longrightarrow> create_result env run meta spec = Inl err"
  by (simp add: create_result_def)

lemma reconcile_effects:
  "st_Effects (snd (reconcile env s)) = st_Effects s @ task_writes env (st_Run s) (st_Status s)"
proof (cases env "st_Run s" rule: reconcile_branches)
  case (missing err)
  then show ?thesis by (simp add: reconcile_missing task_writes_def)
next
  case (invalid meta spec)
  then show ?thesis by (simp add: reconcile_invalid task_writes_def)
next
  case (list_error meta spec err)
  with reconcile_error_branch [of env s meta spec err] show ?thesis by (auto simp: task_writes_def)
next
  case (none meta spec)
  then show ?thesis
    by (simp add: reconcile_none create_spec Let_def task_writes_def split: sum.splits)
next
  case (many meta spec tr tr' trs)
  with reconcile_error_branch [of env s meta spec] show ?thesis by (auto simp: task_writes_def)
next
  case (one meta spec tr)
  obtain err f where "reconcile env s =
      (err, upd_run_status f (after_cancel env tr (observed tr (prepared meta spec s))))"
    using reconcile_one_state [OF one] by blast
  with one show ?thesis by (simp add: after_cancel_effects task_writes_def)
qed

lemma reconcile_status:
  "st_Status (snd (reconcile env s)) = recorded env (st_Run s) (st_Status s)"
proof (cases env "st_Run s" rule: reconcile_branches)
  case (missing err)
  then show ?thesis by (simp add: reconcile_missing recorded_def)
next
  case (invalid meta spec)
  then show ?thesis by (simp add: reconcile_invalid recorded_def)
next
  case (list_error meta spec err)
  with reconcile_error_branch [of env s meta spec err] show ?thesis by (auto simp: recorded_def)
next
  case (none meta spec)
  then show ?thesis
    by (auto simp: reconcile_none create_spec Let_def recorded_def create_result_wanted split: sum.splits option.splits)
next
  case (many meta spec tr tr' trs)
  with reconcile_error_branch [of env s meta spec] show ?thesis by (auto simp: recorded_def)
next
  case (one meta spec tr)
  obtain err f where "reconcile env s =
      (err, upd_run_status f (after_cancel env tr (observed tr (prepared meta spec s))))"
    using reconcile_one_state [OF one] by blast
  with one show ?thesis by (simp add: recorded_def)
qed

lemma reconcile_retries: "fst (reconcile env s) \<noteq> None \<longleftrightarrow> retries env (st_Run s)"
proof (cases env "st_Run s" rule: reconcile_branches)
  case (missing err)
  then show ?thesis by (simp add: reconcile_missing retries_def)
next
  case (invalid meta spec)
  then show ?thesis by (simp add: reconcile_invalid retries_def)
next
  case (list_error meta spec err)
  with reconcile_error_branch [of env s meta spec err] show ?thesis by (auto simp: retries_def)
next
  case (none meta spec)
  then show ?thesis by (simp add: reconcile_none retries_def)
next
  case (many meta spec tr tr' trs)
  with reconcile_error_branch [of env s meta spec] show ?thesis by (auto simp: retries_def)
next
  case (one meta spec tr)
  from one_TaskRun_cases [where s = s and env = env and tr = tr] show ?thesis
    by cases (use reconcile_one [OF one] one in \<open>auto simp: retries_def must_cancel_def\<close>)
qed

lemma prepared_wf [simp]:
  "status_wf (run_Status (st_Run (prepared meta spec s))) = status_wf (run_Status (st_Run s))"
  by simp

lemma Mark_view_run:
  assumes "status_wf (run_Status (st_Run s))"
  shows "run_view (run_Status (st_Run (upd_run_status (MarkRunFailed now re msg) s))) = Some (ConditionFalse, re, msg)"
    "run_view (run_Status (st_Run (upd_run_status (MarkRunSucceeded now re msg) s))) = Some (ConditionTrue, re, msg)"
    "run_view (run_Status (st_Run (upd_run_status (MarkRunRunning now re msg) s))) = Some (ConditionUnknown, re, msg)"
  using assms by simp_all

definition outcome_view ::
    "(string \<times> TaskGroupRunReason \<times> string) option \<Rightarrow> (string \<times> string \<times> string) option \<Rightarrow> (string \<times> string \<times> string) option" where
  "outcome_view out before = (case out of None \<Rightarrow> before | Some (st, re, msg) \<Rightarrow> Some (st, reason_String re, msg))"

lemma reconcile_view:
  assumes wf: "status_wf (run_Status (st_Run s))"
  shows "run_view (run_Status (st_Run (snd (reconcile env s)))) =
    outcome_view (outcome env (st_Run s) (st_Status s)) (run_view (run_Status (st_Run s)))"
proof (cases env "st_Run s" rule: reconcile_branches)
  case (missing err)
  then show ?thesis using wf by (simp add: reconcile_missing outcome_def outcome_view_def)
next
  case (invalid meta spec)
  then show ?thesis using wf by (simp add: reconcile_invalid outcome_def outcome_view_def)
next
  case (list_error meta spec err)
  with reconcile_error_branch [of env s meta spec err] show ?thesis
    by (auto simp: outcome_def outcome_view_def)
next
  case (none meta spec)
  then show ?thesis
    using wf by (auto simp: reconcile_none create_spec Let_def outcome_def outcome_view_def create_result_wanted
        simp del: reason_String.simps split: sum.splits option.splits)
next
  case (many meta spec tr tr' trs)
  with reconcile_error_branch [of env s meta spec] show ?thesis by (auto simp: outcome_def outcome_view_def)
next
  case (one meta spec tr)
  from one_TaskRun_cases [where s = s and env = env and tr = tr] show ?thesis
    by cases (use reconcile_one [OF one] one wf in
      \<open>auto simp: outcome_def outcome_view_def must_cancel_def simp del: reason_String.simps\<close>)
qed

section \<open>What reconcile leaves alone\<close>

definition propagated :: "Env \<Rightarrow> Run \<Rightarrow> ObjectMeta" where
  "propagated env run =
     (case taskgroup_of env run of
        Inl err \<Rightarrow> run_Meta run
      | Inr (meta, spec) \<Rightarrow> run_Meta (propagateTaskGroupLabelsAndAnnotations meta run))"

lemma create_frame:
  "run_Meta (st_Run (reconcile_create env meta spec s)) = run_Meta (st_Run s)"
  "run_Spec (st_Run (reconcile_create env meta spec s)) = run_Spec (st_Run s)"
  "rs_StartTime (run_Status (st_Run (reconcile_create env meta spec s))) = rs_StartTime (run_Status (st_Run s))"
  "rs_ExtraFields (run_Status (st_Run (reconcile_create env meta spec s))) = rs_ExtraFields (run_Status (st_Run s))"
  "status_wf (run_Status (st_Run s)) \<Longrightarrow> status_wf (run_Status (st_Run (reconcile_create env meta spec s)))"
  by (auto simp: reconcile_create_def createTaskRun_spec split: sum.splits prod.splits)

lemma observed_frame:
  "rs_StartTime (run_Status (st_Run (observed tr s))) = rs_StartTime (run_Status (st_Run s))"
  "rs_ExtraFields (run_Status (st_Run (observed tr s))) = rs_ExtraFields (run_Status (st_Run s))"
  by (simp_all add: observed_def Let_def)

lemma reconcile_frame:
  assumes wf: "status_wf (run_Status (st_Run s))"
  shows "run_Meta (st_Run (snd (reconcile env s))) = propagated env (st_Run s) \<and>
    run_Spec (st_Run (snd (reconcile env s))) = run_Spec (st_Run s) \<and>
    rs_StartTime (run_Status (st_Run (snd (reconcile env s)))) = rs_StartTime (run_Status (st_Run s)) \<and>
    rs_ExtraFields (run_Status (st_Run (snd (reconcile env s)))) = rs_ExtraFields (run_Status (st_Run s)) \<and>
    status_wf (run_Status (st_Run (snd (reconcile env s))))"
proof (cases env "st_Run s" rule: reconcile_branches)
  case (missing err)
  then show ?thesis using wf by (simp add: reconcile_missing propagated_def)
next
  case (invalid meta spec)
  then show ?thesis using wf by (simp add: reconcile_invalid propagated_def)
next
  case (list_error meta spec err)
  with reconcile_error_branch [of env s meta spec err] show ?thesis using wf by (auto simp: propagated_def)
next
  case (none meta spec)
  then show ?thesis using wf by (simp add: reconcile_none create_frame propagated_def)
next
  case (many meta spec tr tr' trs)
  with reconcile_error_branch [of env s meta spec] show ?thesis using wf by (auto simp: propagated_def)
next
  case (one meta spec tr)
  from one_TaskRun_cases [where s = s and env = env and tr = tr] show ?thesis
    by cases (use reconcile_one [OF one] one wf in \<open>auto simp: propagated_def observed_frame\<close>)
qed

text \<open>The specification does not look at the status of the Run.\<close>

lemma request_cong:
  assumes "run_Meta r = run_Meta r'" "run_Spec r = run_Spec r'"
  shows "taskgroup_of env r = taskgroup_of env r'" "listed env r = listed env r'"
    "must_cancel r tr = must_cancel r' tr" "wanted_spec env r spec = wanted_spec env r' spec"
    "wanted_TaskRun env r meta ts = wanted_TaskRun env r' meta ts"
    "create_result env r meta spec = create_result env r' meta spec"
proof -
  show "taskgroup_of env r = taskgroup_of env r'" "listed env r = listed env r'" "must_cancel r tr = must_cancel r' tr"
    using assms by (simp_all add: taskgroup_of_def listed_def must_cancel_def Run_IsCancelled_def)
  have w: "wanted_spec env r spec = wanted_spec env r' spec" for spec
    using assms by (intro wanted_spec_cong) simp_all
  have t: "wanted_TaskRun env r meta ts = wanted_TaskRun env r' meta ts" for ts
    unfolding wanted_TaskRun_def using assms
    by (intro new_TaskRun_cong) (simp_all add: propagateTaskGroupLabelsAndAnnotations_def Let_def)
  show "wanted_spec env r spec = wanted_spec env r' spec" by (rule w)
  show "wanted_TaskRun env r meta ts = wanted_TaskRun env r' meta ts" by (rule t)
  show "create_result env r meta spec = create_result env r' meta spec"
    unfolding create_result_def w t ..
qed

lemma spec_cong:
  assumes "run_Meta r = run_Meta r'" "run_Spec r = run_Spec r'"
  shows "task_writes env r st = task_writes env r' st" "outcome env r st = outcome env r' st"
    "recorded env r st = recorded env r' st" "retries env r = retries env r'"
    "propagated env r = propagated env r'"
proof -
  note c = request_cong [OF assms]
  have p: "run_Meta (propagateTaskGroupLabelsAndAnnotations m r) = run_Meta (propagateTaskGroupLabelsAndAnnotations m r')" for m
    using assms by (simp add: propagateTaskGroupLabelsAndAnnotations_def Let_def)
  show "task_writes env r st = task_writes env r' st" unfolding task_writes_def c assms ..
  show "outcome env r st = outcome env r' st" unfolding outcome_def c assms run_path_def ..
  show "recorded env r st = recorded env r' st" unfolding recorded_def c ..
  show "retries env r = retries env r'" unfolding retries_def c assms ..
  show "propagated env r = propagated env r'" unfolding propagated_def c p assms ..
qed

section \<open>ReconcileKind\<close>

definition task_write :: "effect \<Rightarrow> bool" where
  "task_write e = (case e of CreatedTaskRun _ \<Rightarrow> True | PatchedTaskRun _ _ _ \<Rightarrow> True | _ \<Rightarrow> False)"

abbreviation task_writes_of :: "RState \<Rightarrow> effect list" where
  "task_writes_of s \<equiv> filter task_write (st_Effects s)"

lemma task_writes_are [simp]: "filter task_write (task_writes env run st) = task_writes env run st"
  by (auto simp: task_writes_def task_write_def split: sum.splits list.splits prod.splits)

lemma Emit_frame [rstate, simp]:
  "st_Run (Emit env b a s) = st_Run s" "st_Status (Emit env b a s) = st_Status s"
  "task_writes_of (Emit env b a s) = task_writes_of s"
  by (auto simp: Emit_def sendKubernetesEvents_def Let_def task_write_def split: option.splits)

lemma InitializeConditions_frame:
  "rs_ExtraFields (InitializeConditions n0 n1 n2 r) = rs_ExtraFields r"
  by (auto simp: InitializeConditions_def manager_InitializeConditions_def Let_def split: option.splits)

lemma IsUnknown_view: "IsUnknown c \<longleftrightarrow> (case view_of c of None \<Rightarrow> True | Some v \<Rightarrow> fst v = ConditionUnknown)"
  by (cases c) (simp_all add: view_of_def IsUnknown_def)

lemma InitializeConditions_view:
  assumes "status_wf r" "is_zero_time (rs_StartTime r)"
  shows "run_view (InitializeConditions n0 n1 n2 r) =
    Some (case succeeded_of r of None \<Rightarrow> (ConditionUnknown, ''Started'', []) | Some c \<Rightarrow> (cond_Status c, ''Started'', cond_Message c))"
proof -
  let ?r = "manager_InitializeConditions n1 (r\<lparr>rs_StartTime := Some n0\<rparr>)"
  let ?new = "new_condition ConditionSucceeded ConditionUnknown [] []"
  have s: "status_wf (r\<lparr>rs_StartTime := t\<rparr>) = status_wf r" "GetCondition c (r\<lparr>rs_StartTime := t\<rparr>) = GetCondition c r" for t c
    by (simp_all add: status_wf_def GetCondition_def)
  have wf: "status_wf ?r"
    using assms(1) by (auto simp: manager_InitializeConditions_def s run_conds.put_wf split: option.splits)
  obtain c where c: "succeeded_of ?r = Some c" "cond_Type c = ConditionSucceeded"
      "(cond_Status c, cond_Message c) =
        (case succeeded_of r of None \<Rightarrow> (ConditionUnknown, []) | Some c \<Rightarrow> (cond_Status c, cond_Message c))"
  proof (cases "succeeded_of r")
    case None
    with run_conds.get_put [of "r\<lparr>rs_StartTime := Some n0\<rparr>" ?new n1] assms(1)
    show ?thesis using that by (auto simp: manager_InitializeConditions_def s)
  next
    case (Some c)
    then show ?thesis using that by (auto simp: manager_InitializeConditions_def s GetCondition_def dest: conds_Get_Some)
  qed
  have "InitializeConditions n0 n1 n2 r = SetCondition n2 (c\<lparr>cond_Reason := ''Started''\<rparr>) ?r"
    using assms(2) c(1) by (simp add: InitializeConditions_def Let_def)
  with run_conds.view_put [OF wf, of "c\<lparr>cond_Reason := ''Started''\<rparr>" n2] c(2,3) show ?thesis
    by (auto split: option.splits)
qed

text \<open>The state in which \<open>reconcile\<close> is entered: the Run is started and its status decoded.\<close>

definition entry :: "Env \<Rightarrow> Run \<Rightarrow> RState" where
  "entry env run =
     (let s = \<lparr>st_Run = run, st_Status = empty_run_status, st_Effects = []\<rparr>
      in decode_status env (if \<not> Run_HasStarted run then start_run env s else s))"

definition decoded :: "Env \<Rightarrow> Run \<Rightarrow> TaskGroupRunStatus" where
  "decoded env run = fst (DecodeExtraFields env (run_Status run))"

definition active :: "Run \<Rightarrow> bool" where
  "active run \<longleftrightarrow> references_TaskGroup run \<and> \<not> Run_IsDone run"

lemma start_run_frame [rstate]:
  assumes "status_wf (run_Status (st_Run s))"
  shows "run_Meta (st_Run (start_run env s)) = run_Meta (st_Run s)"
    "run_Spec (st_Run (start_run env s)) = run_Spec (st_Run s)"
    "st_Status (start_run env s) = st_Status s"
    "rs_ExtraFields (run_Status (st_Run (start_run env s))) = rs_ExtraFields (run_Status (st_Run s))"
    "status_wf (run_Status (st_Run (start_run env s)))"
    "task_writes_of (start_run env s) = task_writes_of s"
    "run_view (run_Status (st_Run (start_run env s))) =
       run_view (InitializeConditions (e_Now env 0) (e_Now env 1) (e_Now env 2) (run_Status (st_Run s)))"
proof -
  have t: "status_wf (r\<lparr>rs_StartTime := t\<rparr>) = status_wf r" "GetCondition c (r\<lparr>rs_StartTime := t\<rparr>) = GetCondition c r" for r t c
    by (simp_all add: status_wf_def GetCondition_def)
  note i = InitializeConditions_wf [OF assms] InitializeConditions_frame
  show "run_Meta (st_Run (start_run env s)) = run_Meta (st_Run s)"
    "run_Spec (st_Run (start_run env s)) = run_Spec (st_Run s)"
    "st_Status (start_run env s) = st_Status s" "task_writes_of (start_run env s) = task_writes_of s"
    by (auto simp: start_run_def Let_def split: option.splits)
  show "rs_ExtraFields (run_Status (st_Run (start_run env s))) = rs_ExtraFields (run_Status (st_Run s))"
    by (auto simp: start_run_def Let_def i split: option.splits)
  show "status_wf (run_Status (st_Run (start_run env s)))"
    by (auto simp: start_run_def Let_def i t split: option.splits)
  show "run_view (run_Status (st_Run (start_run env s))) =
       run_view (InitializeConditions (e_Now env 0) (e_Now env 1) (e_Now env 2) (run_Status (st_Run s)))"
    by (auto simp: start_run_def Let_def t split: option.splits)
qed

lemma not_started_zero: "\<not> Run_HasStarted run \<longleftrightarrow> is_zero_time (rs_StartTime (run_Status run))"
  by (auto simp: Run_HasStarted_def is_zero_time_def)

lemma start_run_done:
  assumes "status_wf (run_Status run)" "\<not> Run_HasStarted run"
  shows "Run_IsDone (st_Run (start_run env \<lparr>st_Run = run, st_Status = st, st_Effects = es\<rparr>)) \<longleftrightarrow> Run_IsDone run"
proof -
  let ?s = "\<lparr>st_Run = run, st_Status = st, st_Effects = es\<rparr>"
  have z: "is_zero_time (rs_StartTime (run_Status run))" using assms(2) by (simp only: not_started_zero)
  have "run_view (run_Status (st_Run (start_run env ?s))) =
      Some (case succeeded_of (run_Status run) of None \<Rightarrow> (ConditionUnknown, ''Started'', [])
        | Some c \<Rightarrow> (cond_Status c, ''Started'', cond_Message c))"
    using start_run_frame(7) [of ?s env] assms(1) InitializeConditions_view [OF assms(1) z] by simp
  then show ?thesis
    by (auto simp: Run_IsDone_def dest!: view_of_Some split: option.splits) (simp_all add: IsUnknown_def)
qed

lemma decode_frame [rstate]:
  assumes "status_wf (run_Status (st_Run s))"
  shows "run_Meta (st_Run (decode_status env s)) = run_Meta (st_Run s)"
    "run_Spec (st_Run (decode_status env s)) = run_Spec (st_Run s)"
    "st_Status (decode_status env s) = fst (DecodeExtraFields env (run_Status (st_Run s)))"
    "status_wf (run_Status (st_Run (decode_status env s)))"
    "st_Effects (decode_status env s) = st_Effects s"
    "snd (DecodeExtraFields env (run_Status (st_Run s))) = None \<Longrightarrow> st_Run (decode_status env s) = st_Run s"
  using assms by (auto simp: decode_status_def split: prod.splits option.splits)

lemma entry_frame:
  assumes wf: "status_wf (run_Status run)"
  shows "run_Meta (st_Run (entry env run)) = run_Meta run" "run_Spec (st_Run (entry env run)) = run_Spec run"
    "st_Status (entry env run) = decoded env run" "status_wf (run_Status (st_Run (entry env run)))"
    "task_writes_of (entry env run) = []"
proof -
  let ?s = "\<lparr>st_Run = run, st_Status = empty_run_status, st_Effects = []\<rparr>"
  have w: "status_wf (run_Status (st_Run ?s))" using wf by simp
  note f = start_run_frame [OF w, of env]
  have d: "fst (DecodeExtraFields env r) = fst (DecodeExtraFields env r')" if "rs_ExtraFields r = rs_ExtraFields r'" for r r'
    using that by (simp add: DecodeExtraFields_def)
  show "run_Meta (st_Run (entry env run)) = run_Meta run" "run_Spec (st_Run (entry env run)) = run_Spec run"
    "status_wf (run_Status (st_Run (entry env run)))" "task_writes_of (entry env run) = []"
    using w f by (simp_all add: entry_def Let_def decode_frame)
  show "st_Status (entry env run) = decoded env run"
    using w f d [OF f(4)] by (simp add: entry_def Let_def decode_frame decoded_def)
qed

lemma updateLabels_frame [rstate, simp]:
  "st_Run (snd (updateLabelsAndAnnotations env s)) = st_Run s"
  "st_Status (snd (updateLabelsAndAnnotations env s)) = st_Status s"
  "task_writes_of (snd (updateLabelsAndAnnotations env s)) = task_writes_of s"
  by (auto simp: updateLabelsAndAnnotations_def Let_def task_write_def split: sum.splits)

lemma encode_frame [rstate, simp]:
  "run_Meta (st_Run (encode_status env s)) = run_Meta (st_Run s)"
  "run_Spec (st_Run (encode_status env s)) = run_Spec (st_Run s)"
  "st_Status (encode_status env s) = st_Status s" "st_Effects (encode_status env s) = st_Effects s"
  "rs_StartTime (run_Status (st_Run (encode_status env s))) = rs_StartTime (run_Status (st_Run s))"
  by (auto simp: encode_status_def EncodeExtraFields_def split: sum.splits)

lemma ReconcileKind_active:
  assumes "status_wf (run_Status run)" "active run"
  shows "ReconcileKind env run =
    (let before = succeeded_of (run_Status (st_Run
             (if \<not> Run_HasStarted run
              then start_run env \<lparr>st_Run = run, st_Status = empty_run_status, st_Effects = []\<rparr>
              else \<lparr>st_Run = run, st_Status = empty_run_status, st_Effects = []\<rparr>)));
         (err1, s1) = reconcile env (entry env run);
         (err2, s2) = updateLabelsAndAnnotations env s1;
         s3 = encode_status env s2
     in (opt_list err1 @ opt_list err2, Emit env before (succeeded_of (run_Status (st_Run s3))) s3))"
  using assms start_run_done [OF assms(1)]
  by (auto simp: ReconcileKind_def reconcile_active_def active_def entry_def Let_def split: prod.splits)

lemma ReconcileKind_inactive:
  assumes "status_wf (run_Status run)" "\<not> active run"
  shows "fst (ReconcileKind env run) = []" "task_writes_of (snd (ReconcileKind env run)) = []"
    "run_Meta (st_Run (snd (ReconcileKind env run))) = run_Meta run"
  using assms start_run_done [OF assms(1)] start_run_frame [of "\<lparr>st_Run = run, st_Status = empty_run_status, st_Effects = []\<rparr>" env]
  by (auto simp: ReconcileKind_def active_def Let_def)

end
