(* ===== verification/Reconcile_Properties.thy ===== *)
theory Reconcile_Properties
  imports Reconcile_Spec Examples
begin

text \<open>
  The properties of \<open>pkg/reconciler/taskgroup\<close>: what one call of \<open>ReconcileKind\<close> writes, how the Run ends, what
  is retried, what is recorded. They hold of the Run that \<open>ReconcileKind\<close> is given, after \<open>PreProcessReconcile\<close>.
\<close>

section \<open>The final state\<close>

abbreviation final :: "Env \<Rightarrow> Run \<Rightarrow> RState" where
  "final env run \<equiv> snd (ReconcileKind env run)"

abbreviation final_status :: "Env \<Rightarrow> Run \<Rightarrow> RunStatus" where
  "final_status env run \<equiv> run_Status (st_Run (final env run))"

lemma encode_cong:
  assumes "st_Run s = st_Run s'" "st_Status s = st_Status s'"
  shows "st_Run (encode_status env s) = st_Run (encode_status env s')"
  using assms by (auto simp: encode_status_def upd_run_status_def split: prod.splits option.splits)

lemma encode_result:
  "e_encodeStatus env (st_Status s) = Inr data \<Longrightarrow>
     run_Status (st_Run (encode_status env s)) = (run_Status (st_Run s))\<lparr>rs_ExtraFields := data\<rparr>"
  "e_encodeStatus env (st_Status s) = Inl err \<Longrightarrow>
     run_Status (st_Run (encode_status env s)) =
       MarkRunFailed (e_Now env 6) (reason_String TaskGroupRunReasonInternalError)
         (''Internal error calling EncodeExtraFields: '' @ error_string err) (run_Status (st_Run s))"
  by (simp_all add: encode_status_def EncodeExtraFields_def)

lemma final_active:
  fixes env run
  assumes "status_wf (run_Status run)" "active run"
  defines "s1 \<equiv> snd (reconcile env (entry env run))"
  shows "task_writes_of (final env run) = task_writes env run (decoded env run)"
    and "st_Status (final env run) = recorded env run (decoded env run)"
    and "run_Meta (st_Run (final env run)) = propagated env run"
    and "run_Spec (st_Run (final env run)) = run_Spec run"
    and "final_status env run = run_Status (st_Run (encode_status env s1))"
    and "fst (ReconcileKind env run) =
      opt_list (fst (reconcile env (entry env run))) @ opt_list (fst (updateLabelsAndAnnotations env s1))"
proof -
  note e = entry_frame [OF assms(1), of env]
  note c = spec_cong [OF e(1,2)]
  note f = reconcile_frame [OF e(4), of env]
  have s1: "task_writes_of s1 = task_writes env run (decoded env run)"
    "st_Status s1 = recorded env run (decoded env run)"
    "run_Meta (st_Run s1) = propagated env run" "run_Spec (st_Run s1) = run_Spec run"
    unfolding s1_def using f e(2,3,5) c by (auto simp: reconcile_effects reconcile_status)
  show "task_writes_of (final env run) = task_writes env run (decoded env run)"
    "st_Status (final env run) = recorded env run (decoded env run)"
    "run_Meta (st_Run (final env run)) = propagated env run"
    "run_Spec (st_Run (final env run)) = run_Spec run"
    using s1 by (simp_all add: ReconcileKind_active [OF assms(1,2)] Let_def case_prod_unfold s1_def)
  show "final_status env run = run_Status (st_Run (encode_status env s1))"
    using encode_cong [of "snd (updateLabelsAndAnnotations env s1)" s1 env]
    by (simp add: ReconcileKind_active [OF assms(1,2)] Let_def case_prod_unfold s1_def)
  show "fst (ReconcileKind env run) =
      opt_list (fst (reconcile env (entry env run))) @ opt_list (fst (updateLabelsAndAnnotations env s1))"
    by (simp add: ReconcileKind_active [OF assms(1,2)] Let_def case_prod_unfold s1_def)
qed

lemma status_wf_extra [simp]: "status_wf (r\<lparr>rs_ExtraFields := d\<rparr>) = status_wf r"
  "GetCondition t (r\<lparr>rs_ExtraFields := d\<rparr>) = GetCondition t r"
  by (simp_all add: status_wf_def GetCondition_def)

lemma final_view:
  assumes "status_wf (run_Status run)" "active run"
    and "e_encodeStatus env (recorded env run (decoded env run)) = Inr data"
  shows "run_view (final_status env run) =
      outcome_view (outcome env run (decoded env run)) (run_view (run_Status (st_Run (entry env run))))"
    and "rs_ExtraFields (final_status env run) = data"
proof -
  note e = entry_frame [OF assms(1), of env]
  have st: "st_Status (snd (reconcile env (entry env run))) = recorded env run (decoded env run)"
    by (simp only: reconcile_status e(3) spec_cong(3) [OF e(1,2)])
  have f: "final_status env run = (run_Status (st_Run (snd (reconcile env (entry env run)))))\<lparr>rs_ExtraFields := data\<rparr>"
    by (simp only: final_active(5) [OF assms(1,2)]) (rule encode_result(1), simp only: st assms(3))
  show "rs_ExtraFields (final_status env run) = data" by (simp only: f) simp
  show "run_view (final_status env run) =
      outcome_view (outcome env run (decoded env run)) (run_view (run_Status (st_Run (entry env run))))"
    using reconcile_view [OF e(4), of env] by (simp add: f e(3) spec_cong(2) [OF e(1,2)])
qed

lemma final_wf:
  assumes "status_wf (run_Status run)"
  shows "status_wf (final_status env run)"
proof (cases "active run")
  case True
  have "status_wf (run_Status (st_Run (snd (reconcile env (entry env run)))))"
    using reconcile_frame entry_frame(4) [OF assms] by blast
  then show ?thesis
    unfolding final_active(5) [OF assms True]
    by (cases "e_encodeStatus env (st_Status (snd (reconcile env (entry env run))))")
      (simp_all add: encode_result)
next
  case False
  then show ?thesis
    using assms start_run_done [OF assms] start_run_frame [of "\<lparr>st_Run = run, st_Status = empty_run_status, st_Effects = []\<rparr>" env]
    by (auto simp: ReconcileKind_def active_def Let_def)
qed

lemma view_done:
  "run_view r = Some (st, re, msg) \<Longrightarrow> IsUnknown (succeeded_of r) \<longleftrightarrow> st = ConditionUnknown"
  by (drule view_of_Some) simp

section \<open>The example run\<close>

lemma ex_active [simp]: "active ex_run"
  by (simp add: active_def)

abbreviation ex_meta :: ObjectMeta where
  "ex_meta \<equiv> empty_meta\<lparr>om_Name := ''group'', om_Namespace := ''ns''\<rparr>"

abbreviation ex_wanted :: TaskSpec where
  "ex_wanted \<equiv> fst (resolve_TaskSpec ex_merger (\<lambda>m. m) ex_group ex_used)"

lemma ex_taskgroup [simp]: "taskgroup_of (ex_env trs) ex_run = Inr (ex_meta, ex_group)"
  by (simp add: taskgroup_of_def ex_env_def ex_run_def)

lemma ex_listed [simp]: "listed (ex_env trs) ex_run = Inr trs"
  by (simp add: listed_def ex_env_def)

lemma ex_decoded [simp]: "decoded (ex_env trs) ex_run = empty_run_status"
  by (simp add: decoded_def DecodeExtraFields_def ex_run_def empty_RunStatus_def)

lemma ex_encode [simp]: "e_encodeStatus (ex_env trs) st = Inr ''encoded''"
  by (simp add: ex_env_def)

lemma ex_wanted_spec [simp]: "wanted_spec (ex_env trs) ex_run ex_group = Inr ex_wanted"
proof -
  have "TaskSpec_SetDefaults ex_task = ex_task" by code_simp
  then have "fetchUsesTaskSpec (ex_env trs) ex_group ex_run = Inr ex_used"
    by (simp add: fetchUsesTaskSpec_def go_defs GetTaskFunc_def GetTaskData_def LocalTaskRefResolver_GetTask_def
        NamespacedTaskKind_def ClusterTaskKind_def)
  then show ?thesis
    using ex_group_ok by (auto simp: wanted_spec_def ex_env_def split: prod.splits option.splits)
qed

lemma empty_run_status_sel [simp]: "tgs_TaskRun empty_run_status = None" "tgs_TaskGroupSpec empty_run_status = None"
  by (simp_all add: empty_run_status_def)

section \<open>What a reconcile writes\<close>

text \<open>The TaskRuns that a reconcile creates or patches are exactly those of the specification
  \<open>task_writes\<close>: none unless the Run refers to a TaskGroup and is not done; otherwise one creation, when
  the group is valid, no TaskRun is listed and none is recorded, or one cancellation patch.\<close>

theorem ReconcileKind_task_writes:
  assumes "status_wf (run_Status run)"
  shows "task_writes_of (snd (ReconcileKind env run)) =
    (if active run then task_writes env run (decoded env run) else [])"
  using final_active(1) [OF assms] ReconcileKind_inactive(2) [OF assms] by simp

theorem ReconcileKind_task_writes_witness:
  "task_writes_of (snd (ReconcileKind (ex_env []) ex_run)) =
     [CreatedTaskRun (wanted_TaskRun (ex_env []) ex_run ex_meta ex_wanted)]"
  by (subst ReconcileKind_task_writes) (simp_all add: task_writes_def)

lemma task_write_simps [simp]: "task_write (CreatedTaskRun tr)" "task_write (PatchedTaskRun a b c)"
  by (simp_all add: task_write_def)

lemma task_writes_created:
  "CreatedTaskRun tr \<in> set (task_writes env run st) \<longleftrightarrow>
     tgs_TaskRun st = None \<and> listed env run = Inr [] \<and>
     (\<exists>meta spec ts. taskgroup_of env run = Inr (meta, spec) \<and> valid_spec spec \<and>
       wanted_spec env run spec = Inr ts \<and> tr = wanted_TaskRun env run meta ts)"
proof (cases env run rule: reconcile_branches)
  case (none meta spec)
  then show ?thesis by (cases "wanted_spec env run spec") (auto simp: task_writes_def)
qed (auto simp: task_writes_def)

lemma task_writes_patched:
  "PatchedTaskRun ns n p \<in> set (task_writes env run st) \<longleftrightarrow>
     (\<exists>meta spec tr. taskgroup_of env run = Inr (meta, spec) \<and> valid_spec spec \<and>
       listed env run = Inr [tr] \<and> must_cancel run tr \<and>
       ns = run_Namespace run \<and> n = om_Name (tr_Meta tr) \<and> p = e_cancelPatchBytes env)"
  by (cases env run rule: reconcile_branches) (auto simp: task_writes_def split: sum.splits)

lemma written_iff:
  assumes "status_wf (run_Status run)" "task_write e"
  shows "e \<in> set (st_Effects (final env run)) \<longleftrightarrow> active run \<and> e \<in> set (task_writes env run (decoded env run))"
proof -
  have "e \<in> set (st_Effects (final env run)) \<longleftrightarrow> e \<in> set (task_writes_of (final env run))"
    using assms(2) by simp
  then show ?thesis
    using final_active(1) [OF assms(1), of env] ReconcileKind_inactive(2) [OF assms(1), of env]
    by (cases "active run") auto
qed

lemma created_iff:
  assumes "status_wf (run_Status run)"
  shows "CreatedTaskRun tr \<in> set (st_Effects (final env run)) \<longleftrightarrow>
    active run \<and> tgs_TaskRun (decoded env run) = None \<and> listed env run = Inr [] \<and>
    (\<exists>meta spec ts. taskgroup_of env run = Inr (meta, spec) \<and> valid_spec spec \<and>
       wanted_spec env run spec = Inr ts \<and> tr = wanted_TaskRun env run meta ts)"
  using written_iff [OF assms, of "CreatedTaskRun tr" env] by (simp only: task_writes_created task_write_simps simp_thms)

lemma patched_iff:
  assumes "status_wf (run_Status run)"
  shows "PatchedTaskRun ns n p \<in> set (st_Effects (final env run)) \<longleftrightarrow>
    active run \<and> (\<exists>meta spec tr. taskgroup_of env run = Inr (meta, spec) \<and> valid_spec spec \<and>
      listed env run = Inr [tr] \<and> must_cancel run tr \<and>
      ns = run_Namespace run \<and> n = om_Name (tr_Meta tr) \<and> p = e_cancelPatchBytes env)"
  using written_iff [OF assms, of "PatchedTaskRun ns n p" env] by (simp only: task_writes_patched task_write_simps simp_thms)

definition creation :: "effect \<Rightarrow> bool" where
  "creation e \<longleftrightarrow> (\<exists>tr. e = CreatedTaskRun tr)"

lemma creation_simps [simp, code]:
  "creation (CreatedTaskRun tr)" "\<not> creation (PatchedTaskRun a b c)" "\<not> creation (PatchedRun a b c)"
  "\<not> creation (KubeEvent a b c)" "\<not> creation CloudEvent"
  by (simp_all add: creation_def)

lemma creations_bound:
  assumes "status_wf (run_Status run)"
  shows "length (filter creation (st_Effects (final env run))) \<le> 1"
proof -
  have "length (filter creation es) \<le> length (filter task_write es)" for es
    by (induction es) (auto simp: creation_def)
  from this [of "st_Effects (final env run)"]
  have "length (filter creation (st_Effects (final env run))) \<le> length (task_writes_of (final env run))" .
  also have "\<dots> \<le> 1"
  proof (cases "active run")
    case True
    have "length (task_writes env run st) \<le> 1" for st
      by (cases env run rule: reconcile_branches) (auto simp: task_writes_def split: sum.splits)
    then show ?thesis by (simp only: final_active(1) [OF assms True])
  next
    case False
    show ?thesis by (simp only: ReconcileKind_inactive(2) [OF assms False]) simp
  qed
  finally show ?thesis .
qed

text \<open>A reconcile creates at most one TaskRun, and only for an active Run for which neither the
  lister knows a TaskRun nor the recorded status has one; its spec is then the merge of the TaskGroup
  and the tasks it uses.\<close>

theorem ReconcileKind_creates_at_most_one:
  assumes "status_wf (run_Status run)"
  shows "length (filter creation (st_Effects (snd (ReconcileKind env run)))) \<le> 1 \<and>
    {tr. CreatedTaskRun tr \<in> set (st_Effects (snd (ReconcileKind env run)))} \<subseteq>
    {tr. active run \<and> listed env run = Inr [] \<and> tgs_TaskRun (decoded env run) = None \<and>
      (\<exists>meta spec used. taskgroup_of env run = Inr (meta, spec) \<and> valid_spec spec \<and>
        fetchUsesTaskSpec env spec run = Inr used \<and>
        trs_TaskSpec (tr_Spec tr) = Some (merged_spec (e_merger env) (e_order env) spec used))}"
proof (intro conjI subsetI CollectI; (drule CollectD)?)
  show "length (filter creation (st_Effects (final env run))) \<le> 1" by (rule creations_bound [OF assms])
next
  fix tr
  assume "CreatedTaskRun tr \<in> set (st_Effects (final env run))"
  then obtain meta spec ts where c: "active run" "tgs_TaskRun (decoded env run) = None" "listed env run = Inr []"
      "taskgroup_of env run = Inr (meta, spec)" "valid_spec spec" "wanted_spec env run spec = Inr ts"
      "tr = wanted_TaskRun env run meta ts"
    using created_iff [OF assms] by blast
  then obtain used where u: "fetchUsesTaskSpec env spec run = Inr used"
      "resolve_TaskSpec (e_merger env) (e_order env) spec used = (ts, None)"
    by (auto simp: wanted_spec_def split: sum.splits prod.splits option.splits)
  with resolve_TaskSpec_fst [of "e_merger env" "e_order env" spec used]
  have "ts = merged_spec (e_merger env) (e_order env) spec used" by simp
  with c u(1) have x: "active run \<and> listed env run = Inr [] \<and> tgs_TaskRun (decoded env run) = None \<and>
      (\<exists>meta spec used. taskgroup_of env run = Inr (meta, spec) \<and> valid_spec spec \<and>
        fetchUsesTaskSpec env spec run = Inr used \<and>
        trs_TaskSpec (tr_Spec tr) = Some (merged_spec (e_merger env) (e_order env) spec used))"
    by (auto simp: wanted_TaskRun_def new_TaskRun_def)
  from x show "active run" "listed env run = Inr []" "tgs_TaskRun (decoded env run) = None"
    "\<exists>meta spec used. taskgroup_of env run = Inr (meta, spec) \<and> valid_spec spec \<and>
        fetchUsesTaskSpec env spec run = Inr used \<and>
        trs_TaskSpec (tr_Spec tr) = Some (merged_spec (e_merger env) (e_order env) spec used)"
    by blast+
qed

lemma ex_created:
  "CreatedTaskRun (wanted_TaskRun (ex_env []) ex_run ex_meta ex_wanted) \<in> set (st_Effects (final (ex_env []) ex_run))"
  by (subst created_iff) auto

theorem ReconcileKind_creates_at_most_one_witness:
  "tgs_TaskRun (decoded (ex_env []) ex_run) = None \<and> listed (ex_env []) ex_run = Inr []"
  using ReconcileKind_creates_at_most_one [OF ex_run_wf, of "ex_env []"] ex_created by blast

section \<open>The created TaskRun\<close>

text \<open>\<open>labels.SelectorFromSet\<close>: every label of the set is present with its value.\<close>

definition selector_matches :: "string gomap \<Rightarrow> string gomap option \<Rightarrow> bool" where
  "selector_matches sel labels \<longleftrightarrow> list_all (\<lambda>(k, v). map_of (nil_map labels) k = Some v) sel"

lemma wanted_TaskRun_selected:
  "selector_matches (getTaskRunLabels run False) (om_Labels (tr_Meta (wanted_TaskRun env run meta ts)))"
  by (simp add: selector_matches_def getTaskRunLabels_False nil_map_def wanted_TaskRun_def new_TaskRun_def)
    (simp add: getTaskRunLabels_def)

lemma created_meta:
  assumes "status_wf (run_Status run)" "CreatedTaskRun tr \<in> set (st_Effects (final env run))"
  shows "om_Namespace (tr_Meta tr) = run_Namespace run" "om_OwnerReferences (tr_Meta tr) = [NewControllerRef run]"
  using assms(2) unfolding created_iff [OF assms(1)]
  by (auto simp: wanted_TaskRun_def new_TaskRun_def NewControllerRef_def)

lemma RestrictLength_bound:
  "length (rand 5) = 5 \<Longrightarrow> length (RestrictLengthWithRandomSuffix rand base) \<le> 63"
  by (simp add: RestrictLengthWithRandomSuffix_def randomLength_def maxGeneratedNameLength_def maxNameLength_def Let_def)

text \<open>C15. The TaskRun that a reconcile creates is found again by every later reconcile of the Run: it lies
  in the namespace of the Run and its labels match the selector with which the TaskRuns of the Run are
  listed, whatever labels were propagated to it. The Run is its controller, and its name has at most 63
  bytes.\<close>

theorem created_TaskRun_is_selected:
  assumes "status_wf (run_Status run)" "length (e_rand env 5) = 5"
    and "CreatedTaskRun tr \<in> set (st_Effects (snd (ReconcileKind env run)))"
  shows "om_Namespace (tr_Meta tr) = run_Namespace run \<and>
    selector_matches (getTaskRunLabels run False) (om_Labels (tr_Meta tr)) \<and>
    om_OwnerReferences (tr_Meta tr) = [NewControllerRef run] \<and>
    length (om_Name (tr_Meta tr)) \<le> 63 \<and>
    prefix (take 57 (run_Name run)) (om_Name (tr_Meta tr))"
proof -
  obtain meta ts where tr: "tr = wanted_TaskRun env run meta ts"
    using assms(3) unfolding created_iff [OF assms(1)] by blast
  have "prefix (take 57 (run_Name run)) (RestrictLengthWithRandomSuffix (e_rand env) (run_Name run))"
    by (simp add: RestrictLengthWithRandomSuffix_def randomLength_def maxGeneratedNameLength_def maxNameLength_def Let_def)
  moreover have "length (RestrictLengthWithRandomSuffix (e_rand env) (run_Name run)) \<le> 63"
    using assms(2) by (rule RestrictLength_bound)
  moreover have "om_Name (tr_Meta tr) = RestrictLengthWithRandomSuffix (e_rand env) (run_Name run)"
    "om_Namespace (tr_Meta tr) = run_Namespace run" "om_OwnerReferences (tr_Meta tr) = [NewControllerRef run]"
    by (simp_all add: tr wanted_TaskRun_def new_TaskRun_def NewControllerRef_def empty_meta_def)
  ultimately show ?thesis using wanted_TaskRun_selected [of run env meta ts] by (simp add: tr)
qed

theorem created_TaskRun_is_selected_witness:
  "length (om_Name (tr_Meta (wanted_TaskRun (ex_env []) ex_run ex_meta ex_wanted))) \<le> 63"
  using created_TaskRun_is_selected [OF ex_run_wf _ ex_created] by (simp add: ex_env_def)

section \<open>A Run never gets a second TaskRun\<close>

lemma final_done_or_recorded:
  assumes wf: "status_wf (run_Status run)" and c: "CreatedTaskRun tr \<in> set (st_Effects (final env run))"
    and enc: "e_encodeStatus env (recorded env run (decoded env run)) = Inr data"
  shows "tgs_TaskRun (recorded env run (decoded env run)) \<noteq> None \<or> Run_IsDone (st_Run (final env run))"
proof -
  obtain meta spec ts where cr: "active run" "tgs_TaskRun (decoded env run) = None" "listed env run = Inr []"
      "taskgroup_of env run = Inr (meta, spec)" "valid_spec spec" "wanted_spec env run spec = Inr ts"
    using c unfolding created_iff [OF wf] by blast
  show ?thesis
  proof (cases "create_result env run meta spec")
    case (Inl err)
    with cr have "outcome env run (decoded env run) = Some (ConditionFalse, TaskGroupRunReasonFailedValidation,
        cannot_run meta (''failed to create TaskRun: '' @ error_string err))"
      by (simp add: outcome_def)
    with final_view(1) [OF wf cr(1) enc] have "run_view (final_status env run) =
        Some (ConditionFalse, reason_String TaskGroupRunReasonFailedValidation,
          cannot_run meta (''failed to create TaskRun: '' @ error_string err))"
      by (simp add: outcome_view_def)
    from view_done [OF this] show ?thesis by (simp add: Run_IsDone_def)
  next
    case (Inr tr')
    with cr show ?thesis by (simp add: recorded_def)
  qed
qed

section \<open>Cancellation and the end of a Run\<close>

text \<open>C14. A TaskRun is patched with the cancellation exactly when the active Run is cancelled, its
  TaskGroup is found and valid, exactly one TaskRun is listed for it, and this TaskRun is neither done
  nor cancelled already.\<close>

theorem ReconcileKind_cancels_iff:
  assumes "status_wf (run_Status run)"
  shows "PatchedTaskRun ns n p \<in> set (st_Effects (snd (ReconcileKind env run))) \<longleftrightarrow>
    active run \<and> Run_IsCancelled run \<and>
    (\<exists>meta spec tr. taskgroup_of env run = Inr (meta, spec) \<and> valid_spec spec \<and> listed env run = Inr [tr] \<and>
      \<not> TaskRun_IsDone tr \<and> \<not> TaskRun_IsCancelled tr \<and>
      ns = run_Namespace run \<and> n = om_Name (tr_Meta tr) \<and> p = e_cancelPatchBytes env)"
  unfolding patched_iff [OF assms] must_cancel_def by blast

definition ex_cancelled :: Run where
  "ex_cancelled = ex_run\<lparr>run_Spec := (run_Spec ex_run)\<lparr>rsp_Status := RunSpecStatusCancelled\<rparr>\<rparr>"

lemma ex_cancelled_sel [simp]:
  "run_Meta ex_cancelled = run_Meta ex_run" "run_Status ex_cancelled = run_Status ex_run"
  "rsp_Ref (run_Spec ex_cancelled) = rsp_Ref (run_Spec ex_run)" "rsp_Spec (run_Spec ex_cancelled) = rsp_Spec (run_Spec ex_run)"
  "rsp_Status (run_Spec ex_cancelled) = RunSpecStatusCancelled"
  by (simp_all add: ex_cancelled_def)

lemma ex_cancelled_facts [simp]:
  "active ex_cancelled" "taskgroup_of (ex_env trs) ex_cancelled = Inr (ex_meta, ex_group)"
  "listed (ex_env trs) ex_cancelled = Inr trs"
proof -
  have "references_TaskGroup ex_cancelled" "\<not> Run_IsDone ex_cancelled" by code_simp+
  then show "active ex_cancelled" by (simp add: active_def)
  show "taskgroup_of (ex_env trs) ex_cancelled = Inr (ex_meta, ex_group)"
    by (simp add: taskgroup_of_def ex_cancelled_def ex_env_def ex_run_def)
  show "listed (ex_env trs) ex_cancelled = Inr trs"
    by (simp add: listed_def ex_env_def)
qed

theorem ReconcileKind_cancels_iff_witness:
  "PatchedTaskRun ''ns'' (om_Name (tr_Meta (ex_taskrun ConditionUnknown))) ''cancel'' \<in>
     set (st_Effects (snd (ReconcileKind (ex_env [ex_taskrun ConditionUnknown]) ex_cancelled)))"
proof -
  have d: "\<not> TaskRun_IsDone (ex_taskrun ConditionUnknown)" "\<not> TaskRun_IsCancelled (ex_taskrun ConditionUnknown)"
    by code_simp+
  have n: "run_Namespace ex_run = ''ns''" "e_cancelPatchBytes (ex_env trs) = ''cancel''" for trs
    by (simp_all add: ex_run_def ex_env_def)
  show ?thesis
    by (subst ReconcileKind_cancels_iff) (simp_all add: Run_IsCancelled_def d n)
qed

text \<open>C6. The \<open>Succeeded\<close> condition with which an active Run leaves a reconcile is the specified outcome:
  False with reason \<open>CouldntGetTaskGroup\<close>, \<open>TaskGroupValidationFailed\<close> or \<open>Failed\<close>, True with reason
  \<open>Succeeded\<close>, Unknown with reason \<open>Running\<close>, or unchanged where an API error is to be retried.\<close>

theorem ReconcileKind_outcome:
  assumes "status_wf (run_Status run)" "active run"
    and "e_encodeStatus env (recorded env run (decoded env run)) = Inr data"
  shows "run_view (run_Status (st_Run (snd (ReconcileKind env run)))) =
    outcome_view (outcome env run (decoded env run)) (run_view (run_Status (st_Run (entry env run))))"
  by (rule final_view(1) [OF assms])

lemma ex_taskrun_done [simp]:
  "TaskRun_IsDone (ex_taskrun ConditionTrue)" "TaskRun_IsSuccessful (ex_taskrun ConditionTrue)"
  "TaskRun_IsDone (ex_taskrun ConditionFalse)" "\<not> TaskRun_IsSuccessful (ex_taskrun ConditionFalse)"
  by code_simp+

theorem ReconcileKind_outcome_witness:
  "run_view (run_Status (st_Run (snd (ReconcileKind (ex_env [ex_taskrun ConditionFalse]) ex_run)))) =
     Some (ConditionFalse, ''Failed'', ''TaskRun failed'')"
  by (subst ReconcileKind_outcome [where data = "''encoded''"])
    (simp_all add: outcome_def outcome_view_def)

text \<open>C9. A Run ends exactly as its TaskRun does: if the one TaskRun listed for an active Run of a valid
  TaskGroup is done, the Run is done after the reconcile, successful if and only if the TaskRun is, with
  the time of the transition as its completion time, and nothing is retried on its account.\<close>

theorem ReconcileKind_follows_TaskRun:
  assumes "status_wf (run_Status run)" "active run"
    and "e_encodeStatus env (recorded env run (decoded env run)) = Inr data"
    and "taskgroup_of env run = Inr (meta, spec)" "valid_spec spec" "listed env run = Inr [tr]" "TaskRun_IsDone tr"
  shows "Run_IsDone (st_Run (snd (ReconcileKind env run))) \<and>
    IsTrue (succeeded_of (run_Status (st_Run (snd (ReconcileKind env run))))) = TaskRun_IsSuccessful tr \<and>
    rs_CompletionTime (run_Status (st_Run (snd (ReconcileKind env run)))) =
      map_option cond_LastTransitionTime (succeeded_of (run_Status (st_Run (snd (ReconcileKind env run)))))"
proof -
  note e = entry_frame [OF assms(1), of env]
  note r = request_cong [OF e(1,2)]
  let ?s = "entry env run"
  have one: "taskgroup_of env (st_Run ?s) = Inr (meta, spec)" "valid_spec spec" "listed env (st_Run ?s) = Inr [tr]"
    using assms(4-6) r by simp_all
  have st: "st_Status (snd (reconcile env ?s)) = recorded env run (decoded env run)"
    by (simp only: reconcile_status e(3) spec_cong(3) [OF e(1,2)])
  have f: "final_status env run = (run_Status (st_Run (snd (reconcile env ?s))))\<lparr>rs_ExtraFields := data\<rparr>"
    by (simp only: final_active(5) [OF assms(1,2)]) (rule encode_result(1), simp only: st assms(3))
  have c: "rs_CompletionTime (final_status env run) = map_option cond_LastTransitionTime (succeeded_of (final_status env run))"
    unfolding f using reconcile_one(1,2) [OF one] assms(7) e(4) by (cases "TaskRun_IsSuccessful tr") simp_all
  have "run_view (final_status env run) =
      Some (if TaskRun_IsSuccessful tr then (ConditionTrue, ''Succeeded'', ''TaskRun succeeded'')
            else (ConditionFalse, ''Failed'', ''TaskRun failed''))"
    using final_view(1) [OF assms(1-3)] assms(4-7) by (simp add: outcome_def outcome_view_def)
  then show ?thesis
    using c by (cases "succeeded_of (final_status env run)")
      (auto simp: view_of_def IsTrue_def Run_IsDone_def IsUnknown_def split: if_splits)
qed

theorem ReconcileKind_follows_TaskRun_witness:
  "IsTrue (succeeded_of (run_Status (st_Run (snd (ReconcileKind (ex_env [ex_taskrun ConditionTrue]) ex_run)))))"
  using ReconcileKind_follows_TaskRun [OF ex_run_wf ex_active ex_encode ex_taskgroup ex_group_valid ex_listed, of "ex_taskrun ConditionTrue"]
  by simp

section \<open>Errors\<close>

text \<open>Whether \<open>updateLabelsAndAnnotations\<close> fails for a Run with the given metadata: the lister does not know
  the Run, or its labels or annotations differ and the patch cannot be built or is refused.\<close>

definition label_update_fails :: "Env \<Rightarrow> ObjectMeta \<Rightarrow> bool" where
  "label_update_fails env m \<longleftrightarrow>
     (case e_getRun env (om_Namespace m) (om_Name m) of
        Inl err \<Rightarrow> True
      | Inr newRun \<Rightarrow>
          (\<not> gomap_opt_eq (om_Labels m) (om_Labels (run_Meta newRun)) \<or>
           \<not> gomap_opt_eq (om_Annotations m) (om_Annotations (run_Meta newRun))) \<and>
          (case e_marshalPatch env (om_Labels m) (om_Annotations m) of
             Inl err \<Rightarrow> True
           | Inr patch \<Rightarrow> e_patchRun env (om_Namespace m) (om_Name m) patch \<noteq> None))"

lemma updateLabels_fails:
  "fst (updateLabelsAndAnnotations env s) \<noteq> None \<longleftrightarrow> label_update_fails env (run_Meta (st_Run s))"
  by (auto simp: updateLabelsAndAnnotations_def label_update_fails_def Let_def split: sum.splits)

text \<open>C10. A reconcile asks for a retry, by returning an error, exactly when an active Run has no TaskGroup that can
  be fetched, or its TaskGroup is valid and the TaskRuns cannot be listed, are more than one, or cannot
  be cancelled, or when the labels and annotations cannot be written back; an invalid TaskGroup and a
  failed creation are no errors.\<close>

theorem ReconcileKind_errors:
  assumes "status_wf (run_Status run)"
  shows "fst (ReconcileKind env run) \<noteq> [] \<longleftrightarrow>
    active run \<and> (retries env run \<or> label_update_fails env (propagated env run))"
proof (cases "active run")
  case True
  note e = entry_frame [OF assms, of env]
  let ?s1 = "snd (reconcile env (entry env run))"
  have m: "run_Meta (st_Run ?s1) = propagated env run"
    using reconcile_frame [OF e(4), of env] spec_cong(5) [OF e(1,2)] by simp
  have "fst (ReconcileKind env run) \<noteq> [] \<longleftrightarrow>
      fst (reconcile env (entry env run)) \<noteq> None \<or> fst (updateLabelsAndAnnotations env ?s1) \<noteq> None"
    unfolding final_active(6) [OF assms True] by (auto simp: opt_list_def split: option.splits)
  then show ?thesis
    unfolding reconcile_retries updateLabels_fails m spec_cong(4) [OF e(1,2)] using True by simp
next
  case False
  then show ?thesis using ReconcileKind_inactive(1) [OF assms False] by simp
qed

theorem ReconcileKind_errors_witness:
  "fst (ReconcileKind (ex_env [ex_taskrun ConditionUnknown, ex_taskrun ConditionTrue]) ex_run) \<noteq> []"
proof -
  have "retries (ex_env [ex_taskrun ConditionUnknown, ex_taskrun ConditionTrue]) ex_run"
    by (simp add: retries_def)
  then show ?thesis
    using ReconcileKind_errors [OF ex_run_wf, of "ex_env [ex_taskrun ConditionUnknown, ex_taskrun ConditionTrue]"] ex_active by blast
qed

end
