(* ===== verification/Client.thy ===== *)
theory Client
  imports Api_Types "HOL-Library.Word"
begin

text \<open>
  The typed client \<open>pkg/client/clientset/versioned/typed/taskgroup/v1alpha1/taskgroup.go\<close> over the request
  builder of client-go, and the injection client \<open>pkg/client/injection/client/client.go\<close>, which goes
  through the dynamic client and JSON.

  The HTTP transport is the record \<open>RestClient\<close>, the dynamic client the record \<open>Dynamic\<close>, JSON the
  record \<open>Json\<close>. A result pointer is an option, and \<open>'a option go\<close> the pair of a result and an error.
\<close>

section \<open>Options\<close>

record GetOptions =
  go_ResourceVersion :: string
  go_rest :: string

record ListOptions =
  lo_LabelSelector :: string
  lo_FieldSelector :: string
  lo_Watch :: bool
  lo_ResourceVersion :: string
  lo_TimeoutSeconds :: "64 word option"
  lo_rest :: string

type_synonym CreateOptions = string
type_synonym UpdateOptions = string
type_synonym DeleteOptions = string
type_synonym PatchOptions = string
type_synonym PatchType = string

datatype Params =
    GetParams GetOptions
  | ListParams ListOptions
  | CreateParams CreateOptions
  | UpdateParams UpdateOptions
  | PatchParams PatchOptions

datatype Body =
    TaskGroup_body TaskGroup
  | DeleteOptions_body DeleteOptions
  | Bytes_body string

section \<open>The request builder\<close>

text \<open>\<open>rest.Request\<close>; the timeout is a \<open>time.Duration\<close>, an \<open>int64\<close> of nanoseconds.\<close>

record Request =
  rq_verb :: string
  rq_contentType :: string
  rq_namespaceSet :: bool
  rq_namespace :: string
  rq_resource :: string
  rq_resourceName :: string
  rq_subresources :: "string list"
  rq_params :: "Params list"
  rq_timeout :: "64 word"
  rq_body :: "Body option"
  rq_err :: "goerror option"

definition IsValidPathSegmentName :: "string \<Rightarrow> string list" where
  "IsValidPathSegmentName name =
     (if name = ''.'' then [''may not be '' @ [CHR 0x27] @ ''.'' @ [CHR 0x27]]
      else if name = ''..'' then [''may not be '' @ [CHR 0x27] @ ''..'' @ [CHR 0x27]]
      else map (\<lambda>c. ''may not contain '' @ [CHR 0x27] @ c @ [CHR 0x27]) (filter (contains_string name) [''/'', ''%'']))"

definition invalid_segment :: "string \<Rightarrow> string \<Rightarrow> string list \<Rightarrow> goerror" where
  "invalid_segment what name msgs = Errorf (''invalid '' @ what @ '' '' @ quote name @ '': ['' @ join_with '' '' msgs @ '']'')"

definition already_set :: "string \<Rightarrow> string \<Rightarrow> string \<Rightarrow> goerror" where
  "already_set what old new =
     Errorf (what @ '' already set to '' @ quote old @ '', cannot change to '' @ quote new)"

text \<open>\<open>if r.err != nil { return r }\<close>, with which every method of the builder begins.\<close>

definition unless_err :: "(Request \<Rightarrow> Request) \<Rightarrow> Request \<Rightarrow> Request" where
  "unless_err f r = (if rq_err r \<noteq> None then r else f r)"

definition Verb :: "string \<Rightarrow> Request" where
  "Verb verb = \<lparr>rq_verb = verb, rq_contentType = [], rq_namespaceSet = False, rq_namespace = [], rq_resource = [],
     rq_resourceName = [], rq_subresources = [], rq_params = [], rq_timeout = 0, rq_body = None, rq_err = None\<rparr>"

definition Patch_verb :: "PatchType \<Rightarrow> Request" where
  "Patch_verb pt = (Verb ''PATCH'')\<lparr>rq_contentType := pt\<rparr>"

definition rq_Namespace :: "string \<Rightarrow> Request \<Rightarrow> Request" where
  "rq_Namespace ns = unless_err (\<lambda>r.
     if rq_namespaceSet r then r\<lparr>rq_err := Some (already_set ''namespace'' (rq_namespace r) ns)\<rparr>
     else if IsValidPathSegmentName ns \<noteq> []
     then r\<lparr>rq_err := Some (invalid_segment ''namespace'' ns (IsValidPathSegmentName ns))\<rparr>
     else r\<lparr>rq_namespaceSet := True, rq_namespace := ns\<rparr>)"

definition rq_Resource :: "string \<Rightarrow> Request \<Rightarrow> Request" where
  "rq_Resource res = unless_err (\<lambda>r.
     if rq_resource r \<noteq> [] then r\<lparr>rq_err := Some (already_set ''resource'' (rq_resource r) res)\<rparr>
     else if IsValidPathSegmentName res \<noteq> []
     then r\<lparr>rq_err := Some (invalid_segment ''resource'' res (IsValidPathSegmentName res))\<rparr>
     else r\<lparr>rq_resource := res\<rparr>)"

definition rq_Name :: "string \<Rightarrow> Request \<Rightarrow> Request" where
  "rq_Name name = unless_err (\<lambda>r.
     if name = [] then r\<lparr>rq_err := Some (Errorf ''resource name may not be empty'')\<rparr>
     else if rq_resourceName r \<noteq> [] then r\<lparr>rq_err := Some (already_set ''resource name'' (rq_resourceName r) name)\<rparr>
     else if IsValidPathSegmentName name \<noteq> []
     then r\<lparr>rq_err := Some (invalid_segment ''resource name'' name (IsValidPathSegmentName name))\<rparr>
     else r\<lparr>rq_resourceName := name\<rparr>)"

text \<open>The path of the subresources is kept as the list of its segments.\<close>

definition rq_SubResource :: "string list \<Rightarrow> Request \<Rightarrow> Request" where
  "rq_SubResource subs = unless_err (\<lambda>r.
     if rq_subresources r \<noteq> []
     then r\<lparr>rq_err := Some (already_set ''subresource'' (join_with ''/'' (rq_subresources r)) (join_with ''/'' subs))\<rparr>
     else (case find (\<lambda>s. IsValidPathSegmentName s \<noteq> []) subs of
             Some s \<Rightarrow> r\<lparr>rq_err := Some (invalid_segment ''subresource'' s (IsValidPathSegmentName s))\<rparr>
           | None \<Rightarrow> r\<lparr>rq_subresources := filter (\<lambda>s. s \<noteq> []) subs\<rparr>))"

definition VersionedParams :: "Params \<Rightarrow> Request \<Rightarrow> Request" where
  "VersionedParams p = unless_err (\<lambda>r. r\<lparr>rq_params := rq_params r @ [p]\<rparr>)"

definition rq_Timeout :: "64 word \<Rightarrow> Request \<Rightarrow> Request" where
  "rq_Timeout d = unless_err (\<lambda>r. r\<lparr>rq_timeout := d\<rparr>)"

definition rq_Body :: "Body \<Rightarrow> Request \<Rightarrow> Request" where
  "rq_Body b = unless_err (\<lambda>r. r\<lparr>rq_body := Some b\<rparr>)"

definition requestPreflightCheck :: "Request \<Rightarrow> goerror option" where
  "requestPreflightCheck r =
     (if \<not> rq_namespaceSet r then None
      else if rq_namespace r \<noteq> [] then None
      else if rq_verb r = ''POST'' then Some (Errorf ''an empty namespace may not be set during creation'')
      else if rq_verb r \<in> {''GET'', ''PUT'', ''DELETE''} \<and> rq_resourceName r \<noteq> []
      then Some (Errorf ''an empty namespace may not be set when a resource name is provided'')
      else None)"

text \<open>The segments of the path of the URL after the prefix \<open>/apis/custom.tekton.dev/v1alpha1\<close>; empty
  segments vanish in \<open>path.Join\<close>.\<close>

definition url_segments :: "Request \<Rightarrow> string list" where
  "url_segments r =
     (if rq_namespaceSet r \<and> rq_namespace r \<noteq> [] then [''namespaces'', rq_namespace r] else []) @
     filter (\<lambda>s. s \<noteq> []) (rq_resource r # rq_resourceName r # rq_subresources r)"

text \<open>The transport: sends a request, decodes the body of a response.\<close>

record ('b, 'w) RestClient =
  rc_send :: "Request \<Rightarrow> goerror + 'b"
  rc_TaskGroup :: "'b \<Rightarrow> goerror + TaskGroup"
  rc_TaskGroupList :: "'b \<Rightarrow> goerror + TaskGroupList"
  rc_watch :: "Request \<Rightarrow> goerror + 'w"

definition Do :: "('b, 'w) RestClient \<Rightarrow> Request \<Rightarrow> goerror + 'b" where
  "Do c r =
     (case rq_err r of
        Some err \<Rightarrow> Inl err
      | None \<Rightarrow> (case requestPreflightCheck r of Some err \<Rightarrow> Inl err | None \<Rightarrow> rc_send c r))"

text \<open>\<open>Into\<close> fills the given object; where it fails the object keeps its value.\<close>

definition Into :: "('b \<Rightarrow> goerror + 'a) \<Rightarrow> 'a \<Rightarrow> goerror + 'b \<Rightarrow> 'a option go" where
  "Into decode result res =
     (case res of
        Inl err \<Rightarrow> (Some result, Some err)
      | Inr body \<Rightarrow> (case decode body of Inl err \<Rightarrow> (Some result, Some err) | Inr x \<Rightarrow> (Some x, None)))"

definition Result_Error :: "goerror + 'b \<Rightarrow> goerror option" where
  "Result_Error res = (case res of Inl err \<Rightarrow> Some err | Inr _ \<Rightarrow> None)"

definition Request_Watch :: "('b, 'w) RestClient \<Rightarrow> Request \<Rightarrow> 'w option go" where
  "Request_Watch c r =
     (case rq_err r of
        Some err \<Rightarrow> (None, Some err)
      | None \<Rightarrow> (case rc_watch c r of Inl err \<Rightarrow> (None, Some err) | Inr w \<Rightarrow> (Some w, None)))"

section \<open>The typed client\<close>

record ('b, 'w) taskGroups =
  tc_client :: "('b, 'w) RestClient"
  tc_ns :: string

definition newTaskGroups :: "('b, 'w) RestClient \<Rightarrow> string \<Rightarrow> ('b, 'w) taskGroups" where
  "newTaskGroups c namespace = \<lparr>tc_client = c, tc_ns = namespace\<rparr>"

definition zero_TaskGroup :: TaskGroup where
  "zero_TaskGroup = \<lparr>tgr_TypeMeta = zero_TypeMeta, tgr_Meta = empty_meta, tgr_Spec = empty_TaskGroupSpec\<rparr>"

definition zero_TaskGroupList :: TaskGroupList where
  "zero_TaskGroupList = \<lparr>tl_TypeMeta = zero_TypeMeta, tl_ListMeta = [], tl_Items = []\<rparr>"

definition Second :: "64 word" where "Second = 1000000000"

definition timeout_of :: "ListOptions \<Rightarrow> 64 word" where
  "timeout_of opts = (case lo_TimeoutSeconds opts of None \<Rightarrow> 0 | Some s \<Rightarrow> s * Second)"

definition taskGroups_Get :: "('b, 'w) taskGroups \<Rightarrow> string \<Rightarrow> GetOptions \<Rightarrow> TaskGroup option go" where
  "taskGroups_Get c name options =
     (let r = Verb ''GET'';
          r = rq_Namespace (tc_ns c) r;
          r = rq_Resource ''taskgroups'' r;
          r = rq_Name name r;
          r = VersionedParams (GetParams options) r
      in Into (rc_TaskGroup (tc_client c)) zero_TaskGroup (Do (tc_client c) r))"

definition taskGroups_List :: "('b, 'w) taskGroups \<Rightarrow> ListOptions \<Rightarrow> TaskGroupList option go" where
  "taskGroups_List c opts =
     (let timeout = timeout_of opts;
          r = Verb ''GET'';
          r = rq_Namespace (tc_ns c) r;
          r = rq_Resource ''taskgroups'' r;
          r = VersionedParams (ListParams opts) r;
          r = rq_Timeout timeout r
      in Into (rc_TaskGroupList (tc_client c)) zero_TaskGroupList (Do (tc_client c) r))"

definition taskGroups_Watch :: "('b, 'w) taskGroups \<Rightarrow> ListOptions \<Rightarrow> 'w option go" where
  "taskGroups_Watch c opts =
     (let timeout = timeout_of opts;
          opts = opts\<lparr>lo_Watch := True\<rparr>;
          r = Verb ''GET'';
          r = rq_Namespace (tc_ns c) r;
          r = rq_Resource ''taskgroups'' r;
          r = VersionedParams (ListParams opts) r;
          r = rq_Timeout timeout r
      in Request_Watch (tc_client c) r)"

definition taskGroups_Create :: "('b, 'w) taskGroups \<Rightarrow> TaskGroup \<Rightarrow> CreateOptions \<Rightarrow> TaskGroup option go" where
  "taskGroups_Create c taskGroup opts =
     (let r = Verb ''POST'';
          r = rq_Namespace (tc_ns c) r;
          r = rq_Resource ''taskgroups'' r;
          r = VersionedParams (CreateParams opts) r;
          r = rq_Body (TaskGroup_body taskGroup) r
      in Into (rc_TaskGroup (tc_client c)) zero_TaskGroup (Do (tc_client c) r))"

definition taskGroups_Update :: "('b, 'w) taskGroups \<Rightarrow> TaskGroup \<Rightarrow> UpdateOptions \<Rightarrow> TaskGroup option go" where
  "taskGroups_Update c taskGroup opts =
     (let r = Verb ''PUT'';
          r = rq_Namespace (tc_ns c) r;
          r = rq_Resource ''taskgroups'' r;
          r = rq_Name (om_Name (tgr_Meta taskGroup)) r;
          r = VersionedParams (UpdateParams opts) r;
          r = rq_Body (TaskGroup_body taskGroup) r
      in Into (rc_TaskGroup (tc_client c)) zero_TaskGroup (Do (tc_client c) r))"

definition taskGroups_Delete :: "('b, 'w) taskGroups \<Rightarrow> string \<Rightarrow> DeleteOptions \<Rightarrow> goerror option" where
  "taskGroups_Delete c name opts =
     (let r = Verb ''DELETE'';
          r = rq_Namespace (tc_ns c) r;
          r = rq_Resource ''taskgroups'' r;
          r = rq_Name name r;
          r = rq_Body (DeleteOptions_body opts) r
      in Result_Error (Do (tc_client c) r))"

definition taskGroups_DeleteCollection :: "('b, 'w) taskGroups \<Rightarrow> DeleteOptions \<Rightarrow> ListOptions \<Rightarrow> goerror option" where
  "taskGroups_DeleteCollection c opts listOpts =
     (let timeout = timeout_of listOpts;
          r = Verb ''DELETE'';
          r = rq_Namespace (tc_ns c) r;
          r = rq_Resource ''taskgroups'' r;
          r = VersionedParams (ListParams listOpts) r;
          r = rq_Timeout timeout r;
          r = rq_Body (DeleteOptions_body opts) r
      in Result_Error (Do (tc_client c) r))"

definition taskGroups_Patch ::
    "('b, 'w) taskGroups \<Rightarrow> string \<Rightarrow> PatchType \<Rightarrow> string \<Rightarrow> PatchOptions \<Rightarrow> string list \<Rightarrow> TaskGroup option go" where
  "taskGroups_Patch c name pt data opts subresources =
     (let r = Patch_verb pt;
          r = rq_Namespace (tc_ns c) r;
          r = rq_Resource ''taskgroups'' r;
          r = rq_Name name r;
          r = rq_SubResource subresources r;
          r = VersionedParams (PatchParams opts) r;
          r = rq_Body (Bytes_body data) r
      in Into (rc_TaskGroup (tc_client c)) zero_TaskGroup (Do (tc_client c) r))"

section \<open>The injection client\<close>

record GroupVersionResource =
  gvr_Group :: string
  gvr_Version :: string
  gvr_Resource :: string

text \<open>The dynamic client: objects \<open>'u\<close> are unstructured, lists of them \<open>'ul\<close>.\<close>

record ('u, 'ul) Dynamic =
  dy_Create :: "GroupVersionResource \<Rightarrow> string \<Rightarrow> 'u \<Rightarrow> CreateOptions \<Rightarrow> goerror + 'u"
  dy_Update :: "GroupVersionResource \<Rightarrow> string \<Rightarrow> 'u \<Rightarrow> UpdateOptions \<Rightarrow> goerror + 'u"
  dy_UpdateStatus :: "GroupVersionResource \<Rightarrow> string \<Rightarrow> 'u \<Rightarrow> UpdateOptions \<Rightarrow> goerror + 'u"
  dy_Delete :: "GroupVersionResource \<Rightarrow> string \<Rightarrow> string \<Rightarrow> DeleteOptions \<Rightarrow> goerror option"
  dy_DeleteCollection :: "GroupVersionResource \<Rightarrow> string \<Rightarrow> DeleteOptions \<Rightarrow> ListOptions \<Rightarrow> goerror option"
  dy_Get :: "GroupVersionResource \<Rightarrow> string \<Rightarrow> string \<Rightarrow> GetOptions \<Rightarrow> goerror + 'u"
  dy_List :: "GroupVersionResource \<Rightarrow> string \<Rightarrow> ListOptions \<Rightarrow> goerror + 'ul"
  dy_Patch :: "GroupVersionResource \<Rightarrow> string \<Rightarrow> string \<Rightarrow> PatchType \<Rightarrow> string \<Rightarrow> PatchOptions \<Rightarrow> goerror + 'u"

text \<open>\<open>json.Marshal\<close> and \<open>json.Unmarshal\<close> at the types the client converts.\<close>

record ('b, 'u, 'ul) Json =
  js_marshal_TaskGroup :: "TaskGroup \<Rightarrow> goerror + 'b"
  js_marshal_u :: "'u \<Rightarrow> goerror + 'b"
  js_marshal_ul :: "'ul \<Rightarrow> goerror + 'b"
  js_unmarshal_u :: "'b \<Rightarrow> goerror + 'u"
  js_unmarshal_TaskGroup :: "'b \<Rightarrow> goerror + TaskGroup"
  js_unmarshal_TaskGroupList :: "'b \<Rightarrow> goerror + TaskGroupList"

definition convert :: "('a \<Rightarrow> goerror + 'j) \<Rightarrow> ('j \<Rightarrow> goerror + 'b) \<Rightarrow> 'a \<Rightarrow> goerror + 'b" where
  "convert marshal unmarshal frm =
     (case marshal frm of
        Inl err \<Rightarrow> Inl (Errorf (''Marshal() = '' @ error_string err))
      | Inr bs \<Rightarrow>
          (case unmarshal bs of
             Inl err \<Rightarrow> Inl (Errorf (''Unmarshal() = '' @ error_string err))
           | Inr out \<Rightarrow> Inr out))"

record ('b, 'u, 'ul) wrapClient =
  wc_dyn :: "('u, 'ul) Dynamic"
  wc_json :: "('b, 'u, 'ul) Json"
  wc_gvr :: GroupVersionResource
  wc_namespace :: string

definition wrap_TaskGroups :: "('u, 'ul) Dynamic \<Rightarrow> ('b, 'u, 'ul) Json \<Rightarrow> string \<Rightarrow> ('b, 'u, 'ul) wrapClient" where
  "wrap_TaskGroups dyn json namespace =
     \<lparr>wc_dyn = dyn, wc_json = json,
      wc_gvr = \<lparr>gvr_Group = ''custom.tekton.dev'', gvr_Version = ''v1alpha1'', gvr_Resource = ''taskgroups''\<rparr>,
      wc_namespace = namespace\<rparr>"

text \<open>\<open>SetGroupVersionKind\<close> on the caller's object: it is written, so the operations that call it return
  the object as they leave it beside their result.\<close>

definition SetGroupVersionKind :: "TaskGroup \<Rightarrow> TaskGroup" where
  "SetGroupVersionKind inp =
     inp\<lparr>tgr_TypeMeta := \<lparr>tm_Kind = ''TaskGroup'', tm_APIVersion = ''custom.tekton.dev/v1alpha1''\<rparr>\<rparr>"

definition from_unstructured :: "('b, 'u, 'ul) wrapClient \<Rightarrow> goerror + 'u \<Rightarrow> TaskGroup option go" where
  "from_unstructured w res =
     (case res of
        Inl err \<Rightarrow> (None, Some err)
      | Inr uo \<Rightarrow>
          (case convert (js_marshal_u (wc_json w)) (js_unmarshal_TaskGroup (wc_json w)) uo of
             Inl err \<Rightarrow> (None, Some err) | Inr out \<Rightarrow> (Some out, None)))"

definition wrap_Create :: "('b, 'u, 'ul) wrapClient \<Rightarrow> TaskGroup \<Rightarrow> CreateOptions \<Rightarrow> TaskGroup option go \<times> TaskGroup" where
  "wrap_Create w inp opts =
     (let inp = SetGroupVersionKind inp in
      (case convert (js_marshal_TaskGroup (wc_json w)) (js_unmarshal_u (wc_json w)) inp of
         Inl err \<Rightarrow> (None, Some err)
       | Inr uo \<Rightarrow> from_unstructured w (dy_Create (wc_dyn w) (wc_gvr w) (wc_namespace w) uo opts), inp))"

definition wrap_Update :: "('b, 'u, 'ul) wrapClient \<Rightarrow> TaskGroup \<Rightarrow> UpdateOptions \<Rightarrow> TaskGroup option go \<times> TaskGroup" where
  "wrap_Update w inp opts =
     (let inp = SetGroupVersionKind inp in
      (case convert (js_marshal_TaskGroup (wc_json w)) (js_unmarshal_u (wc_json w)) inp of
         Inl err \<Rightarrow> (None, Some err)
       | Inr uo \<Rightarrow> from_unstructured w (dy_Update (wc_dyn w) (wc_gvr w) (wc_namespace w) uo opts), inp))"

definition wrap_UpdateStatus :: "('b, 'u, 'ul) wrapClient \<Rightarrow> TaskGroup \<Rightarrow> UpdateOptions \<Rightarrow> TaskGroup option go \<times> TaskGroup" where
  "wrap_UpdateStatus w inp opts =
     (let inp = SetGroupVersionKind inp in
      (case convert (js_marshal_TaskGroup (wc_json w)) (js_unmarshal_u (wc_json w)) inp of
         Inl err \<Rightarrow> (None, Some err)
       | Inr uo \<Rightarrow> from_unstructured w (dy_UpdateStatus (wc_dyn w) (wc_gvr w) (wc_namespace w) uo opts), inp))"

definition wrap_Delete :: "('b, 'u, 'ul) wrapClient \<Rightarrow> string \<Rightarrow> DeleteOptions \<Rightarrow> goerror option" where
  "wrap_Delete w name opts = dy_Delete (wc_dyn w) (wc_gvr w) (wc_namespace w) name opts"

definition wrap_DeleteCollection :: "('b, 'u, 'ul) wrapClient \<Rightarrow> DeleteOptions \<Rightarrow> ListOptions \<Rightarrow> goerror option" where
  "wrap_DeleteCollection w opts listOpts = dy_DeleteCollection (wc_dyn w) (wc_gvr w) (wc_namespace w) opts listOpts"

definition wrap_Get :: "('b, 'u, 'ul) wrapClient \<Rightarrow> string \<Rightarrow> GetOptions \<Rightarrow> TaskGroup option go" where
  "wrap_Get w name opts = from_unstructured w (dy_Get (wc_dyn w) (wc_gvr w) (wc_namespace w) name opts)"

definition wrap_List :: "('b, 'u, 'ul) wrapClient \<Rightarrow> ListOptions \<Rightarrow> TaskGroupList option go" where
  "wrap_List w opts =
     (case dy_List (wc_dyn w) (wc_gvr w) (wc_namespace w) opts of
        Inl err \<Rightarrow> (None, Some err)
      | Inr uo \<Rightarrow>
          (case convert (js_marshal_ul (wc_json w)) (js_unmarshal_TaskGroupList (wc_json w)) uo of
             Inl err \<Rightarrow> (None, Some err) | Inr out \<Rightarrow> (Some out, None)))"

definition wrap_Patch ::
    "('b, 'u, 'ul) wrapClient \<Rightarrow> string \<Rightarrow> PatchType \<Rightarrow> string \<Rightarrow> PatchOptions \<Rightarrow> string list \<Rightarrow> TaskGroup option go" where
  "wrap_Patch w name pt data opts subresources =
     from_unstructured w (dy_Patch (wc_dyn w) (wc_gvr w) (wc_namespace w) name pt data opts)"

definition wrap_Watch :: "('b, 'u, 'ul) wrapClient \<Rightarrow> ListOptions \<Rightarrow> 'w option go" where
  "wrap_Watch w opts = (None, Some (Errorf ''NYI: Watch''))"

section \<open>What the typed client sends\<close>

text \<open>A segment that cannot change the meaning of a URL path.\<close>

definition safe_segment :: "string \<Rightarrow> bool" where
  "safe_segment s \<longleftrightarrow> s \<noteq> ''.'' \<and> s \<noteq> ''..'' \<and> CHR ''/'' \<notin> set s \<and> CHR ''%'' \<notin> set s"

lemma contains_char: "contains_string s [c] \<longleftrightarrow> c \<in> set s"
proof
  show "contains_string s [c]" if "c \<in> set s"
    using that by (auto simp: contains_string_def sublist_def in_set_conv_decomp)
qed (auto simp: contains_string_def sublist_def)

lemma IsValidPathSegmentName_iff: "IsValidPathSegmentName s = [] \<longleftrightarrow> safe_segment s"
  by (auto simp: IsValidPathSegmentName_def safe_segment_def contains_char filter_empty_conv)

text \<open>A request for the TaskGroups of one namespace: its path consists of the namespace, the resource and
  then names of the caller, none of which can leave it.\<close>

definition in_scope :: "string \<Rightarrow> Request \<Rightarrow> bool" where
  "in_scope ns r \<longleftrightarrow>
     (let pre = (if ns \<noteq> [] then [''namespaces'', ns] else []) @ [''taskgroups'']
      in take (length pre) (url_segments r) = pre \<and> list_all safe_segment (url_segments r))"

definition built :: "string \<Rightarrow> Request \<Rightarrow> bool" where
  "built ns r \<longleftrightarrow> (rq_err r = None \<longrightarrow>
     rq_namespaceSet r \<and> rq_namespace r = ns \<and> safe_segment ns \<and> rq_resource r = ''taskgroups'' \<and>
     safe_segment (rq_resourceName r) \<and> list_all safe_segment (rq_subresources r))"

lemma built_base:
  "built ns (rq_Resource ''taskgroups'' (rq_Namespace ns (Verb verb)))"
  "built ns (rq_Resource ''taskgroups'' (rq_Namespace ns (Patch_verb pt)))"
proof -
  have "safe_segment ''taskgroups''" "safe_segment []" by (simp_all add: safe_segment_def)
  then show "built ns (rq_Resource ''taskgroups'' (rq_Namespace ns (Verb verb)))"
    "built ns (rq_Resource ''taskgroups'' (rq_Namespace ns (Patch_verb pt)))"
    by (simp_all add: built_def rq_Resource_def rq_Namespace_def Verb_def Patch_verb_def unless_err_def
        IsValidPathSegmentName_iff)
qed

lemma built_step:
  assumes "built ns r"
  shows "built ns (rq_Name name r)" "built ns (rq_SubResource subs r)" "built ns (VersionedParams p r)"
    "built ns (rq_Timeout d r)" "built ns (rq_Body b r)"
proof -
  show "built ns (rq_Name name r)" "built ns (VersionedParams p r)" "built ns (rq_Timeout d r)" "built ns (rq_Body b r)"
    using assms
    by (simp_all add: built_def rq_Name_def VersionedParams_def rq_Timeout_def rq_Body_def unless_err_def
        IsValidPathSegmentName_iff)
  show "built ns (rq_SubResource subs r)"
    using assms
    by (auto simp: built_def rq_SubResource_def unless_err_def IsValidPathSegmentName_iff find_None_iff
        list_all_iff split: option.splits)
qed

lemma built_in_scope:
  assumes "built ns r" "rq_err r = None"
  shows "in_scope ns r"
proof -
  have "safe_segment ''namespaces''" "safe_segment ''taskgroups''" by (simp_all add: safe_segment_def)
  then show ?thesis
    using assms by (auto simp: built_def in_scope_def url_segments_def list_all_iff Let_def)
qed

lemma Do_confined:
  assumes "\<And>r. in_scope ns r \<Longrightarrow> rc_send c r = rc_send c' r" "built ns r"
  shows "Do c r = Do c' r"
  using built_in_scope [OF assms(2)] assms(1) by (simp add: Do_def split: option.split)

lemma Watch_confined:
  assumes "\<And>r. in_scope ns r \<Longrightarrow> rc_watch c r = rc_watch c' r" "built ns r"
  shows "Request_Watch c r = Request_Watch c' r"
  using built_in_scope [OF assms(2)] assms(1) by (simp add: Request_Watch_def split: option.split)

text \<open>C35. The typed client of a namespace is confined to it: whatever names, subresources and options the
  caller passes, every request it sends has the path of the TaskGroups of that namespace, followed by
  segments that are no \<open>.\<close> or \<open>..\<close> and contain no \<open>/\<close> or \<open>%\<close>. So two servers that agree on these
  requests cannot be told apart by any operation of the client.\<close>

theorem taskGroups_confined:
  assumes "\<And>r. in_scope ns r \<Longrightarrow> rc_send c r = rc_send c' r"
    and "\<And>r. in_scope ns r \<Longrightarrow> rc_watch c r = rc_watch c' r"
    and "rc_TaskGroup c = rc_TaskGroup c'" "rc_TaskGroupList c = rc_TaskGroupList c'"
  shows "taskGroups_Get (newTaskGroups c ns) name go = taskGroups_Get (newTaskGroups c' ns) name go \<and>
    taskGroups_List (newTaskGroups c ns) lo = taskGroups_List (newTaskGroups c' ns) lo \<and>
    taskGroups_Watch (newTaskGroups c ns) lo = taskGroups_Watch (newTaskGroups c' ns) lo \<and>
    taskGroups_Create (newTaskGroups c ns) tg co = taskGroups_Create (newTaskGroups c' ns) tg co \<and>
    taskGroups_Update (newTaskGroups c ns) tg uo = taskGroups_Update (newTaskGroups c' ns) tg uo \<and>
    taskGroups_Delete (newTaskGroups c ns) name del = taskGroups_Delete (newTaskGroups c' ns) name del \<and>
    taskGroups_DeleteCollection (newTaskGroups c ns) del lo = taskGroups_DeleteCollection (newTaskGroups c' ns) del lo \<and>
    taskGroups_Patch (newTaskGroups c ns) name pt data po subs = taskGroups_Patch (newTaskGroups c' ns) name pt data po subs"
proof -
  note d = Do_confined [where c = c and c' = c' and ns = ns, OF assms(1)]
  note w = Watch_confined [where c = c and c' = c' and ns = ns, OF assms(2)]
  note b = built_base built_step
  show ?thesis
    unfolding taskGroups_Get_def taskGroups_List_def taskGroups_Watch_def taskGroups_Create_def taskGroups_Update_def
      taskGroups_Delete_def taskGroups_DeleteCollection_def taskGroups_Patch_def Let_def newTaskGroups_def
      taskGroups.select_convs assms(3,4)
    by (intro conjI arg_cong [where f = "Into _ _"] arg_cong [where f = Result_Error] d w b)
qed

text \<open>The transport that refuses every request outside of the namespace.\<close>

definition only_namespace :: "string \<Rightarrow> ('b, 'w) RestClient \<Rightarrow> ('b, 'w) RestClient" where
  "only_namespace ns c =
     c\<lparr>rc_send := (\<lambda>r. if in_scope ns r then rc_send c r else Inl (Errorf ''forbidden'')),
       rc_watch := (\<lambda>r. if in_scope ns r then rc_watch c r else Inl (Errorf ''forbidden''))\<rparr>"

definition ex_rest :: "(string, unit) RestClient" where
  "ex_rest = \<lparr>rc_send = (\<lambda>r. Inr (join_with ''/'' (url_segments r))),
     rc_TaskGroup = (\<lambda>body. Inr (zero_TaskGroup\<lparr>tgr_Meta := empty_meta\<lparr>om_Name := body\<rparr>\<rparr>)),
     rc_TaskGroupList = (\<lambda>body. Inr zero_TaskGroupList), rc_watch = (\<lambda>r. Inr ())\<rparr>"

theorem taskGroups_confined_witness:
  "taskGroups_Get (newTaskGroups ex_rest ''ns'') ''../secrets'' \<lparr>go_ResourceVersion = [], go_rest = []\<rparr> =
     taskGroups_Get (newTaskGroups (only_namespace ''ns'' ex_rest) ''ns'') ''../secrets'' \<lparr>go_ResourceVersion = [], go_rest = []\<rparr>"
  using taskGroups_confined [of "''ns''" ex_rest "only_namespace ''ns'' ex_rest"] by (simp add: only_namespace_def)

section \<open>Timeouts and missing names\<close>

text \<open>Wrapping an integer around into 64 bits changes it only outside of the range.\<close>

lemma wrap_exact: "(k + 2 ^ 63) mod 2 ^ 64 - 2 ^ 63 = k \<longleftrightarrow> - (2 ^ 63) \<le> k \<and> k < 2 ^ 63" for k :: int
proof
  assume "- (2 ^ 63) \<le> k \<and> k < 2 ^ 63"
  then have "(k + 2 ^ 63) mod 2 ^ 64 = k + 2 ^ 63" by (intro mod_pos_pos_trivial) simp_all
  then show "(k + 2 ^ 63) mod 2 ^ 64 - 2 ^ 63 = k" by simp
next
  assume "(k + 2 ^ 63) mod 2 ^ 64 - 2 ^ 63 = k"
  moreover have "0 \<le> (k + 2 ^ 63) mod 2 ^ 64" "(k + 2 ^ 63) mod 2 ^ 64 < 2 ^ 64"
    by (rule pos_mod_sign, simp) (rule pos_mod_bound, simp)
  moreover have "(2::int) ^ 64 = 2 ^ 63 + 2 ^ 63" by simp
  ultimately have "- (2 ^ 63) \<le> k" "k < 2 ^ 63" by linarith+
  then show "- (2 ^ 63) \<le> k \<and> k < 2 ^ 63" ..
qed

lemma seconds_in_range: "- (2 ^ 63) \<le> k * 1000000000 \<and> k * 1000000000 < 2 ^ 63 \<longleftrightarrow> \<bar>k\<bar> \<le> 9223372036" for k :: int
proof -
  have "(2::int) ^ 63 = 9223372036854775808" by simp
  then show ?thesis by linarith
qed

lemma sint_Second_mult: "sint (s * Second) = (sint s * 1000000000 + 2 ^ 63) mod 2 ^ 64 - 2 ^ 63" for s :: "64 word"
proof -
  have "s * Second = word_of_int (sint s * 1000000000)" by (simp add: Second_def)
  then show ?thesis by (simp only: int_word_sint) simp
qed

text \<open>C39. The timeout of List, Watch and DeleteCollection is the number of seconds given times 1000000000, wrapped
  around into 64 bits. So it is exact precisely for up to 9223372036 seconds (of either sign), and every number beyond
  gives a wrong duration.\<close>

theorem timeout_of_range:
  assumes "lo_TimeoutSeconds opts = Some s"
  shows "sint (timeout_of opts) = (sint s * 1000000000 + 2 ^ 63) mod 2 ^ 64 - 2 ^ 63 \<and>
    (sint (timeout_of opts) = sint s * 1000000000 \<longleftrightarrow> \<bar>sint s\<bar> \<le> 9223372036)"
proof
  show *: "sint (timeout_of opts) = (sint s * 1000000000 + 2 ^ 63) mod 2 ^ 64 - 2 ^ 63"
    using assms sint_Second_mult [of s] by (simp add: timeout_of_def)
  show "sint (timeout_of opts) = sint s * 1000000000 \<longleftrightarrow> \<bar>sint s\<bar> \<le> 9223372036"
    by (simp only: * wrap_exact seconds_in_range)
qed

definition ex_opts :: ListOptions where
  "ex_opts = \<lparr>lo_LabelSelector = [], lo_FieldSelector = [], lo_Watch = False, lo_ResourceVersion = [],
     lo_TimeoutSeconds = Some 30, lo_rest = []\<rparr>"

theorem timeout_of_range_witness:
  "sint (timeout_of (ex_opts\<lparr>lo_TimeoutSeconds := Some 9223372037\<rparr>)) = - 9223372036709551616"
  using timeout_of_range [of "ex_opts\<lparr>lo_TimeoutSeconds := Some 9223372037\<rparr>" 9223372037] by simp

text \<open>A request for one object never goes out without a name: Get, Update, Delete and Patch with an
  empty name fail, all with the same error, and the objects returned beside it are empty.\<close>

theorem nameless_requests_fail:
  "\<exists>err. taskGroups_Get c [] go = (Some zero_TaskGroup, Some err) \<and>
     taskGroups_Update c (tg\<lparr>tgr_Meta := (tgr_Meta tg)\<lparr>om_Name := []\<rparr>\<rparr>) uo = (Some zero_TaskGroup, Some err) \<and>
     taskGroups_Delete c [] del = Some err \<and>
     taskGroups_Patch c [] pt data po subs = (Some zero_TaskGroup, Some err)"
proof -
  have t: "IsValidPathSegmentName ''taskgroups'' = []" by (simp add: IsValidPathSegmentName_iff safe_segment_def)
  show ?thesis
    by (cases "IsValidPathSegmentName (tc_ns c) = []")
      (simp_all add: taskGroups_Get_def taskGroups_Update_def taskGroups_Delete_def taskGroups_Patch_def Let_def t
        rq_Namespace_def rq_Resource_def rq_Name_def rq_SubResource_def VersionedParams_def rq_Body_def Verb_def
        Patch_verb_def unless_err_def Do_def Into_def Result_Error_def)
qed

section \<open>The two clients agree\<close>

text \<open>An API server for TaskGroups, the JSON encoding, and the two transports to that server. The codecs of the typed
  client are those of \<open>scheme.Codecs.WithoutConversion()\<close>: the encoder fills in the group, version and kind
  (\<open>WithVersionEncoder\<close>), and the decoder clears them in the object it has decoded (\<open>WithoutVersionDecoder\<close>); the
  items of a list keep theirs.\<close>

definition clear_kind :: "TaskGroup \<Rightarrow> TaskGroup" where
  "clear_kind tg = tg\<lparr>tgr_TypeMeta := zero_TypeMeta\<rparr>"

definition clear_list_kind :: "TaskGroupList \<Rightarrow> TaskGroupList" where
  "clear_list_kind l = l\<lparr>tl_TypeMeta := zero_TypeMeta\<rparr>"

definition WithoutVersionDecoder :: "('a \<Rightarrow> 'a) \<Rightarrow> ('b \<Rightarrow> goerror + 'a) \<Rightarrow> 'b \<Rightarrow> goerror + 'a" where
  "WithoutVersionDecoder clear decode body = (case decode body of Inl err \<Rightarrow> Inl err | Inr obj \<Rightarrow> Inr (clear obj))"

record Server =
  sv_Get :: "string \<Rightarrow> string \<Rightarrow> GetOptions \<Rightarrow> goerror + TaskGroup"
  sv_List :: "string \<Rightarrow> ListOptions \<Rightarrow> goerror + TaskGroupList"
  sv_Create :: "string \<Rightarrow> TaskGroup \<Rightarrow> CreateOptions \<Rightarrow> goerror + TaskGroup"
  sv_Update :: "string \<Rightarrow> TaskGroup \<Rightarrow> UpdateOptions \<Rightarrow> goerror + TaskGroup"
  sv_Delete :: "string \<Rightarrow> string \<Rightarrow> DeleteOptions \<Rightarrow> goerror option"
  sv_Patch :: "string \<Rightarrow> string \<Rightarrow> PatchType \<Rightarrow> string \<Rightarrow> PatchOptions \<Rightarrow> string list \<Rightarrow> goerror + TaskGroup"

record 'b Codec =
  cd_enc :: "TaskGroup \<Rightarrow> 'b"
  cd_dec :: "'b \<Rightarrow> goerror + TaskGroup"
  cd_encList :: "TaskGroupList \<Rightarrow> 'b"
  cd_decList :: "'b \<Rightarrow> goerror + TaskGroupList"
  cd_empty :: 'b

definition codec_ok :: "'b Codec \<Rightarrow> bool" where
  "codec_ok cd \<longleftrightarrow> (\<forall>tg. cd_dec cd (cd_enc cd tg) = Inr tg) \<and> (\<forall>l. cd_decList cd (cd_encList cd l) = Inr l)"

definition bad_request :: "goerror + 'a" where
  "bad_request = Inl (Errorf ''bad request'')"

definition route :: "'b Codec \<Rightarrow> Server \<Rightarrow> Request \<Rightarrow> goerror + 'b" where
  "route cd sv r =
     (let ns = rq_namespace r; name = rq_resourceName r in
      if rq_verb r = ''GET'' then
        (case rq_params r of
           [GetParams opts] \<Rightarrow> map_sum id (cd_enc cd) (sv_Get sv ns name opts)
         | [ListParams opts] \<Rightarrow> map_sum id (cd_encList cd) (sv_List sv ns opts)
         | _ \<Rightarrow> bad_request)
      else if rq_verb r = ''POST'' then
        (case (rq_params r, rq_body r) of
           ([CreateParams opts], Some (TaskGroup_body tg)) \<Rightarrow>
             map_sum id (cd_enc cd) (sv_Create sv ns (SetGroupVersionKind tg) opts)
         | _ \<Rightarrow> bad_request)
      else if rq_verb r = ''PUT'' then
        (case (rq_params r, rq_body r) of
           ([UpdateParams opts], Some (TaskGroup_body tg)) \<Rightarrow>
             map_sum id (cd_enc cd) (sv_Update sv ns (SetGroupVersionKind tg) opts)
         | _ \<Rightarrow> bad_request)
      else if rq_verb r = ''DELETE'' then
        (case rq_body r of
           Some (DeleteOptions_body opts) \<Rightarrow>
             (case sv_Delete sv ns name opts of None \<Rightarrow> Inr (cd_empty cd) | Some err \<Rightarrow> Inl err)
         | _ \<Rightarrow> bad_request)
      else
        (case (rq_params r, rq_body r) of
           ([PatchParams opts], Some (Bytes_body data)) \<Rightarrow>
             map_sum id (cd_enc cd) (sv_Patch sv ns name (rq_contentType r) data opts (rq_subresources r))
         | _ \<Rightarrow> bad_request))"

definition rest_of :: "'b Codec \<Rightarrow> Server \<Rightarrow> ('b, unit) RestClient" where
  "rest_of cd sv = \<lparr>rc_send = route cd sv, rc_TaskGroup = WithoutVersionDecoder clear_kind (cd_dec cd),
     rc_TaskGroupList = WithoutVersionDecoder clear_list_kind (cd_decList cd), rc_watch = (\<lambda>r. Inr ())\<rparr>"

text \<open>The dynamic client to the same server; its objects are JSON texts.\<close>

definition dynamic_of :: "'b Codec \<Rightarrow> Server \<Rightarrow> ('b, 'b) Dynamic" where
  "dynamic_of cd sv =
     \<lparr>dy_Create = (\<lambda>gvr ns u opts. case cd_dec cd u of Inl err \<Rightarrow> Inl err
        | Inr tg \<Rightarrow> map_sum id (cd_enc cd) (sv_Create sv ns tg opts)),
      dy_Update = (\<lambda>gvr ns u opts. case cd_dec cd u of Inl err \<Rightarrow> Inl err
        | Inr tg \<Rightarrow> map_sum id (cd_enc cd) (sv_Update sv ns tg opts)),
      dy_UpdateStatus = (\<lambda>gvr ns u opts. bad_request),
      dy_Delete = (\<lambda>gvr ns name opts. sv_Delete sv ns name opts),
      dy_DeleteCollection = (\<lambda>gvr ns opts lo. None),
      dy_Get = (\<lambda>gvr ns name opts. map_sum id (cd_enc cd) (sv_Get sv ns name opts)),
      dy_List = (\<lambda>gvr ns opts. map_sum id (cd_encList cd) (sv_List sv ns opts)),
      dy_Patch = (\<lambda>gvr ns name pt data opts. map_sum id (cd_enc cd) (sv_Patch sv ns name pt data opts []))\<rparr>"

definition json_of :: "'b Codec \<Rightarrow> ('b, 'b, 'b) Json" where
  "json_of cd =
     \<lparr>js_marshal_TaskGroup = (\<lambda>tg. Inr (cd_enc cd tg)), js_marshal_u = Inr, js_marshal_ul = Inr,
      js_unmarshal_u = Inr, js_unmarshal_TaskGroup = cd_dec cd, js_unmarshal_TaskGroupList = cd_decList cd\<rparr>"

text \<open>What a caller that looks at the error first sees of a result.\<close>

definition outcome_of :: "'a option go \<Rightarrow> goerror + 'a option" where
  "outcome_of res = (case snd res of Some err \<Rightarrow> Inl err | None \<Rightarrow> Inr (fst res))"

lemma outcome_Into:
  "outcome_of (Into decode zero res) =
     (case res of Inl err \<Rightarrow> Inl err | Inr body \<Rightarrow> (case decode body of Inl err \<Rightarrow> Inl err | Inr x \<Rightarrow> Inr (Some x)))"
  by (simp add: Into_def outcome_of_def split: sum.split)

lemma Do_route:
  "rq_err r = None \<Longrightarrow> requestPreflightCheck r = None \<Longrightarrow> Do (rest_of cd sv) r = route cd sv r"
  by (simp add: Do_def rest_of_def)

lemmas builder_defs = rq_Namespace_def rq_Resource_def rq_Name_def VersionedParams_def
  rq_Timeout_def rq_Body_def Verb_def Patch_verb_def unless_err_def newTaskGroups_def

lemma taskgroups_segment [simp]: "IsValidPathSegmentName ''taskgroups'' = []"
  by (simp add: IsValidPathSegmentName_iff safe_segment_def)

lemma typed_serves:
  fixes cd :: "'b Codec" and sv :: Server and ns :: string
  assumes "codec_ok cd" "safe_segment ns" "ns \<noteq> []" "safe_segment name" "name \<noteq> []" "list_all safe_segment subs"
  defines "c \<equiv> newTaskGroups (rest_of cd sv) ns"
  shows "outcome_of (taskGroups_Get c name go) = map_sum id (Some \<circ> clear_kind) (sv_Get sv ns name go)"
    and "outcome_of (taskGroups_List c lo) = map_sum id (Some \<circ> clear_list_kind) (sv_List sv ns lo)"
    and "outcome_of (taskGroups_Create c tg co) = map_sum id (Some \<circ> clear_kind) (sv_Create sv ns (SetGroupVersionKind tg) co)"
    and "om_Name (tgr_Meta tg) = name \<Longrightarrow>
      outcome_of (taskGroups_Update c tg uo) = map_sum id (Some \<circ> clear_kind) (sv_Update sv ns (SetGroupVersionKind tg) uo)"
    and "taskGroups_Delete c name del = sv_Delete sv ns name del"
    and "outcome_of (taskGroups_Patch c name pt data po subs) =
      map_sum id (Some \<circ> clear_kind) (sv_Patch sv ns name pt data po (filter (\<lambda>s. s \<noteq> []) subs))"
proof -
  have ok: "cd_dec cd (cd_enc cd tg) = Inr tg" "cd_decList cd (cd_encList cd l) = Inr l" for tg l
    using assms(1) by (simp_all add: codec_ok_def)
  have v: "IsValidPathSegmentName ns = []" "IsValidPathSegmentName name = []"
    using assms(2,4) by (simp_all add: IsValidPathSegmentName_iff)
  have "find (\<lambda>s. IsValidPathSegmentName s \<noteq> []) subs = None"
    using assms(6) by (simp add: find_None_iff IsValidPathSegmentName_iff list_all_iff)
  then have f: "rq_SubResource subs r = r\<lparr>rq_subresources := filter (\<lambda>s. s \<noteq> []) subs\<rparr>"
    if "rq_err r = None" "rq_subresources r = []" for r
    unfolding rq_SubResource_def using that by (simp only: unless_err_def) simp
  note d = c_def builder_defs v assms(3,5) Do_route requestPreflightCheck_def route_def Let_def rest_of_def [of cd sv, symmetric]
  have dec: "rc_TaskGroup (rest_of cd sv) = WithoutVersionDecoder clear_kind (cd_dec cd)"
    "rc_TaskGroupList (rest_of cd sv) = WithoutVersionDecoder clear_list_kind (cd_decList cd)"
    by (simp_all add: rest_of_def)
  show "outcome_of (taskGroups_Get c name go) = map_sum id (Some \<circ> clear_kind) (sv_Get sv ns name go)"
    by (cases "sv_Get sv ns name go") (simp_all add: taskGroups_Get_def d dec outcome_Into WithoutVersionDecoder_def ok)
  show "outcome_of (taskGroups_List c lo) = map_sum id (Some \<circ> clear_list_kind) (sv_List sv ns lo)"
    by (cases "sv_List sv ns lo") (simp_all add: taskGroups_List_def d dec outcome_Into WithoutVersionDecoder_def ok)
  show "outcome_of (taskGroups_Create c tg co) = map_sum id (Some \<circ> clear_kind) (sv_Create sv ns (SetGroupVersionKind tg) co)"
    by (cases "sv_Create sv ns (SetGroupVersionKind tg) co") (simp_all add: taskGroups_Create_def d dec outcome_Into WithoutVersionDecoder_def ok)
  show "outcome_of (taskGroups_Update c tg uo) = map_sum id (Some \<circ> clear_kind) (sv_Update sv ns (SetGroupVersionKind tg) uo)"
    if "om_Name (tgr_Meta tg) = name"
    using that by (cases "sv_Update sv ns (SetGroupVersionKind tg) uo")
      (simp_all add: taskGroups_Update_def d dec outcome_Into WithoutVersionDecoder_def ok)
  show "taskGroups_Delete c name del = sv_Delete sv ns name del"
    by (cases "sv_Delete sv ns name del") (simp_all add: taskGroups_Delete_def d Result_Error_def)
  let ?subs = "filter (\<lambda>s. s \<noteq> []) subs"
  let ?r = "(Patch_verb pt)\<lparr>rq_namespaceSet := True, rq_namespace := ns, rq_resource := ''taskgroups'',
      rq_resourceName := name, rq_subresources := ?subs, rq_params := [PatchParams po], rq_body := Some (Bytes_body data)\<rparr>"
  have r: "rq_Body (Bytes_body data) (VersionedParams (PatchParams po) (rq_SubResource subs (rq_Name name
      (rq_Resource ''taskgroups'' (rq_Namespace ns (Patch_verb pt)))))) = ?r"
    by (simp add: builder_defs v assms(3,5) f)
  have "Do (rest_of cd sv) ?r = map_sum id (cd_enc cd) (sv_Patch sv ns name pt data po ?subs)"
    by (subst Do_route) (simp_all add: requestPreflightCheck_def route_def Patch_verb_def Verb_def assms(3))
  then show "outcome_of (taskGroups_Patch c name pt data po subs) = map_sum id (Some \<circ> clear_kind) (sv_Patch sv ns name pt data po ?subs)"
    by (cases "sv_Patch sv ns name pt data po ?subs")
      (simp_all add: taskGroups_Patch_def c_def newTaskGroups_def r dec outcome_Into WithoutVersionDecoder_def ok)
qed

lemma wrap_serves:
  fixes cd :: "'b Codec" and sv :: Server and ns :: string
  assumes "codec_ok cd"
  defines "w \<equiv> wrap_TaskGroups (dynamic_of cd sv) (json_of cd) ns"
  shows "outcome_of (wrap_Get w name go) = map_sum id Some (sv_Get sv ns name go)"
    and "outcome_of (wrap_List w lo) = map_sum id Some (sv_List sv ns lo)"
    and "outcome_of (fst (wrap_Create w tg co)) = map_sum id Some (sv_Create sv ns (SetGroupVersionKind tg) co)"
    and "outcome_of (fst (wrap_Update w tg uo)) = map_sum id Some (sv_Update sv ns (SetGroupVersionKind tg) uo)"
    and "wrap_Delete w name del = sv_Delete sv ns name del"
    and "outcome_of (wrap_Patch w name pt data po subs) = map_sum id Some (sv_Patch sv ns name pt data po [])"
proof -
  have ok: "cd_dec cd (cd_enc cd tg) = Inr tg" "cd_decList cd (cd_encList cd l) = Inr l" for tg l
    using assms(1) by (simp_all add: codec_ok_def)
  note d = w_def wrap_TaskGroups_def dynamic_of_def json_of_def convert_def from_unstructured_def outcome_of_def Let_def ok
  show "outcome_of (wrap_Get w name go) = map_sum id Some (sv_Get sv ns name go)"
    by (cases "sv_Get sv ns name go") (simp_all add: wrap_Get_def d)
  show "outcome_of (wrap_List w lo) = map_sum id Some (sv_List sv ns lo)"
    by (cases "sv_List sv ns lo") (simp_all add: wrap_List_def d)
  show "outcome_of (fst (wrap_Create w tg co)) = map_sum id Some (sv_Create sv ns (SetGroupVersionKind tg) co)"
    by (cases "sv_Create sv ns (SetGroupVersionKind tg) co") (simp_all add: wrap_Create_def d)
  show "outcome_of (fst (wrap_Update w tg uo)) = map_sum id Some (sv_Update sv ns (SetGroupVersionKind tg) uo)"
    by (cases "sv_Update sv ns (SetGroupVersionKind tg) uo") (simp_all add: wrap_Update_def d)
  show "wrap_Delete w name del = sv_Delete sv ns name del"
    by (simp add: wrap_Delete_def d)
  show "outcome_of (wrap_Patch w name pt data po subs) = map_sum id Some (sv_Patch sv ns name pt data po [])"
    by (cases "sv_Patch sv ns name pt data po []") (simp_all add: wrap_Patch_def d)
qed

text \<open>C26. The injection client and the typed client to one server do the same requests and give the same results but
  for the kind: Get, List, Create, Update and Delete give the same error or the same object, from which the typed
  client has cleared kind and API version while the injection client keeps those of the server. Create and Update
  through the injection client also write the group, version and kind into the caller's object. Its Patch drops the
  subresources: it does what the typed client does without any.\<close>

theorem clients_agree:
  assumes "codec_ok cd" "safe_segment ns" "ns \<noteq> []" "safe_segment name" "name \<noteq> []" "om_Name (tgr_Meta tg) = name"
  shows "outcome_of (taskGroups_Get (newTaskGroups (rest_of cd sv) ns) name go) =
      map_sum id (map_option clear_kind) (outcome_of (wrap_Get (wrap_TaskGroups (dynamic_of cd sv) (json_of cd) ns) name go)) \<and>
    outcome_of (wrap_Get (wrap_TaskGroups (dynamic_of cd sv) (json_of cd) ns) name go) = map_sum id Some (sv_Get sv ns name go) \<and>
    outcome_of (taskGroups_List (newTaskGroups (rest_of cd sv) ns) lo) =
      map_sum id (map_option clear_list_kind) (outcome_of (wrap_List (wrap_TaskGroups (dynamic_of cd sv) (json_of cd) ns) lo)) \<and>
    (outcome_of (taskGroups_Create (newTaskGroups (rest_of cd sv) ns) tg co) =
      map_sum id (map_option clear_kind) (outcome_of (fst (wrap_Create (wrap_TaskGroups (dynamic_of cd sv) (json_of cd) ns) tg co))) \<and>
     snd (wrap_Create (wrap_TaskGroups (dynamic_of cd sv) (json_of cd) ns) tg co) = SetGroupVersionKind tg) \<and>
    outcome_of (taskGroups_Update (newTaskGroups (rest_of cd sv) ns) tg uo) =
      map_sum id (map_option clear_kind) (outcome_of (fst (wrap_Update (wrap_TaskGroups (dynamic_of cd sv) (json_of cd) ns) tg uo))) \<and>
    taskGroups_Delete (newTaskGroups (rest_of cd sv) ns) name del =
      wrap_Delete (wrap_TaskGroups (dynamic_of cd sv) (json_of cd) ns) name del \<and>
    outcome_of (taskGroups_Patch (newTaskGroups (rest_of cd sv) ns) name pt data po []) =
      map_sum id (map_option clear_kind)
        (outcome_of (wrap_Patch (wrap_TaskGroups (dynamic_of cd sv) (json_of cd) ns) name pt data po subs))"
proof -
  have m: "map_sum id (map_option f) (map_sum id Some r) = map_sum id (Some \<circ> f) r" for f :: "'x \<Rightarrow> 'x" and r :: "goerror + 'x"
    by (cases r) simp_all
  show ?thesis
    using typed_serves [OF assms(1-5), where subs = "[]" and sv = sv] wrap_serves [OF assms(1), where sv = sv and ns = ns] assms(6)
    by (simp add: m wrap_Create_def Let_def)
qed

text \<open>A codec and a server that knows one TaskGroup.\<close>

definition ex_codec :: "(TaskGroup + TaskGroupList) Codec" where
  "ex_codec =
     \<lparr>cd_enc = Inl, cd_dec = (\<lambda>b. case b of Inl tg \<Rightarrow> Inr tg | Inr l \<Rightarrow> bad_request),
      cd_encList = Inr, cd_decList = (\<lambda>b. case b of Inl tg \<Rightarrow> bad_request | Inr l \<Rightarrow> Inr l),
      cd_empty = Inl zero_TaskGroup\<rparr>"

lemma ex_codec_ok: "codec_ok ex_codec"
  by (simp add: codec_ok_def ex_codec_def)

definition ex_object :: TaskGroup where
  "ex_object = zero_TaskGroup\<lparr>tgr_Meta := empty_meta\<lparr>om_Name := ''group'', om_Namespace := ''ns''\<rparr>\<rparr>"

definition ex_server :: Server where
  "ex_server =
     \<lparr>sv_Get = (\<lambda>ns name opts. if ns = ''ns'' \<and> name = ''group'' then Inr ex_object else Inl (Errorf ''not found'')),
      sv_List = (\<lambda>ns opts. Inr (zero_TaskGroupList\<lparr>tl_Items := [ex_object]\<rparr>)),
      sv_Create = (\<lambda>ns tg opts. Inr tg), sv_Update = (\<lambda>ns tg opts. Inr tg), sv_Delete = (\<lambda>ns name opts. None),
      sv_Patch = (\<lambda>ns name pt data opts subs. if subs = [] then Inr ex_object else Inl (Errorf ''not found''))\<rparr>"

theorem clients_agree_witness:
  "outcome_of (taskGroups_Create (newTaskGroups (rest_of ex_codec ex_server) ''ns'') ex_object []) = Inr (Some ex_object) \<and>
    outcome_of (fst (wrap_Create (wrap_TaskGroups (dynamic_of ex_codec ex_server) (json_of ex_codec) ''ns'') ex_object [])) =
      Inr (Some (SetGroupVersionKind ex_object))"
proof -
  have "safe_segment ''ns''" "safe_segment ''group''" "om_Name (tgr_Meta ex_object) = ''group''"
    by (simp_all add: safe_segment_def ex_object_def)
  from clients_agree [OF ex_codec_ok this(1) _ this(2) _ this(3), of ex_server]
  have "outcome_of (taskGroups_Create (newTaskGroups (rest_of ex_codec ex_server) ''ns'') ex_object []) =
      map_sum id (map_option clear_kind)
        (outcome_of (fst (wrap_Create (wrap_TaskGroups (dynamic_of ex_codec ex_server) (json_of ex_codec) ''ns'') ex_object [])))"
    by blast
  moreover have "outcome_of (fst (wrap_Create (wrap_TaskGroups (dynamic_of ex_codec ex_server) (json_of ex_codec) ''ns'') ex_object [])) =
      Inr (Some (SetGroupVersionKind ex_object))"
    using wrap_serves(3) [OF ex_codec_ok, of ex_server "''ns''" ex_object "[]"] by (simp add: ex_server_def)
  ultimately show ?thesis by (simp add: clear_kind_def SetGroupVersionKind_def ex_object_def zero_TaskGroup_def)
qed

end
