(* ===== verification/System.thy ===== *)
theory System
  imports Reconcile_Properties Client
begin

text \<open>
  Components together: the reconciler over the typed client. \<open>getTaskGroup\<close> fetches the TaskGroup through
  \<open>taskgroupClientSet\<close>, not through the lister, so that a TaskGroup created shortly before the Run is found.
\<close>

section \<open>The reconciler over the client\<close>

text \<open>\<open>c.taskgroupClientSet.CustomV1alpha1().TaskGroups(ns).Get(ctx, name, metav1.GetOptions{})\<close> in \<open>getTaskGroup\<close>, which looks
  at the error first.\<close>

definition client_getTaskGroup :: "('b, 'w) RestClient \<Rightarrow> string \<Rightarrow> string \<Rightarrow> goerror + TaskGroup" where
  "client_getTaskGroup c ns name =
     (case taskGroups_Get (newTaskGroups c ns) name \<lparr>go_ResourceVersion = [], go_rest = []\<rparr> of
        (_, Some err) \<Rightarrow> Inl err
      | (Some tg, None) \<Rightarrow> Inr tg
      | (None, None) \<Rightarrow> Inl (Errorf ''nil TaskGroup''))"

text \<open>The request that this sends.\<close>

definition Get_request :: "string \<Rightarrow> string \<Rightarrow> Request" where
  "Get_request ns name = (Verb ''GET'')\<lparr>rq_namespaceSet := True, rq_namespace := ns, rq_resource := ''taskgroups'',
     rq_resourceName := name, rq_params := [GetParams \<lparr>go_ResourceVersion = [], go_rest = []\<rparr>]\<rparr>"

lemma client_getTaskGroup_error:
  assumes "safe_segment ns" "ns \<noteq> []" "safe_segment name" "name \<noteq> []" "rc_send c (Get_request ns name) = Inl err"
  shows "client_getTaskGroup c ns name = Inl err"
proof -
  have v: "IsValidPathSegmentName ns = []" "IsValidPathSegmentName name = []"
    using assms(1,3) by (simp_all add: IsValidPathSegmentName_iff)
  have r: "VersionedParams (GetParams \<lparr>go_ResourceVersion = [], go_rest = []\<rparr>) (rq_Name name (rq_Resource ''taskgroups''
      (rq_Namespace ns (Verb ''GET'')))) = Get_request ns name"
    by (simp add: builder_defs v assms(2,4) Get_request_def)
  have "Do c (Get_request ns name) = Inl err"
    by (simp add: Do_def requestPreflightCheck_def Get_request_def Verb_def assms(2)) (use assms(5) in \<open>simp add: Get_request_def Verb_def\<close>)
  then show ?thesis by (simp add: client_getTaskGroup_def taskGroups_Get_def Let_def r [unfolded newTaskGroups_def] newTaskGroups_def Into_def r)
qed

text \<open>C23. An error of the API server fails a Run for good. When the request for the TaskGroup of a Run is answered with an
  error, be it that there is none or that the server cannot answer now, the Run is marked failed with this error, nothing
  is created, and although the error is returned for a retry, the next \<open>ReconcileKind\<close> of the Run as it is then does
  nothing, even if the TaskGroup can be fetched by then. (A new generation of the Run opens it again: \<open>Run_Worker\<close>; and so
  may a retry that works on the version of the Run before the failure: \<open>Lost_Writes\<close>.)\<close>

theorem TaskGroup_error_fails_Run:
  assumes "status_wf (run_Status run)" "active run" "rsp_Ref (run_Spec run) = Some ref" "tref_Name ref \<noteq> []"
    and "safe_segment (run_Namespace run)" "run_Namespace run \<noteq> []" "safe_segment (tref_Name ref)"
    and "e_getTaskGroup env = client_getTaskGroup c"
    and "rc_send c (Get_request (run_Namespace run) (tref_Name ref)) = Inl err"
    and "e_encodeStatus env (recorded env run (decoded env run)) = Inr data"
  shows "run_view (run_Status (st_Run (snd (ReconcileKind env run)))) =
      Some (ConditionFalse, ''CouldntGetTaskGroup'', ''Error retrieving TaskGroup for Run '' @ run_path run @ '': '' @ error_string err) \<and>
    fst (ReconcileKind env run) \<noteq> [] \<and> task_writes_of (snd (ReconcileKind env run)) = [] \<and>
    fst (ReconcileKind env' (st_Run (snd (ReconcileKind env run)))) = [] \<and>
    task_writes_of (snd (ReconcileKind env' (st_Run (snd (ReconcileKind env run))))) = []"
proof -
  have tg: "taskgroup_of env run = Inl err"
    using client_getTaskGroup_error [OF assms(5,6,7,4,9)] assms(3,4,8) by (simp add: taskgroup_of_def)
  have v: "run_view (final_status env run) =
      Some (ConditionFalse, ''CouldntGetTaskGroup'', ''Error retrieving TaskGroup for Run '' @ run_path run @
        '': '' @ error_string err)"
    using final_view(1) [OF assms(1,2,10)] tg by (simp add: outcome_def outcome_view_def)
  then have "Run_IsDone (st_Run (final env run))"
    using view_done [OF v] by (simp add: Run_IsDone_def)
  then have d: "\<not> active (st_Run (final env run))" by (simp add: active_def)
  have "retries env run" by (simp add: retries_def tg)
  then have "fst (reconcile env (entry env run)) \<noteq> None"
    unfolding reconcile_retries spec_cong(4) [OF entry_frame(1,2) [OF assms(1), of env]] .
  then have e: "fst (ReconcileKind env run) \<noteq> []"
    by (auto simp: final_active(6) [OF assms(1,2)] opt_list_def)
  show ?thesis
    using v e ReconcileKind_inactive(1,2) [OF final_wf [OF assms(1), of env] d] final_active(1) [OF assms(1,2), of env] tg
    by (simp add: task_writes_def)
qed

text \<open>An API server that is too busy for a moment.\<close>

definition ex_busy :: "(string, unit) RestClient" where
  "ex_busy = ex_rest\<lparr>rc_send := \<lambda>r. Inl (Errorf ''etcdserver: leader changed'')\<rparr>"

definition ex_env_busy :: Env where
  "ex_env_busy = (ex_env [])\<lparr>e_getTaskGroup := client_getTaskGroup ex_busy\<rparr>"

theorem TaskGroup_error_fails_Run_witness:
  "run_view (final_status ex_env_busy ex_run) = Some (ConditionFalse, ''CouldntGetTaskGroup'',
     ''Error retrieving TaskGroup for Run ns/run: etcdserver: leader changed'') \<and>
   task_writes_of (snd (ReconcileKind (ex_env []) (st_Run (snd (ReconcileKind ex_env_busy ex_run))))) = []"
proof -
  obtain ref where ref: "rsp_Ref (run_Spec ex_run) = Some ref" "tref_Name ref \<noteq> []" "safe_segment (tref_Name ref)"
    by (simp add: ex_run_def safe_segment_def)
  have ns: "safe_segment (run_Namespace ex_run)" "run_Namespace ex_run \<noteq> []" "run_path ex_run = ''ns/run''"
    by (simp_all add: ex_run_def safe_segment_def run_path_def)
  have e: "e_getTaskGroup ex_env_busy = client_getTaskGroup ex_busy" "e_encodeStatus ex_env_busy st = Inr ''encoded''" for st
    by (simp_all add: ex_env_busy_def)
  have b: "rc_send ex_busy r = Inl (Errorf ''etcdserver: leader changed'')" for r by (simp add: ex_busy_def)
  show ?thesis
    using TaskGroup_error_fails_Run [OF ex_run_wf ex_active ref(1,2) ns(1,2) ref(3) e(1) b e(2), of "ex_env []"] ns(3) by simp
qed

end
