(* ===== verification/Controller.thy ===== *)
theory Controller
  imports Reconcile_Properties
begin

text \<open>
  \<open>pkg/reconciler/taskgroup/controller.go\<close>: the event handlers \<open>NewController\<close> installs, with the
  filters of tektoncd/pipeline (\<open>FilterRunRef\<close>, \<open>FilterOwnerRunRef\<close>), the filtering handler of
  client-go and the enqueue functions of knative.dev/pkg. The lemmas show which informer events put
  which key on the work queue.

  A handler returns the keys it adds to the work queue, or \<open>None\<close> where it dereferences a nil pointer
  and panics. The lister of Runs is a parameter.
\<close>

section \<open>Objects and keys\<close>

text \<open>What an informer hands to a handler, an \<open>interface{}\<close>: a pointer (nil is \<open>None\<close>) to a Run or a
  TaskRun, the tombstone of a deletion that was missed, or a value of another type.\<close>

datatype obj =
    RunObj "Run option"
  | TaskRunObj "TaskRun option"
  | DeletedFinalStateUnknown string obj
  | OtherObj

record NamespacedName =
  nn_Namespace :: string
  nn_Name :: string

type_synonym keys = "NamespacedName list option"

definition key_of :: "ObjectMeta \<Rightarrow> NamespacedName" where
  "key_of m = \<lparr>nn_Namespace = om_Namespace m, nn_Name = om_Name m\<rparr>"

text \<open>\<open>obj.(metav1.Object)\<close>: whether the value has object metadata (\<open>None\<close>: it has not), and the
  metadata behind the pointer (\<open>Some None\<close> for nil).\<close>

fun as_Object :: "obj \<Rightarrow> ObjectMeta option option" where
  "as_Object (RunObj r) = Some (map_option run_Meta r)"
| "as_Object (TaskRunObj tr) = Some (map_option tr_Meta tr)"
| "as_Object (DeletedFinalStateUnknown key obj) = None"
| "as_Object OtherObj = None"

definition GetControllerOf :: "ObjectMeta \<Rightarrow> OwnerReference option" where
  "GetControllerOf m = find (\<lambda>ref. or_Controller ref = Some True) (om_OwnerReferences m)"

section \<open>The filters\<close>

definition FilterRunRef :: "string \<Rightarrow> string \<Rightarrow> obj \<Rightarrow> bool option" where
  "FilterRunRef apiVersion kind obj =
     (case obj of
        RunObj r \<Rightarrow>
          (case r of
             None \<Rightarrow> Some False
           | Some r \<Rightarrow>
               (case (rsp_Ref (run_Spec r), rsp_Spec (run_Spec r)) of
                  (None, None) \<Rightarrow> Some False
                | (Some ref, _) \<Rightarrow> Some (tref_APIVersion ref = apiVersion \<and> tref_Kind ref = kind)
                | (None, Some spec) \<Rightarrow> Some (ers_APIVersion spec = apiVersion \<and> ers_Kind spec = kind)))
      | _ \<Rightarrow> Some False)"

definition FilterOwnerRunRef ::
    "(string \<Rightarrow> string \<Rightarrow> goerror + Run) \<Rightarrow> string \<Rightarrow> string \<Rightarrow> obj \<Rightarrow> bool option" where
  "FilterOwnerRunRef runLister apiVersion kind obj =
     (case as_Object obj of
        None \<Rightarrow> Some False
      | Some None \<Rightarrow> None
      | Some (Some object) \<Rightarrow>
          (case GetControllerOf object of
             None \<Rightarrow> Some False
           | Some owner \<Rightarrow>
               if or_APIVersion owner \<noteq> gv_String \<lparr>gv_Group = pipeline_GroupName, gv_Version = ''v1alpha1''\<rparr> \<or>
                  or_Kind owner \<noteq> RunControllerName
               then Some False
               else (case runLister (om_Namespace object) (or_Name owner) of
                       Inl err \<Rightarrow> Some False
                     | Inr run \<Rightarrow>
                         (case (rsp_Ref (run_Spec run), rsp_Spec (run_Spec run)) of
                            (None, None) \<Rightarrow> Some False
                          | (Some ref, Some spec) \<Rightarrow> Some False
                          | (Some ref, None) \<Rightarrow> Some (tref_APIVersion ref = apiVersion \<and> tref_Kind ref = kind)
                          | (None, Some spec) \<Rightarrow> Some (ers_APIVersion spec = apiVersion \<and> ers_Kind spec = kind)))))"

section \<open>Handlers\<close>

record ResourceEventHandler =
  on_Add :: "obj \<Rightarrow> keys"
  on_Update :: "obj \<Rightarrow> obj \<Rightarrow> keys"
  on_Delete :: "obj \<Rightarrow> keys"

definition when_filter :: "bool option \<Rightarrow> keys \<Rightarrow> keys" where
  "when_filter b act = (case b of None \<Rightarrow> None | Some True \<Rightarrow> act | Some False \<Rightarrow> Some [])"

definition FilteringResourceEventHandler ::
    "(obj \<Rightarrow> bool option) \<Rightarrow> ResourceEventHandler \<Rightarrow> ResourceEventHandler" where
  "FilteringResourceEventHandler filterFunc handler =
     \<lparr>on_Add = (\<lambda>obj. when_filter (filterFunc obj) (on_Add handler obj)),
      on_Update = (\<lambda>oldObj newObj.
        (case filterFunc newObj of
           None \<Rightarrow> None
         | Some newer \<Rightarrow>
             (case filterFunc oldObj of
                None \<Rightarrow> None
              | Some older \<Rightarrow>
                  if newer \<and> older then on_Update handler oldObj newObj
                  else if newer \<and> \<not> older then on_Add handler newObj
                  else if \<not> newer \<and> older then on_Delete handler oldObj
                  else Some []))),
      on_Delete = (\<lambda>obj. when_filter (filterFunc obj) (on_Delete handler obj))\<rparr>"

definition HandleAll :: "(obj \<Rightarrow> keys) \<Rightarrow> ResourceEventHandler" where
  "HandleAll h = \<lparr>on_Add = h, on_Update = (\<lambda>first second. h second), on_Delete = h\<rparr>"

text \<open>\<open>kmeta.DeletionHandlingAccessor\<close>: the object, or the one a tombstone holds; \<open>None\<close> is its error,
  \<open>Some None\<close> a nil pointer.\<close>

definition DeletionHandlingAccessor :: "obj \<Rightarrow> ObjectMeta option option" where
  "DeletionHandlingAccessor obj =
     (case as_Object obj of
        Some acc \<Rightarrow> Some acc
      | None \<Rightarrow> (case obj of DeletedFinalStateUnknown key inner \<Rightarrow> as_Object inner | _ \<Rightarrow> None))"

definition Enqueue :: "obj \<Rightarrow> keys" where
  "Enqueue obj =
     (case DeletionHandlingAccessor obj of
        None \<Rightarrow> Some [] | Some None \<Rightarrow> None | Some (Some object) \<Rightarrow> Some [key_of object])"

definition EnqueueControllerOf :: "obj \<Rightarrow> keys" where
  "EnqueueControllerOf obj =
     (case DeletionHandlingAccessor obj of
        None \<Rightarrow> Some []
      | Some None \<Rightarrow> None
      | Some (Some object) \<Rightarrow>
          (case GetControllerOf object of
             None \<Rightarrow> Some []
           | Some owner \<Rightarrow> Some [\<lparr>nn_Namespace = om_Namespace object, nn_Name = or_Name owner\<rparr>]))"

section \<open>NewController\<close>

text \<open>The handlers \<open>NewController\<close> adds to the informers of Runs and of TaskRuns.\<close>

record Handlers =
  h_Run :: ResourceEventHandler
  h_TaskRun :: ResourceEventHandler

definition NewController :: "(string \<Rightarrow> string \<Rightarrow> goerror + Run) \<Rightarrow> Handlers" where
  "NewController runLister =
     \<lparr>h_Run = FilteringResourceEventHandler
        (FilterRunRef (gv_String SchemeGroupVersion) TaskGroupControllerName) (HandleAll Enqueue),
      h_TaskRun = FilteringResourceEventHandler
        (FilterOwnerRunRef runLister (gv_String SchemeGroupVersion) TaskGroupControllerName)
        (HandleAll EnqueueControllerOf)\<rparr>"

text \<open>An informer calls the handler once per change of its cache.\<close>

datatype change = Added obj | Updated obj obj | Deleted obj

fun deliver :: "ResourceEventHandler \<Rightarrow> change \<Rightarrow> keys" where
  "deliver h (Added obj) = on_Add h obj"
| "deliver h (Updated old new) = on_Update h old new"
| "deliver h (Deleted obj) = on_Delete h obj"

section \<open>Runs\<close>

lemma when_filter_simps [simp]:
  "when_filter (Some b) act = (if b then act else Some [])" "when_filter None act = None"
  by (simp_all add: when_filter_def)

lemma FilteringResourceEventHandler_sel [simp]:
  "on_Add (FilteringResourceEventHandler f h) obj = when_filter (f obj) (on_Add h obj)"
  "on_Delete (FilteringResourceEventHandler f h) obj = when_filter (f obj) (on_Delete h obj)"
  "f new = Some b \<Longrightarrow> f old = Some b' \<Longrightarrow>
     on_Update (FilteringResourceEventHandler f h) old new =
       (if b then if b' then on_Update h old new else on_Add h new
        else if b' then on_Delete h old else Some [])"
  by (auto simp: FilteringResourceEventHandler_def)

lemma HandleAll_sel [simp]:
  "on_Add (HandleAll h) = h" "on_Update (HandleAll h) old new = h new" "on_Delete (HandleAll h) = h"
  by (simp_all add: HandleAll_def)

lemma SchemeGroupVersion_not_empty: "gv_String SchemeGroupVersion \<noteq> []"
  by (simp add: gv_String_def SchemeGroupVersion_def)

lemma FilterRunRef_references:
  "FilterRunRef (gv_String SchemeGroupVersion) TaskGroupControllerName (RunObj r) =
     Some (case r of None \<Rightarrow> False | Some run \<Rightarrow> references_TaskGroup run)"
  using SchemeGroupVersion_not_empty SchemeGroupVersion_not_empty [symmetric]
  by (auto simp: FilterRunRef_def references_TaskGroup_def Let_def split: option.splits)

lemma Enqueue_Run [simp]: "Enqueue (RunObj (Some run)) = Some [key_of (run_Meta run)]"
  by (simp add: Enqueue_def DeletionHandlingAccessor_def)

lemma ReconcileKind_not_referenced:
  "\<not> references_TaskGroup run \<Longrightarrow>
     ReconcileKind env run = ([], \<lparr>st_Run = run, st_Status = empty_run_status, st_Effects = []\<rparr>)"
  by (simp add: ReconcileKind_def)

text \<open>C29. The handler of Runs enqueues exactly the Runs the reconciler deals with: a new or changed Run that
  refers to a TaskGroup, and a Run that has just stopped to do so; and \<open>ReconcileKind\<close> leaves every Run
  that is never enqueued as it is, without any write.\<close>

theorem Run_events_enqueue:
  "deliver (h_Run (NewController lister)) (Added (RunObj (Some run))) =
     Some (if references_TaskGroup run then [key_of (run_Meta run)] else []) \<and>
   deliver (h_Run (NewController lister)) (Updated (RunObj (Some old)) (RunObj (Some run))) =
     Some (if references_TaskGroup run then [key_of (run_Meta run)]
           else if references_TaskGroup old then [key_of (run_Meta old)] else []) \<and>
   (references_TaskGroup run \<or>
     ReconcileKind env run = ([], \<lparr>st_Run = run, st_Status = empty_run_status, st_Effects = []\<rparr>))"
  by (simp add: NewController_def FilterRunRef_references ReconcileKind_not_referenced)

section \<open>TaskRuns\<close>

lemma GetControllerOf_controlled:
  "om_OwnerReferences m = [NewControllerRef run] \<Longrightarrow> GetControllerOf m = Some (NewControllerRef run)"
  by (simp add: GetControllerOf_def NewControllerRef_def)

lemma FilterOwnerRunRef_controlled:
  assumes "om_OwnerReferences (tr_Meta tr) = [NewControllerRef run]"
    and "om_Namespace (tr_Meta tr) = run_Namespace run"
    and "lister (run_Namespace run) (run_Name run) = Inr run'"
  shows "FilterOwnerRunRef lister (gv_String SchemeGroupVersion) TaskGroupControllerName (TaskRunObj (Some tr)) =
    Some (references_TaskGroup run' \<and> (rsp_Ref (run_Spec run') = None \<or> rsp_Spec (run_Spec run') = None))"
proof -
  have "GetControllerOf (tr_Meta tr) = Some (NewControllerRef run)"
    using assms(1) by (rule GetControllerOf_controlled)
  then show ?thesis
    using assms(2,3) SchemeGroupVersion_not_empty SchemeGroupVersion_not_empty [symmetric]
    by (auto simp: FilterOwnerRunRef_def references_TaskGroup_def NewControllerRef_def Let_def split: option.splits)
qed

lemma EnqueueControllerOf_controlled:
  assumes "om_OwnerReferences (tr_Meta tr) = [NewControllerRef run]"
    and "om_Namespace (tr_Meta tr) = run_Namespace run"
  shows "EnqueueControllerOf (TaskRunObj (Some tr)) = Some [key_of (run_Meta run)]"
  using GetControllerOf_controlled [OF assms(1)] assms(2)
  by (simp add: EnqueueControllerOf_def DeletionHandlingAccessor_def NewControllerRef_def key_of_def)

text \<open>C30. Progress of a created TaskRun reaches its Run: when the API server keeps the namespace and the
  owner of a TaskRun that a reconcile created, every change of it enqueues the Run, provided the lister
  knows the Run and the Run still refers to a TaskGroup by exactly one of a reference and an embedded
  spec. For a Run with both, which \<open>ReconcileKind\<close> accepts, all these changes are dropped.\<close>

theorem created_TaskRun_wakes_Run:
  assumes "status_wf (run_Status run)"
    and "CreatedTaskRun tr \<in> set (st_Effects (snd (ReconcileKind env run)))"
    and "om_Namespace (tr_Meta tr1) = om_Namespace (tr_Meta tr)"
    and "om_OwnerReferences (tr_Meta tr1) = om_OwnerReferences (tr_Meta tr)"
    and "om_Namespace (tr_Meta tr2) = om_Namespace (tr_Meta tr)"
    and "om_OwnerReferences (tr_Meta tr2) = om_OwnerReferences (tr_Meta tr)"
    and "lister (run_Namespace run) (run_Name run) = Inr run'"
  shows "deliver (h_TaskRun (NewController lister)) (Updated (TaskRunObj (Some tr1)) (TaskRunObj (Some tr2))) =
    Some (if references_TaskGroup run' \<and> (rsp_Ref (run_Spec run') = None \<or> rsp_Spec (run_Spec run') = None)
          then [key_of (run_Meta run)] else [])"
proof -
  note c = created_meta [OF assms(1,2)]
  have o: "om_OwnerReferences (tr_Meta tr1) = [NewControllerRef run]" "om_Namespace (tr_Meta tr1) = run_Namespace run"
    "om_OwnerReferences (tr_Meta tr2) = [NewControllerRef run]" "om_Namespace (tr_Meta tr2) = run_Namespace run"
    using c assms(3-6) by simp_all
  note f = FilterOwnerRunRef_controlled [where lister = lister and run' = run', OF _ _ assms(7)]
  show ?thesis
    unfolding NewController_def deliver.simps Handlers.select_convs
      FilteringResourceEventHandler_sel(3) [OF f [OF o(3,4)] f [OF o(1,2)]] HandleAll_sel
      EnqueueControllerOf_controlled [OF o(3,4)]
    by (simp only: if_True if_False split: if_split) simp
qed

theorem created_TaskRun_wakes_Run_witness:
  "deliver (h_TaskRun (NewController (\<lambda>ns n. Inr ex_run)))
     (Updated (TaskRunObj (Some (wanted_TaskRun (ex_env []) ex_run ex_meta ex_wanted)))
       (TaskRunObj (Some (wanted_TaskRun (ex_env []) ex_run ex_meta ex_wanted)))) =
   Some [\<lparr>nn_Namespace = ''ns'', nn_Name = ''run''\<rparr>]"
proof -
  have r: "references_TaskGroup ex_run" "rsp_Spec (run_Spec ex_run) = None"
    "key_of (run_Meta ex_run) = \<lparr>nn_Namespace = ''ns'', nn_Name = ''run''\<rparr>"
    by (simp add: ex_run_references, simp_all add: ex_run_def key_of_def)
  show ?thesis
    by (subst created_TaskRun_wakes_Run [OF ex_run_wf ex_created, where run' = ex_run]) (simp_all add: r)
qed

section \<open>No handler panics\<close>

fun objs_of :: "change \<Rightarrow> obj list" where
  "objs_of (Added obj) = [obj]"
| "objs_of (Updated old new) = [old, new]"
| "objs_of (Deleted obj) = [obj]"

definition nil_obj :: "obj \<Rightarrow> bool" where
  "nil_obj obj \<longleftrightarrow> as_Object obj = Some None"

lemma FilterRunRef_Some:
  "\<exists>b. FilterRunRef a k obj = Some b \<and> (b \<longrightarrow> (\<exists>run. obj = RunObj (Some run)))"
proof (cases obj)
  case (RunObj r)
  then show ?thesis by (cases r) (auto simp: FilterRunRef_def split: option.splits)
qed (auto simp: FilterRunRef_def)

lemma FilterOwnerRunRef_cases:
  obtains "nil_obj obj" "FilterOwnerRunRef lister a k obj = None"
  | b where "\<not> nil_obj obj" "FilterOwnerRunRef lister a k obj = Some b" "b \<Longrightarrow> \<exists>m. as_Object obj = Some (Some m)"
proof (cases "as_Object obj")
  case None
  then show ?thesis using that(2) by (auto simp: FilterOwnerRunRef_def nil_obj_def)
next
  case (Some m)
  show ?thesis
  proof (cases m)
    case None
    with Some show ?thesis using that(1) by (simp add: FilterOwnerRunRef_def nil_obj_def)
  next
    case m: (Some m')
    have "\<exists>b. FilterOwnerRunRef lister a k obj = Some b"
      by (auto simp: FilterOwnerRunRef_def Some m split: option.splits sum.splits)
    with Some m show ?thesis using that(2) by (auto simp: nil_obj_def)
  qed
qed

lemma EnqueueControllerOf_object: "as_Object obj = Some (Some m) \<Longrightarrow> EnqueueControllerOf obj \<noteq> None"
  by (auto simp: EnqueueControllerOf_def DeletionHandlingAccessor_def split: option.splits)

lemma filtered_None:
  assumes "\<And>obj b. f obj = Some b \<Longrightarrow> b \<Longrightarrow> act obj \<noteq> None"
  shows "deliver (FilteringResourceEventHandler f (HandleAll act)) c = None \<longleftrightarrow> None \<in> f ` set (objs_of c)"
proof (cases c)
  case (Updated old new)
  then show ?thesis
    using assms by (auto simp: FilteringResourceEventHandler_def split: option.splits)
qed (use assms in \<open>auto simp: when_filter_def split: option.splits bool.splits\<close>)

text \<open>The handler of Runs never panics, whatever it is given; that of TaskRuns panics exactly when one
  of the objects of the change is a nil pointer. Both drop the tombstone of a missed deletion.\<close>

theorem handlers_never_panic:
  "deliver (h_Run (NewController lister)) c \<noteq> None \<and>
   (deliver (h_TaskRun (NewController lister)) c = None \<longleftrightarrow> (\<exists>obj \<in> set (objs_of c). nil_obj obj)) \<and>
   deliver (h_Run (NewController lister)) (Deleted (DeletedFinalStateUnknown key obj)) = Some [] \<and>
   deliver (h_TaskRun (NewController lister)) (Deleted (DeletedFinalStateUnknown key obj)) = Some []"
proof (intro conjI)
  let ?a = "gv_String SchemeGroupVersion" and ?k = TaskGroupControllerName
  have "FilterRunRef ?a ?k obj = Some b \<Longrightarrow> b \<Longrightarrow> Enqueue obj \<noteq> None" for obj b
    using FilterRunRef_Some [of ?a ?k obj] by auto
  then have "deliver (h_Run (NewController lister)) c = None \<longleftrightarrow> None \<in> FilterRunRef ?a ?k ` set (objs_of c)"
    unfolding NewController_def by (simp add: filtered_None)
  moreover have "FilterRunRef ?a ?k obj \<noteq> None" for obj
    using FilterRunRef_Some [of ?a ?k obj] by auto
  ultimately show "deliver (h_Run (NewController lister)) c \<noteq> None"
    by (metis imageE)
  have "FilterOwnerRunRef lister ?a ?k obj = Some b \<Longrightarrow> b \<Longrightarrow> EnqueueControllerOf obj \<noteq> None" for obj b
    by (rule FilterOwnerRunRef_cases [of obj lister ?a ?k]) (auto dest: EnqueueControllerOf_object)
  then have "deliver (h_TaskRun (NewController lister)) c = None \<longleftrightarrow>
      None \<in> FilterOwnerRunRef lister ?a ?k ` set (objs_of c)"
    unfolding NewController_def by (simp add: filtered_None)
  moreover have "FilterOwnerRunRef lister ?a ?k obj = None \<longleftrightarrow> nil_obj obj" for obj
    by (rule FilterOwnerRunRef_cases [of obj lister ?a ?k]) auto
  ultimately show "deliver (h_TaskRun (NewController lister)) c = None \<longleftrightarrow> (\<exists>obj \<in> set (objs_of c). nil_obj obj)"
    by (simp add: image_iff eq_commute [of None])
  show "deliver (h_Run (NewController lister)) (Deleted (DeletedFinalStateUnknown key obj)) = Some []"
    "deliver (h_TaskRun (NewController lister)) (Deleted (DeletedFinalStateUnknown key obj)) = Some []"
    by (simp_all add: NewController_def FilterRunRef_def FilterOwnerRunRef_def)
qed

end
