(* ===== verification/Run_Reconciler.thy ===== *)
theory Run_Reconciler
  imports Reconcile_Properties Controller
begin

text \<open>
  What runs \<open>ReconcileKind\<close>: the reconciler that knative generates for Runs
  (\<open>pkg/client/injection/reconciler/pipeline/v1alpha1/run\<close> of tektoncd/pipeline), its steps before and after
  (\<open>PreProcessReconcile\<close>, \<open>PostProcessReconcile\<close>), the write of the status with its retries, and the worker that
  takes keys from the queue (\<open>processNextWorkItem\<close>, \<open>handleErr\<close>).

  The \<open>Reconciler\<close> of this repository has no method but \<open>ReconcileKind\<close>, so the type assertions for
  \<open>ReadOnlyInterface\<close>, \<open>Finalizer\<close> and \<open>OnDeletionInterface\<close> fail, and the options of \<open>NewController\<close> set neither
  a \<open>ConfigStore\<close> nor \<open>SkipStatusUpdates\<close>: the branches for them are left out. Logging and metrics are left out.
\<close>

section \<open>The surroundings\<close>

text \<open>The lister of Runs, the API server (one answer for each attempt), leader election, the cluster's defaults and
  the clock.\<close>

record RunClient =
  rc_IsLeaderFor :: "NamespacedName \<Rightarrow> bool"
  rc_Lister :: "string \<Rightarrow> string \<Rightarrow> goerror + Run"
  rc_Get :: "nat \<Rightarrow> goerror + Run"
  rc_UpdateStatus :: "nat \<Rightarrow> Run \<Rightarrow> goerror option"
  rc_IsNotFound :: "goerror \<Rightarrow> bool"
  rc_IsConflict :: "goerror \<Rightarrow> bool"
  rc_DefaultServiceAccount :: string
  rc_DefaultPodTemplate :: "string option"
  rc_Now :: "nat \<Rightarrow> gotime"

text \<open>\<open>equality.Semantic.DeepEqual\<close> on statuses: transition times are volatile.\<close>

definition status_DeepEqual :: "RunStatus \<Rightarrow> RunStatus \<Rightarrow> bool" where
  "status_DeepEqual a b \<longleftrightarrow>
     a\<lparr>rs_Conditions := map (cond_LastTransitionTime_update (\<lambda>_. 0)) (rs_Conditions a)\<rparr> =
     b\<lparr>rs_Conditions := map (cond_LastTransitionTime_update (\<lambda>_. 0)) (rs_Conditions b)\<rparr>"

section \<open>Before and after ReconcileKind\<close>

definition Run_SetDefaults :: "RunClient \<Rightarrow> Run \<Rightarrow> Run" where
  "Run_SetDefaults rc r =
     (let rs = run_Spec r;
          defaultSA = rc_DefaultServiceAccount rc;
          rs = (if rsp_ServiceAccountName rs = [] \<and> defaultSA \<noteq> [] then rs\<lparr>rsp_ServiceAccountName := defaultSA\<rparr> else rs);
          defaultPodTemplate = rc_DefaultPodTemplate rc;
          rs = (if rsp_PodTemplate rs = None then rs\<lparr>rsp_PodTemplate := defaultPodTemplate\<rparr> else rs)
      in r\<lparr>run_Spec := rs\<rparr>)"

text \<open>\<open>conditionsImpl.MarkUnknown\<close> of a condition set without dependents.\<close>

definition manager_MarkUnknown :: "gotime \<Rightarrow> string \<Rightarrow> string \<Rightarrow> string \<Rightarrow> RunStatus \<Rightarrow> RunStatus" where
  "manager_MarkUnknown now t reason message r = SetCondition now (new_condition t ConditionUnknown reason message) r"

definition failedGenerationBump :: string where "failedGenerationBump = ''NewObservedGenFailure''"

definition PreProcessReconcile :: "RunClient \<Rightarrow> Run \<Rightarrow> Run" where
  "PreProcessReconcile rc resource =
     (let resource = Run_SetDefaults rc resource;
          newStatus = run_Status resource;
          newStatus = manager_InitializeConditions (rc_Now rc 0) newStatus;
          newStatus =
            (if rs_ObservedGeneration newStatus \<noteq> om_Generation (run_Meta resource)
             then manager_MarkUnknown (rc_Now rc 1) ConditionSucceeded failedGenerationBump
                    ''unsuccessfully observed a new generation'' newStatus
             else newStatus)
      in resource\<lparr>run_Status := newStatus\<rparr>)"

definition groomConditionsTransitionTime :: "gotime \<Rightarrow> RunStatus \<Rightarrow> RunStatus \<Rightarrow> RunStatus" where
  "groomConditionsTransitionTime now sts old =
     sts\<lparr>rs_Conditions := map (\<lambda>cond.
       case GetCondition (cond_Type cond) old of
         None \<Rightarrow> cond\<lparr>cond_LastTransitionTime := now\<rparr>
       | Some oldCond \<Rightarrow>
           let cond = cond\<lparr>cond_LastTransitionTime := cond_LastTransitionTime oldCond\<rparr>
           in if cond = oldCond then cond else cond\<lparr>cond_LastTransitionTime := now\<rparr>) (rs_Conditions sts)\<rparr>"

definition PostProcessReconcile :: "RunClient \<Rightarrow> Run \<Rightarrow> Run \<Rightarrow> Run" where
  "PostProcessReconcile rc resource oldResource =
     (let status = (run_Status resource)\<lparr>rs_ObservedGeneration := om_Generation (run_Meta resource)\<rparr>
      in resource\<lparr>run_Status := groomConditionsTransitionTime (rc_Now rc 2) status (run_Status oldResource)\<rparr>)"

section \<open>Writing the status\<close>

text \<open>\<open>retry.OnError\<close>: the function is called at most \<open>steps\<close> times; \<open>attempts\<close> counts the calls.\<close>

fun OnError ::
    "goerror option \<Rightarrow> nat \<Rightarrow> (goerror \<Rightarrow> bool) \<Rightarrow> (nat \<Rightarrow> 's \<Rightarrow> goerror option \<times> 's) \<Rightarrow> nat \<Rightarrow> 's \<Rightarrow> goerror option \<times> 's" where
  "OnError lastErr 0 retriable fn attempts s = (lastErr, s)"
| "OnError lastErr (Suc steps) retriable fn attempts s =
     (case fn attempts s of
        (None, s) \<Rightarrow> (None, s)
      | (Some err, s) \<Rightarrow>
          if retriable err then OnError (Some err) steps retriable fn (Suc attempts) s else (Some err, s))"

definition DefaultRetry_Steps :: nat where "DefaultRetry_Steps = 5"

definition RetryUpdateConflicts ::
    "RunClient \<Rightarrow> (nat \<Rightarrow> 's \<Rightarrow> goerror option \<times> 's) \<Rightarrow> 's \<Rightarrow> goerror option \<times> 's" where
  "RetryUpdateConflicts rc updater s = OnError None DefaultRetry_Steps (rc_IsConflict rc) updater 0 s"

text \<open>The state of the closure is the Run it updates; \<open>up_Sent\<close> logs the requests and \<open>up_Accepted\<close> is the status
  that the API server accepted.\<close>

record Update =
  up_existing :: Run
  up_Sent :: "Run list"
  up_Accepted :: "RunStatus option"

definition update_attempt :: "RunClient \<Rightarrow> Run \<Rightarrow> nat \<Rightarrow> Update \<Rightarrow> goerror option \<times> Update" where
  "update_attempt rc desired attempts u =
     (case (if attempts > 0 then rc_Get rc attempts else Inr (up_existing u)) of
        Inl err \<Rightarrow> (Some err, u)
      | Inr existing \<Rightarrow>
          if status_DeepEqual (run_Status existing) (run_Status desired) then (None, u\<lparr>up_existing := existing\<rparr>)
          else
            let existing = existing\<lparr>run_Status := run_Status desired\<rparr>;
                u = u\<lparr>up_existing := existing, up_Sent := up_Sent u @ [existing]\<rparr>
            in (case rc_UpdateStatus rc attempts existing of
                  None \<Rightarrow> (None, u\<lparr>up_Accepted := Some (run_Status existing)\<rparr>)
                | Some err \<Rightarrow> (Some err, u)))"

definition updateStatus :: "RunClient \<Rightarrow> Run \<Rightarrow> Run \<Rightarrow> goerror option \<times> Update" where
  "updateStatus rc existing desired =
     RetryUpdateConflicts rc (update_attempt rc desired) \<lparr>up_existing = existing, up_Sent = [], up_Accepted = None\<rparr>"

section \<open>Reconcile\<close>

definition safeKey :: "NamespacedName \<Rightarrow> string" where
  "safeKey key = (if nn_Namespace key = [] then nn_Name key else nn_Namespace key @ ''/'' @ nn_Name key)"

definition SplitMetaNamespaceKey :: "string \<Rightarrow> goerror + NamespacedName" where
  "SplitMetaNamespaceKey key =
     (case split_on CHR ''/'' key of
        [name] \<Rightarrow> Inr \<lparr>nn_Namespace = [], nn_Name = name\<rparr>
      | [namespace, name] \<Rightarrow> Inr \<lparr>nn_Namespace = namespace, nn_Name = name\<rparr>
      | _ \<Rightarrow> Inl (Errorf (''unexpected key format: '' @ quote key)))"

definition reconcileMethodFor :: "bool \<Rightarrow> Run \<Rightarrow> string" where
  "reconcileMethodFor isLeader o' =
     (if om_DeletionTimestamp (run_Meta o') = None \<or> om_DeletionTimestamp (run_Meta o') = Some 0
      then (if isLeader then ''ReconcileKind'' else ''unknown'')
      else ''unknown'')"

text \<open>An error for the queue: the key is not ours, or what went wrong (the list is a multierror).\<close>

datatype ReconcileError = SkipKey string | Failed "goerror list"

record Outcome =
  oc_Error :: "ReconcileError option"
  oc_Effects :: "effect list"
  oc_Sent :: "Run list"
  oc_Accepted :: "RunStatus option"

definition nothing_done :: Outcome where
  "nothing_done = \<lparr>oc_Error = None, oc_Effects = [], oc_Sent = [], oc_Accepted = None\<rparr>"

text \<open>\<open>multierror.ListFormatFunc\<close>.\<close>

definition multierror_Error :: "goerror list \<Rightarrow> string" where
  "multierror_Error es =
     (let nl = [CHR 0x0A]; tab = [CHR 0x09] in
      if length es = 1 then ''1 error occurred:'' @ nl @ tab @ ''* '' @ error_string (hd es) @ nl @ nl
      else itoa (length es) @ '' errors occurred:'' @ nl @ tab @
        join_with (nl @ tab) (map (\<lambda>err. ''* '' @ error_string err) es) @ nl @ nl)"

text \<open>The end of \<open>Reconcile\<close>, which reports what \<open>ReconcileKind\<close> returned; it returns neither events nor errors
  that ask for a key to be skipped or queued.\<close>

definition report_event :: "goerror list \<Rightarrow> Outcome \<Rightarrow> Outcome" where
  "report_event reconcileEvent oc =
     (if reconcileEvent = [] then oc
      else oc\<lparr>oc_Error := Some (Failed reconcileEvent),
        oc_Effects := oc_Effects oc @ [KubeEvent ''Warning'' ''InternalError'' (multierror_Error reconcileEvent)]\<rparr>)"

definition Reconcile_method :: "RunClient \<Rightarrow> Env \<Rightarrow> bool \<Rightarrow> Run \<Rightarrow> goerror list \<times> Run \<times> effect list" where
  "Reconcile_method rc env isLeader original =
     (if reconcileMethodFor isLeader original = ''ReconcileKind''
      then let resource = PreProcessReconcile rc original;
               (reconcileEvent, s) = ReconcileKind env resource;
               resource = PostProcessReconcile rc (st_Run s) original
           in (reconcileEvent, resource, st_Effects s)
      else ([], original, []))"

definition Reconcile :: "RunClient \<Rightarrow> Env \<Rightarrow> string \<Rightarrow> Outcome" where
  "Reconcile rc env key =
     (case SplitMetaNamespaceKey key of
        Inl err \<Rightarrow> nothing_done
      | Inr s \<Rightarrow>
          let isLeader = rc_IsLeaderFor rc s in
          if \<not> isLeader then nothing_done\<lparr>oc_Error := Some (SkipKey key)\<rparr>
          else (case rc_Lister rc (nn_Namespace s) (nn_Name s) of
                  Inl err \<Rightarrow> if rc_IsNotFound rc err then nothing_done else nothing_done\<lparr>oc_Error := Some (Failed [err])\<rparr>
                | Inr original \<Rightarrow>
                    (case Reconcile_method rc env isLeader original of
                       (reconcileEvent, resource, effs) \<Rightarrow>
                         if status_DeepEqual (run_Status original) (run_Status resource)
                         then report_event reconcileEvent (nothing_done\<lparr>oc_Effects := effs\<rparr>)
                         else (case updateStatus rc original resource of
                                 (Some err, u) \<Rightarrow>
                                   \<lparr>oc_Error = Some (Failed [err]),
                                    oc_Effects = effs @ [KubeEvent ''Warning'' ''UpdateFailed''
                                      (''Failed to update status for '' @ quote (run_Name resource) @ '': '' @ error_string err)],
                                    oc_Sent = up_Sent u, oc_Accepted = up_Accepted u\<rparr>
                               | (None, u) \<Rightarrow>
                                   report_event reconcileEvent
                                     \<lparr>oc_Error = None, oc_Effects = effs, oc_Sent = up_Sent u, oc_Accepted = up_Accepted u\<rparr>))))"

section \<open>The worker\<close>

fun is_permanent :: "goerror \<Rightarrow> bool" where
  "is_permanent (Errorf s) = False"
| "is_permanent (Wrap p err) = is_permanent err"
| "is_permanent (PermanentError err) = True"

definition IsPermanentError :: "goerror list \<Rightarrow> bool" where
  "IsPermanentError errs = list_ex is_permanent errs"

text \<open>The work queue as a set of keys; a rate limited key is in it again, if later.\<close>

definition handleErr :: "ReconcileError \<Rightarrow> NamespacedName \<Rightarrow> NamespacedName set \<Rightarrow> NamespacedName set" where
  "handleErr err key queue =
     (case err of
        SkipKey k \<Rightarrow> queue
      | Failed errs \<Rightarrow> if \<not> IsPermanentError errs then insert key queue else queue)"

definition processNextWorkItem ::
    "RunClient \<Rightarrow> Env \<Rightarrow> NamespacedName \<Rightarrow> NamespacedName set \<Rightarrow> Outcome \<times> NamespacedName set" where
  "processNextWorkItem rc env key queue =
     (let queue = queue - {key};
          oc = Reconcile rc env (safeKey key)
      in (oc, case oc_Error oc of None \<Rightarrow> queue | Some err \<Rightarrow> handleErr err key queue))"

section \<open>Equality of statuses\<close>

lemma DeepEqual_refl [simp]: "status_DeepEqual r r"
  by (simp add: status_DeepEqual_def)

lemma DeepEqual_iff:
  "status_DeepEqual a b \<longleftrightarrow>
     map (cond_LastTransitionTime_update (\<lambda>_. 0)) (rs_Conditions a) =
       map (cond_LastTransitionTime_update (\<lambda>_. 0)) (rs_Conditions b) \<and>
     rs_ObservedGeneration a = rs_ObservedGeneration b \<and> rs_StartTime a = rs_StartTime b \<and>
     rs_CompletionTime a = rs_CompletionTime b \<and> rs_ExtraFields a = rs_ExtraFields b \<and> rs_rest a = rs_rest b"
  by (cases a; cases b) (auto simp: status_DeepEqual_def)

lemma cond_volatile:
  fixes c d :: Condition
  shows "cond_LastTransitionTime_update (\<lambda>_. 0) c = cond_LastTransitionTime_update (\<lambda>_. 0) d \<longleftrightarrow>
     cond_Type c = cond_Type d \<and> cond_Status c = cond_Status d \<and> cond_Severity c = cond_Severity d \<and>
     cond_Reason c = cond_Reason d \<and> cond_Message c = cond_Message d"
  by (cases c; cases d) simp

lemma DeepEqual_view:
  assumes "status_DeepEqual a b"
  shows "view_of (GetCondition t a) = view_of (GetCondition t b)" "status_wf a \<longleftrightarrow> status_wf b"
proof -
  have e: "map (cond_LastTransitionTime_update (\<lambda>_. 0)) (rs_Conditions a) = map (cond_LastTransitionTime_update (\<lambda>_. 0)) (rs_Conditions b)"
    using assms by (simp add: DeepEqual_iff)
  have "view_of (conds_Get t cs) = view_of (conds_Get t ds) \<and> map cond_Type cs = map cond_Type ds"
    if "map (cond_LastTransitionTime_update (\<lambda>_. 0)) cs = map (cond_LastTransitionTime_update (\<lambda>_. 0)) ds" for cs ds
    using that
  proof (induction cs arbitrary: ds)
    case (Cons c cs)
    then obtain d ds' where ds: "ds = d # ds'" by (cases ds) auto
    with Cons.prems have c: "cond_Type c = cond_Type d" "cond_Status c = cond_Status d" "cond_Reason c = cond_Reason d"
      "cond_Message c = cond_Message d" by (simp_all add: cond_volatile)
    from Cons ds have "view_of (conds_Get t cs) = view_of (conds_Get t ds') \<and> map cond_Type cs = map cond_Type ds'" by simp
    then show ?case by (simp add: ds c view_of_def)
  qed simp
  from this [OF e] show "view_of (GetCondition t a) = view_of (GetCondition t b)" "status_wf a \<longleftrightarrow> status_wf b"
    by (simp_all add: GetCondition_def status_wf_def conds_wf_def)
qed

lemma DeepEqual_done: "status_DeepEqual (run_Status r) (run_Status r') \<Longrightarrow> Run_IsDone r = Run_IsDone r'"
  by (simp add: Run_IsDone_def IsUnknown_view DeepEqual_view(1) [of _ _ ConditionSucceeded])

section \<open>Before\<close>

named_theorems run_frame "what the steps before and after ReconcileKind leave alone"

lemma SetDefaults_frame [run_frame, simp]:
  "run_Meta (Run_SetDefaults rc r) = run_Meta r" "run_Status (Run_SetDefaults rc r) = run_Status r"
  "rsp_Ref (run_Spec (Run_SetDefaults rc r)) = rsp_Ref (run_Spec r)"
  "rsp_Spec (run_Spec (Run_SetDefaults rc r)) = rsp_Spec (run_Spec r)"
  "rsp_Status (run_Spec (Run_SetDefaults rc r)) = rsp_Status (run_Spec r)"
  "rsp_Params (run_Spec (Run_SetDefaults rc r)) = rsp_Params (run_Spec r)"
  by (simp_all add: Run_SetDefaults_def Let_def)

lemma initialize_frame [run_frame, simp]:
  "rs_StartTime (manager_InitializeConditions now r) = rs_StartTime r"
  "rs_CompletionTime (manager_InitializeConditions now r) = rs_CompletionTime r"
  "rs_ExtraFields (manager_InitializeConditions now r) = rs_ExtraFields r"
  "rs_ObservedGeneration (manager_InitializeConditions now r) = rs_ObservedGeneration r"
  by (auto simp: manager_InitializeConditions_def split: option.splits)

lemma Pre_frame [run_frame, simp]:
  "run_Meta (PreProcessReconcile rc r) = run_Meta r"
  "run_Spec (PreProcessReconcile rc r) = run_Spec (Run_SetDefaults rc r)"
  "rs_StartTime (run_Status (PreProcessReconcile rc r)) = rs_StartTime (run_Status r)"
  "rs_ExtraFields (run_Status (PreProcessReconcile rc r)) = rs_ExtraFields (run_Status r)"
  "rs_ObservedGeneration (run_Status (PreProcessReconcile rc r)) = rs_ObservedGeneration (run_Status r)"
  by (simp_all add: PreProcessReconcile_def manager_MarkUnknown_def Let_def)

lemma Pre_wf [simp]:
  assumes "status_wf (run_Status r)"
  shows "status_wf (run_Status (PreProcessReconcile rc r))"
proof -
  have "status_wf (manager_InitializeConditions now (run_Status r))" for now
    using assms by (auto simp: manager_InitializeConditions_def run_conds.put_wf split: option.splits)
  then show ?thesis by (simp add: PreProcessReconcile_def manager_MarkUnknown_def run_conds.put_wf Let_def)
qed

text \<open>A new generation opens a Run that is done.\<close>

lemma Pre_done:
  assumes "status_wf (run_Status r)"
  shows "Run_IsDone (PreProcessReconcile rc r) \<longleftrightarrow>
    Run_IsDone r \<and> rs_ObservedGeneration (run_Status r) = om_Generation (run_Meta r)"
proof -
  let ?r = "manager_InitializeConditions (rc_Now rc 0) (run_Status r)"
  have wf: "status_wf ?r"
    using assms by (auto simp: manager_InitializeConditions_def run_conds.put_wf split: option.splits)
  have i: "IsUnknown (succeeded_of ?r) = IsUnknown (succeeded_of (run_Status r))"
  proof (cases "succeeded_of (run_Status r)")
    case None
    have "IsUnknown (succeeded_of ?r)"
      using run_conds.status_put [OF assms, of "new_condition ConditionSucceeded ConditionUnknown [] []"]
      by (simp add: manager_InitializeConditions_def None)
    then show ?thesis by (simp add: None IsUnknown_def)
  qed (simp add: manager_InitializeConditions_def)
  have u: "IsUnknown (succeeded_of (manager_MarkUnknown now ConditionSucceeded re msg ?r))" for now re msg
    using run_conds.status_put [OF wf, of "new_condition ConditionSucceeded ConditionUnknown re msg" now]
    by (simp add: manager_MarkUnknown_def)
  show ?thesis by (auto simp: PreProcessReconcile_def Let_def Run_IsDone_def i u)
qed

lemma Pre_references [simp]: "references_TaskGroup (PreProcessReconcile rc r) = references_TaskGroup r"
proof -
  have r: "rsp_Ref (run_Spec (PreProcessReconcile rc r)) = rsp_Ref (run_Spec r)"
    "rsp_Spec (run_Spec (PreProcessReconcile rc r)) = rsp_Spec (run_Spec r)" by simp_all
  show ?thesis unfolding references_TaskGroup_def r ..
qed

lemma Pre_active:
  assumes "status_wf (run_Status r)"
  shows "active (PreProcessReconcile rc r) \<longleftrightarrow>
    references_TaskGroup r \<and> (\<not> Run_IsDone r \<or> rs_ObservedGeneration (run_Status r) \<noteq> om_Generation (run_Meta r))"
  using Pre_done [OF assms, of rc] by (auto simp: active_def)

lemma SetDefaults_world [simp]:
  "taskgroup_of env (Run_SetDefaults rc r) = taskgroup_of env r" "listed env (Run_SetDefaults rc r) = listed env r"
  unfolding taskgroup_of_def listed_def SetDefaults_frame by (rule refl)+

lemma Pre_spec [simp]:
  "decoded env (PreProcessReconcile rc r) = decoded env r" "listed env (PreProcessReconcile rc r) = listed env r"
  "taskgroup_of env (PreProcessReconcile rc r) = taskgroup_of env r"
  "must_cancel (PreProcessReconcile rc r) tr = must_cancel r tr"
  by (simp_all add: decoded_def DecodeExtraFields_def listed_def taskgroup_of_def must_cancel_def Run_IsCancelled_def)

section \<open>After\<close>

lemma groom_frame [run_frame, simp]:
  "rs_StartTime (groomConditionsTransitionTime now sts old) = rs_StartTime sts"
  "rs_CompletionTime (groomConditionsTransitionTime now sts old) = rs_CompletionTime sts"
  "rs_ExtraFields (groomConditionsTransitionTime now sts old) = rs_ExtraFields sts"
  "rs_ObservedGeneration (groomConditionsTransitionTime now sts old) = rs_ObservedGeneration sts"
  "rs_rest (groomConditionsTransitionTime now sts old) = rs_rest sts"
  by (simp_all add: groomConditionsTransitionTime_def)

text \<open>Grooming changes transition times only.\<close>

lemma groom_DeepEqual: "status_DeepEqual (groomConditionsTransitionTime now sts old) sts"
proof -
  have v: "c\<lparr>cond_LastTransitionTime := a\<rparr> = d \<Longrightarrow> d\<lparr>cond_LastTransitionTime := 0\<rparr> = c\<lparr>cond_LastTransitionTime := 0\<rparr>" for c d :: Condition and a
    by (drule sym) simp
  have "map (cond_LastTransitionTime_update (\<lambda>_. 0)) (rs_Conditions (groomConditionsTransitionTime now sts old)) =
      map (cond_LastTransitionTime_update (\<lambda>_. 0)) (rs_Conditions sts)"
    by (simp add: groomConditionsTransitionTime_def Let_def if_distrib [of "cond_LastTransitionTime_update (\<lambda>_. 0)"] split: option.split)
      (blast intro: v)
  then show ?thesis by (simp add: DeepEqual_iff)
qed

lemma Post_frame [run_frame, simp]:
  "run_Meta (PostProcessReconcile rc r old) = run_Meta r" "run_Spec (PostProcessReconcile rc r old) = run_Spec r"
  "rs_ExtraFields (run_Status (PostProcessReconcile rc r old)) = rs_ExtraFields (run_Status r)"
  "rs_StartTime (run_Status (PostProcessReconcile rc r old)) = rs_StartTime (run_Status r)"
  "rs_ObservedGeneration (run_Status (PostProcessReconcile rc r old)) = om_Generation (run_Meta r)"
  by (simp_all add: PostProcessReconcile_def Let_def)

lemma Post_view [simp]:
  "run_view (run_Status (PostProcessReconcile rc r old)) = run_view (run_Status r)"
  "status_wf (run_Status (PostProcessReconcile rc r old)) = status_wf (run_Status r)"
  "Run_IsDone (PostProcessReconcile rc r old) = Run_IsDone r"
proof -
  let ?s = "(run_Status r)\<lparr>rs_ObservedGeneration := om_Generation (run_Meta r)\<rparr>"
  note v = DeepEqual_view [OF groom_DeepEqual [of "rc_Now rc 2" ?s "run_Status old"]]
  have "GetCondition t ?s = GetCondition t (run_Status r)" "status_wf ?s = status_wf (run_Status r)" for t
    by (simp_all add: GetCondition_def status_wf_def)
  with v show w: "run_view (run_Status (PostProcessReconcile rc r old)) = run_view (run_Status r)"
    "status_wf (run_Status (PostProcessReconcile rc r old)) = status_wf (run_Status r)"
    by (simp_all add: PostProcessReconcile_def Let_def)
  then show "Run_IsDone (PostProcessReconcile rc r old) = Run_IsDone r" by (simp add: Run_IsDone_def IsUnknown_view)
qed

end
