(* ===== verification/Run_Worker.thy ===== *)
theory Run_Worker
  imports Run_Reconciler
begin

text \<open>
  What the generated reconciler and the worker promise: the key round trip, the bound on the requests of
  \<open>updateStatus\<close> and what its result says of the stored status, which Runs reach \<open>ReconcileKind\<close>, that a new
  generation opens a Run that is done, and when a key comes back to the queue.
\<close>

section \<open>Keys\<close>

lemma split_on_none: "c \<notin> set w \<Longrightarrow> split_on c w = [w]"
  by (induction w) auto

lemma split_on_first: "c \<notin> set u \<Longrightarrow> split_on c (u @ c # w) = u # split_on c w"
  by (induction u) auto

definition key_wf :: "NamespacedName \<Rightarrow> bool" where
  "key_wf key \<longleftrightarrow> CHR ''/'' \<notin> set (nn_Namespace key) \<and> CHR ''/'' \<notin> set (nn_Name key)"

lemma split_safeKey: "key_wf key \<Longrightarrow> SplitMetaNamespaceKey (safeKey key) = Inr key"
  by (cases key) (auto simp: key_wf_def safeKey_def SplitMetaNamespaceKey_def split_on_none split_on_first)

text \<open>A key of the queue comes back from its text as the namespace and the name it was made of, so the
  worker fetches the Run that the event was about, whatever names without a slash it has, in a namespace or
  not.\<close>

theorem safeKey_roundtrip:
  assumes "CHR ''/'' \<notin> set (nn_Namespace key)" "CHR ''/'' \<notin> set (nn_Name key)"
  shows "SplitMetaNamespaceKey (safeKey key) = Inr key"
  using assms by (intro split_safeKey) (simp add: key_wf_def)

theorem safeKey_roundtrip_witness:
  "SplitMetaNamespaceKey ''ns/run'' = Inr \<lparr>nn_Namespace = ''ns'', nn_Name = ''run''\<rparr>"
  using safeKey_roundtrip [of "\<lparr>nn_Namespace = ''ns'', nn_Name = ''run''\<rparr>"] by (simp add: safeKey_def)

section \<open>The status update\<close>

text \<open>What holds of the closure's state before each attempt but the last.\<close>

definition pending :: "Run \<Rightarrow> nat \<Rightarrow> Update \<Rightarrow> bool" where
  "pending desired n u \<longleftrightarrow> length (up_Sent u) \<le> n \<and> (\<forall>r\<in>set (up_Sent u). run_Status r = run_Status desired) \<and>
     up_Accepted u = None"

text \<open>What the attempts promise: every request carries the desired status; without an error the API server has
  accepted the desired status or held one that is equal; with an error it has accepted nothing.\<close>

definition written :: "(Run \<Rightarrow> bool) \<Rightarrow> Run \<Rightarrow> goerror option \<Rightarrow> Update \<Rightarrow> bool" where
  "written known desired res u \<longleftrightarrow>
     (\<forall>r\<in>set (up_Sent u). run_Status r = run_Status desired) \<and>
     (case up_Accepted u of
        Some st \<Rightarrow> res = None \<and> st = run_Status desired \<and> up_Sent u \<noteq> []
      | None \<Rightarrow> res = None \<longrightarrow> (\<exists>r. known r \<and> status_DeepEqual (run_Status r) (run_Status desired)))"

lemma attempt_cases:
  assumes "pending desired n u" "update_attempt rc desired k u = (res, u')"
    and known: "\<And>r. (k = 0 \<and> r = up_existing u) \<or> (k > 0 \<and> rc_Get rc k = Inr r) \<Longrightarrow> known r"
  shows "length (up_Sent u') \<le> Suc n" "written known desired res u'" "res \<noteq> None \<Longrightarrow> pending desired (Suc n) u'"
  using assms
  by (auto simp: update_attempt_def pending_def written_def Let_def split: sum.splits if_splits option.splits)

lemma update_loop:
  assumes "pending desired n u" "OnError lastErr steps retriable (update_attempt rc desired) k u = (res, u')"
    and "k = 0 \<Longrightarrow> known (up_existing u)" "\<And>r j. 0 < j \<Longrightarrow> j < k + steps \<Longrightarrow> rc_Get rc j = Inr r \<Longrightarrow> known r"
    and "steps = 0 \<Longrightarrow> lastErr \<noteq> None"
  shows "length (up_Sent u') \<le> n + steps \<and> written known desired res u'"
  using assms
proof (induction steps arbitrary: lastErr n k u)
  case 0
  then show ?case by (auto simp: pending_def written_def)
next
  case (Suc steps)
  obtain r1 u1 where a: "update_attempt rc desired k u = (r1, u1)" by fastforce
  have kn: "known r" if "(k = 0 \<and> r = up_existing u) \<or> (k > 0 \<and> rc_Get rc k = Inr r)" for r
    using Suc.prems(3) Suc.prems(4) [of k r] that by auto
  note c = attempt_cases [where known = known, OF Suc.prems(1) a kn]
  show ?case
  proof (cases "\<exists>err. r1 = Some err \<and> retriable err")
    case True
    then obtain err where err: "r1 = Some err" "retriable err" by blast
    with Suc.prems(2) a have "OnError (Some err) steps retriable (update_attempt rc desired) (Suc k) u1 = (res, u')" by simp
    moreover have "pending desired (Suc n) u1" using c(3) err by simp
    ultimately have "length (up_Sent u') \<le> Suc n + steps \<and> written known desired res u'"
      using Suc.prems(4) by (intro Suc.IH) auto
    then show ?thesis by simp
  next
    case False
    with Suc.prems(2) a have "(res, u') = (r1, u1)" by (auto split: option.splits)
    with c show ?thesis by auto
  qed
qed

lemma updateStatus_result:
  assumes "updateStatus rc existing desired = (res, u)"
  shows "length (up_Sent u) \<le> 5"
    "written (\<lambda>r. r = existing \<or> (\<exists>j. 0 < j \<and> j < 5 \<and> rc_Get rc j = Inr r)) desired res u"
  using update_loop [where rc = rc and k = 0 and n = 0 and lastErr = None and steps = DefaultRetry_Steps and res = res and u' = u
      and retriable = "rc_IsConflict rc" and desired = desired and u = "\<lparr>up_existing = existing, up_Sent = [], up_Accepted = None\<rparr>"
      and known = "\<lambda>r. r = existing \<or> (\<exists>j. 0 < j \<and> j < 5 \<and> rc_Get rc j = Inr r)"] assms
  by (auto simp: updateStatus_def RetryUpdateConflicts_def pending_def DefaultRetry_Steps_def)

text \<open>C19. Writing the status takes at most five requests, and each of them carries the status of the reconcile,
  on whatever version of the Run it is sent. When no error is returned, the API server has accepted this status,
  or held an equal one in one of the versions that were read; when one is returned, nothing was accepted.\<close>

theorem updateStatus_bound:
  assumes "updateStatus rc existing desired = (res, u)"
  shows "length (up_Sent u) \<le> 5 \<and> (\<forall>r\<in>set (up_Sent u). run_Status r = run_Status desired) \<and>
    (case up_Accepted u of
       Some st \<Rightarrow> res = None \<and> st = run_Status desired
     | None \<Rightarrow> res = None \<longrightarrow>
         (\<exists>r. (r = existing \<or> (\<exists>j. 0 < j \<and> j < 5 \<and> rc_Get rc j = Inr r)) \<and>
           status_DeepEqual (run_Status r) (run_Status desired)))"
  using updateStatus_result [OF assms] by (auto simp: written_def split: option.splits)

text \<open>A server that refuses the first requests because of conflicts, and accepts the fifth.\<close>

definition ex_RunClient :: "Run \<Rightarrow> RunClient" where
  "ex_RunClient run =
     \<lparr>rc_IsLeaderFor = (\<lambda>key. True), rc_Lister = (\<lambda>ns n. Inr run), rc_Get = (\<lambda>k. Inr run),
      rc_UpdateStatus = (\<lambda>k r. if k < 4 then Some (Errorf ''conflict'') else None),
      rc_IsNotFound = (\<lambda>err. False), rc_IsConflict = (\<lambda>err. err = Errorf ''conflict''),
      rc_DefaultServiceAccount = ''default'', rc_DefaultPodTemplate = None, rc_Now = (\<lambda>k. 90 + int k)\<rparr>"

definition ex_desired :: Run where
  "ex_desired = ex_run\<lparr>run_Status := empty_RunStatus\<lparr>rs_ExtraFields := ''encoded''\<rparr>\<rparr>"

lemma ex_update: "updateStatus (ex_RunClient ex_run) ex_run ex_desired =
    (None, \<lparr>up_existing = ex_desired, up_Sent = replicate 5 ex_desired, up_Accepted = Some (run_Status ex_desired)\<rparr>)"
  by code_simp

theorem updateStatus_bound_witness:
  "length (replicate 5 ex_desired) \<le> 5 \<and> run_Status ex_desired \<noteq> run_Status ex_run"
  using updateStatus_bound [OF ex_update] by (simp add: ex_desired_def ex_run_def empty_RunStatus_def)

section \<open>Which Runs are reconciled\<close>

text \<open>The Run that a key leads to: the leader finds it, and it is not being deleted.\<close>

definition to_reconcile :: "RunClient \<Rightarrow> NamespacedName \<Rightarrow> Run option" where
  "to_reconcile rc key =
     (if \<not> rc_IsLeaderFor rc key then None
      else (case rc_Lister rc (nn_Namespace key) (nn_Name key) of
              Inl err \<Rightarrow> None
            | Inr run \<Rightarrow>
                if om_DeletionTimestamp (run_Meta run) = None \<or> om_DeletionTimestamp (run_Meta run) = Some 0 then Some run
                else None))"

text \<open>A Run that is done and whose generation has been observed is settled: nothing is to be done for it.\<close>

definition run_settled :: "Run \<Rightarrow> bool" where
  "run_settled run \<longleftrightarrow> Run_IsDone run \<and> rs_ObservedGeneration (run_Status run) = om_Generation (run_Meta run)"

definition reconciled :: "RunClient \<Rightarrow> Env \<Rightarrow> Run \<Rightarrow> Run" where
  "reconciled rc env run = PostProcessReconcile rc (st_Run (final env (PreProcessReconcile rc run))) run"

lemma Reconcile_none:
  assumes "key_wf key" "to_reconcile rc key = None"
  shows "oc_Effects (Reconcile rc env (safeKey key)) = []" "oc_Accepted (Reconcile rc env (safeKey key)) = None"
  using assms
  by (auto simp: Reconcile_def split_safeKey to_reconcile_def nothing_done_def Reconcile_method_def reconcileMethodFor_def
      report_event_def Let_def split: sum.splits if_splits)

text \<open>The end of \<open>Reconcile\<close>, by what became of the status.\<close>

lemma Reconcile_live:
  assumes "key_wf key" "to_reconcile rc key = Some run"
  obtains (equal) "status_DeepEqual (run_Status run) (run_Status (reconciled rc env run))"
      "Reconcile rc env (safeKey key) = report_event (fst (ReconcileKind env (PreProcessReconcile rc run)))
         (nothing_done\<lparr>oc_Effects := st_Effects (final env (PreProcessReconcile rc run))\<rparr>)"
  | (lost) err u detail where "\<not> status_DeepEqual (run_Status run) (run_Status (reconciled rc env run))"
      "updateStatus rc run (reconciled rc env run) = (Some err, u)"
      "Reconcile rc env (safeKey key) = \<lparr>oc_Error = Some (Failed [err]),
         oc_Effects = st_Effects (final env (PreProcessReconcile rc run)) @ [KubeEvent ''Warning'' ''UpdateFailed'' detail],
         oc_Sent = up_Sent u, oc_Accepted = up_Accepted u\<rparr>"
  | (kept) u where "\<not> status_DeepEqual (run_Status run) (run_Status (reconciled rc env run))"
      "updateStatus rc run (reconciled rc env run) = (None, u)"
      "Reconcile rc env (safeKey key) = report_event (fst (ReconcileKind env (PreProcessReconcile rc run)))
         \<lparr>oc_Error = None, oc_Effects = st_Effects (final env (PreProcessReconcile rc run)), oc_Sent = up_Sent u,
          oc_Accepted = up_Accepted u\<rparr>"
proof -
  have m: "Reconcile_method rc env True run =
      (fst (ReconcileKind env (PreProcessReconcile rc run)), reconciled rc env run, st_Effects (final env (PreProcessReconcile rc run)))"
    using assms(2) by (auto simp: Reconcile_method_def reconcileMethodFor_def to_reconcile_def reconciled_def Let_def
        case_prod_unfold split: sum.splits if_splits)
  have l: "rc_IsLeaderFor rc key" "rc_Lister rc (nn_Namespace key) (nn_Name key) = Inr run"
    using assms(2) by (auto simp: to_reconcile_def split: sum.splits if_splits)
  obtain res u where u: "updateStatus rc run (reconciled rc env run) = (res, u)" by fastforce
  show thesis
  proof (cases "status_DeepEqual (run_Status run) (run_Status (reconciled rc env run))")
    case True
    then show thesis using l m by (intro equal) (simp_all add: Reconcile_def split_safeKey [OF assms(1)])
  next
    case False
    show thesis
    proof (cases res)
      case None
      then show thesis using l m u False by (intro kept [of u]) (simp_all add: Reconcile_def split_safeKey [OF assms(1)])
    next
      case (Some err)
      then show thesis
        using l m u False by (intro lost [of err u]) (simp_all add: Reconcile_def split_safeKey [OF assms(1)])
    qed
  qed
qed

lemma report_event_simps [simp]:
  "filter task_write (oc_Effects (report_event errs oc)) = filter task_write (oc_Effects oc)"
  "filter creation (oc_Effects (report_event errs oc)) = filter creation (oc_Effects oc)"
  "oc_Accepted (report_event errs oc) = oc_Accepted oc" "oc_Sent (report_event errs oc) = oc_Sent oc"
  "oc_Error (report_event errs oc) = (if errs = [] then oc_Error oc else Some (Failed errs))"
  by (simp_all add: report_event_def task_write_def)

text \<open>A status write that is not refused is accepted.\<close>

lemma write_accepted:
  assumes "\<And>k r. rc_UpdateStatus rc k r = None" "\<not> status_DeepEqual (run_Status existing) (run_Status desired)"
  shows "up_Accepted (snd (updateStatus rc existing desired)) = Some (run_Status desired)"
  using assms by (simp add: updateStatus_def RetryUpdateConflicts_def DefaultRetry_Steps_def numeral_eq_Suc update_attempt_def Let_def)

lemma work_accepted:
  assumes "key_wf key" "to_reconcile rc key = Some run" "\<And>k r. rc_UpdateStatus rc k r = None"
    and "\<not> status_DeepEqual (run_Status run) (run_Status (reconciled rc env run))"
  shows "oc_Accepted (Reconcile rc env (safeKey key)) = Some (run_Status (reconciled rc env run))"
proof (cases rule: Reconcile_live [OF assms(1,2), of env, case_names equal lost kept])
  case (lost err u detail)
  then show ?thesis using write_accepted [OF assms(3,4)] by simp
next
  case (kept u)
  then show ?thesis using write_accepted [OF assms(3,4)] by simp
qed (use assms(4) in blast)

lemma Reconcile_task_effects:
  assumes "key_wf key"
  shows "filter task_write (oc_Effects (Reconcile rc env (safeKey key))) =
    (case to_reconcile rc key of None \<Rightarrow> [] | Some run \<Rightarrow> task_writes_of (final env (PreProcessReconcile rc run)))"
proof (cases "to_reconcile rc key")
  case None
  then show ?thesis using Reconcile_none [OF assms] by simp
next
  case (Some run)
  from Reconcile_live [OF assms Some, of env] show ?thesis
    by cases (simp_all add: Some nothing_done_def task_write_def)
qed

lemma Pre_task_writes: "task_writes env (PreProcessReconcile rc run) st = task_writes env (Run_SetDefaults rc run) st"
  by (rule spec_cong) simp_all

text \<open>C4. What the worker does to TaskRuns for a key: it creates or patches exactly the specified ones
  (\<open>task_writes\<close>, for the Run with the cluster's defaults filled in) when it is the leader for the key, its lister has
  the Run, the Run is not being deleted, refers to a TaskGroup and is not settled; otherwise it writes nothing.
  A Run that is done counts as settled only as long as its generation is the one observed.\<close>

theorem Reconcile_task_writes:
  assumes "CHR ''/'' \<notin> set (nn_Namespace key)" "CHR ''/'' \<notin> set (nn_Name key)"
    and "\<And>run. to_reconcile rc key = Some run \<Longrightarrow> status_wf (run_Status run)"
  shows "filter task_write (oc_Effects (Reconcile rc env (safeKey key))) =
    (case to_reconcile rc key of
       None \<Rightarrow> []
     | Some run \<Rightarrow>
         if references_TaskGroup run \<and> \<not> run_settled run then task_writes env (Run_SetDefaults rc run) (decoded env run)
         else [])"
proof -
  have k: "key_wf key" using assms(1,2) by (simp add: key_wf_def)
  show ?thesis
  proof (cases "to_reconcile rc key")
    case (Some run)
    let ?p = "PreProcessReconcile rc run"
    have wf: "status_wf (run_Status run)" by (rule assms(3) [OF Some])
    have "task_writes_of (final env ?p) = (if active ?p then task_writes env ?p (decoded env ?p) else [])"
      using final_active(1) ReconcileKind_inactive(2) Pre_wf [OF wf] by simp
    then show ?thesis
      by (auto simp: Reconcile_task_effects [OF k] Some Pre_active [OF wf] Pre_task_writes run_settled_def)
  qed (simp add: Reconcile_task_effects [OF k])
qed

text \<open>A Run that failed, because its TaskGroup could not be read, and was edited afterwards.\<close>

definition ex_reopened :: Run where
  "ex_reopened = ex_run\<lparr>run_Meta := (run_Meta ex_run)\<lparr>om_Generation := 2\<rparr>,
     run_Status := empty_RunStatus\<lparr>rs_ObservedGeneration := 1, rs_StartTime := Some 60,
       rs_Conditions := [new_condition ConditionSucceeded ConditionFalse ''CouldntGetTaskGroup'' []]\<rparr>\<rparr>"

lemma ex_reopened_sel [simp]:
  "status_wf (run_Status ex_reopened)" "references_TaskGroup ex_reopened" "Run_IsDone ex_reopened"
  "rs_ObservedGeneration (run_Status ex_reopened) = 1" "om_Generation (run_Meta ex_reopened) = 2"
  "run_Namespace ex_reopened = ''ns''"
  "to_reconcile (ex_RunClient ex_reopened) \<lparr>nn_Namespace = ''ns'', nn_Name = ''run''\<rparr> = Some ex_reopened"
proof -
  show "status_wf (run_Status ex_reopened)" "rs_ObservedGeneration (run_Status ex_reopened) = 1" "om_Generation (run_Meta ex_reopened) = 2"
    "run_Namespace ex_reopened = ''ns''"
    by (simp_all add: ex_reopened_def ex_run_def status_wf_def conds_wf_def)
  show "references_TaskGroup ex_reopened" "Run_IsDone ex_reopened" by code_simp+
  show "to_reconcile (ex_RunClient ex_reopened) \<lparr>nn_Namespace = ''ns'', nn_Name = ''run''\<rparr> = Some ex_reopened"
    by (simp add: to_reconcile_def ex_RunClient_def) (simp add: ex_reopened_def ex_run_def empty_meta_def)
qed

lemma ex_reopened_world [simp]:
  "taskgroup_of (ex_env trs) ex_reopened = Inr (ex_meta, ex_group)" "listed (ex_env trs) ex_reopened = Inr trs"
  "decoded (ex_env trs) ex_reopened = empty_run_status"
  by (simp_all add: taskgroup_of_def listed_def decoded_def DecodeExtraFields_def ex_env_def ex_reopened_def ex_run_def
      empty_RunStatus_def)

abbreviation ex_defaulted :: Run where
  "ex_defaulted \<equiv> Run_SetDefaults (ex_RunClient ex_reopened) ex_reopened"

lemma ex_defaulted_spec: "wanted_spec (ex_env []) ex_defaulted ex_group = Inr ex_wanted"
proof -
  have "TaskSpec_SetDefaults ex_task = ex_task" by code_simp
  then have "fetchUsesTaskSpec (ex_env []) ex_group ex_defaulted = Inr ex_used"
    by (simp add: fetchUsesTaskSpec_def go_defs GetTaskFunc_def GetTaskData_def LocalTaskRefResolver_GetTask_def
        NamespacedTaskKind_def ClusterTaskKind_def)
  then show ?thesis
    using ex_group_ok by (auto simp: wanted_spec_def ex_env_def split: prod.splits option.splits)
qed

theorem Reconcile_task_writes_witness:
  "filter task_write (oc_Effects (Reconcile (ex_RunClient ex_reopened) (ex_env []) ''ns/run'')) =
     [CreatedTaskRun (wanted_TaskRun (ex_env []) ex_defaulted ex_meta ex_wanted)]"
proof -
  let ?key = "\<lparr>nn_Namespace = ''ns'', nn_Name = ''run''\<rparr>"
  have k: "safeKey ?key = ''ns/run''" by (simp add: safeKey_def)
  show ?thesis
    by (subst k [symmetric], subst Reconcile_task_writes)
      (use ex_defaulted_spec in \<open>auto simp: run_settled_def task_writes_def\<close>)
qed

text \<open>C17. A Run that is done can come back to life. When its generation changes, as it does with every edit of its
  spec, the next reconcile takes it up again: a Run that failed before it had a TaskRun, and is edited (cancelled,
  for instance), gets a TaskRun if its TaskGroup can be run by then, and is no longer done.\<close>

theorem done_Run_comes_back:
  assumes "CHR ''/'' \<notin> set (nn_Namespace key)" "CHR ''/'' \<notin> set (nn_Name key)" "to_reconcile rc key = Some run"
    and "status_wf (run_Status run)" "references_TaskGroup run" "Run_IsDone run"
    and "rs_ObservedGeneration (run_Status run) \<noteq> om_Generation (run_Meta run)"
    and "taskgroup_of env run = Inr (meta, spec)" "TaskGroupSpec_Validate spec = None"
    and "listed env run = Inr []" "tgs_TaskRun (decoded env run) = None"
    and "create_result env (Run_SetDefaults rc run) meta spec = Inr tr" "\<And>st. e_encodeStatus env st = Inr (enc st)"
  shows "(\<exists>sent. CreatedTaskRun sent \<in> set (oc_Effects (Reconcile rc env (safeKey key))) \<and> e_createTaskRun env sent = Inr tr) \<and>
    \<not> Run_IsDone (reconciled rc env run)"
proof
  let ?p = "PreProcessReconcile rc run"
  have k: "key_wf key" using assms(1,2) by (simp add: key_wf_def)
  have wf: "status_wf (run_Status ?p)" by (rule Pre_wf [OF assms(4)])
  have a: "active ?p" using assms(5,7) by (simp add: Pre_active [OF assms(4)])
  have v: "valid_spec spec" using assms(9) by (simp only: TaskGroupSpec_Validate_None [symmetric])
  have c: "create_result env ?p meta spec = Inr tr"
    unfolding assms(12) [symmetric] by (rule request_cong) simp_all
  then obtain ts where ts: "wanted_spec env ?p spec = Inr ts" "e_createTaskRun env (wanted_TaskRun env ?p meta ts) = Inr tr"
    by (auto simp: create_result_def split: sum.splits)
  have w: "CreatedTaskRun (wanted_TaskRun env ?p meta ts) \<in> set (task_writes_of (final env ?p))"
    unfolding final_active(1) [OF wf a] task_writes_created using assms(8,10,11) v ts(1) by auto
  have "CreatedTaskRun (wanted_TaskRun env ?p meta ts) \<in> set (filter task_write (oc_Effects (Reconcile rc env (safeKey key))))"
    unfolding Reconcile_task_effects [OF k] assms(3) option.case by (rule w)
  with ts(2) show "\<exists>sent. CreatedTaskRun sent \<in> set (oc_Effects (Reconcile rc env (safeKey key))) \<and> e_createTaskRun env sent = Inr tr"
    by auto
  have "outcome env ?p (decoded env ?p) = Some (ConditionUnknown, TaskGroupRunReasonRunning, run_Name run @ '' running'')"
    using assms(8,10,11) v c by (simp add: outcome_def)
  then have "run_view (final_status env ?p) = Some (ConditionUnknown, reason_String TaskGroupRunReasonRunning, run_Name run @ '' running'')"
    using final_view(1) [OF wf a assms(13)] by (simp add: outcome_view_def)
  from view_done [OF this] show "\<not> Run_IsDone (reconciled rc env run)" by (simp add: reconciled_def) (simp add: Run_IsDone_def)
qed

theorem done_Run_comes_back_witness:
  "Run_IsDone ex_reopened \<and> \<not> Run_IsDone (reconciled (ex_RunClient ex_reopened) (ex_env []) ex_reopened)"
  using done_Run_comes_back [of "\<lparr>nn_Namespace = ''ns'', nn_Name = ''run''\<rparr>" "ex_RunClient ex_reopened" ex_reopened "ex_env []"
      ex_meta ex_group "wanted_TaskRun (ex_env []) ex_defaulted ex_meta ex_wanted" "\<lambda>st. ''encoded''"]
    ex_defaulted_spec ex_group_valid
  by (simp add: create_result_def TaskGroupSpec_Validate_None) (simp add: ex_env_def)

section \<open>The queue\<close>

text \<open>Errors of the API server are not permanent ones in the sense of knative.\<close>

definition api_errors_transient :: "RunClient \<Rightarrow> bool" where
  "api_errors_transient rc \<longleftrightarrow>
     (\<forall>k err. rc_Get rc k = Inl err \<longrightarrow> \<not> is_permanent err) \<and>
     (\<forall>k r err. rc_UpdateStatus rc k r = Some err \<longrightarrow> \<not> is_permanent err)"

lemma OnError_error:
  assumes "OnError lastErr steps retriable (update_attempt rc desired) k u = (Some err, u')" "api_errors_transient rc"
    and "\<And>e. lastErr = Some e \<Longrightarrow> \<not> is_permanent e"
  shows "\<not> is_permanent err"
  using assms
proof (induction steps arbitrary: lastErr k u)
  case (Suc steps)
  obtain r1 u1 where a: "update_attempt rc desired k u = (r1, u1)" by fastforce
  have t: "\<not> is_permanent e" if "r1 = Some e" for e
    using a that Suc.prems(2)
    by (auto simp: update_attempt_def api_errors_transient_def Let_def split: sum.splits if_splits option.splits)
  with Suc a show ?case by (auto split: option.splits if_splits)
qed simp

lemma updateStatus_error: "updateStatus rc existing desired = (Some err, u) \<Longrightarrow> api_errors_transient rc \<Longrightarrow> \<not> is_permanent err"
  unfolding updateStatus_def RetryUpdateConflicts_def by (rule OnError_error) auto

text \<open>What is known of the status when the worker lets go of a key.\<close>

lemma worker_lets_go:
  assumes "key_wf key" "to_reconcile rc key = Some run" "api_errors_transient rc"
    and "key \<notin> snd (processNextWorkItem rc env key queue)"
  shows "(fst (ReconcileKind env (PreProcessReconcile rc run)) = [] \<or>
      IsPermanentError (fst (ReconcileKind env (PreProcessReconcile rc run)))) \<and>
    ((\<exists>r. (r = run \<or> (\<exists>j. 0 < j \<and> j < 5 \<and> rc_Get rc j = Inr r)) \<and>
        status_DeepEqual (run_Status r) (run_Status (reconciled rc env run))) \<or>
      oc_Accepted (fst (processNextWorkItem rc env key queue)) = Some (run_Status (reconciled rc env run)))"
proof (cases rule: Reconcile_live [OF assms(1,2), of env, case_names equal lost kept])
  case equal
  then show ?thesis
    using assms(4) by (auto simp: processNextWorkItem_def handleErr_def nothing_done_def Let_def split: if_splits)
next
  case (lost err u detail)
  have "key \<in> snd (processNextWorkItem rc env key queue)"
    using updateStatus_error [OF lost(2) assms(3)] lost(3)
    by (simp add: processNextWorkItem_def handleErr_def IsPermanentError_def Let_def)
  with assms(4) show ?thesis by blast
next
  case (kept u)
  have "fst (ReconcileKind env (PreProcessReconcile rc run)) = [] \<or>
      IsPermanentError (fst (ReconcileKind env (PreProcessReconcile rc run)))"
    using assms(4) kept(3) by (auto simp: processNextWorkItem_def handleErr_def Let_def split: if_splits)
  moreover have "(\<exists>r. (r = run \<or> (\<exists>j. 0 < j \<and> j < 5 \<and> rc_Get rc j = Inr r)) \<and>
        status_DeepEqual (run_Status r) (run_Status (reconciled rc env run))) \<or>
      up_Accepted u = Some (run_Status (reconciled rc env run))"
    using updateStatus_result(2) [OF kept(2)] by (auto simp: written_def split: option.splits)
  ultimately show ?thesis using kept(3) by (simp add: processNextWorkItem_def Let_def)
qed

text \<open>C5. The worker does not let go of a key with work left. When a key that leads to a Run is out of the queue
  after it was processed, the API server holds the status that the reconcile arrived at (it accepted it, or a version
  of the Run that was read has an equal one), and the reconcile returned no error, or a permanent one. A status
  write that fails puts the key back.\<close>

theorem worker_finishes_key:
  assumes "CHR ''/'' \<notin> set (nn_Namespace key)" "CHR ''/'' \<notin> set (nn_Name key)" "to_reconcile rc key = Some run"
    and "\<And>k err. rc_Get rc k = Inl err \<Longrightarrow> \<not> is_permanent err"
    and "\<And>k r err. rc_UpdateStatus rc k r = Some err \<Longrightarrow> \<not> is_permanent err"
    and "key \<notin> snd (processNextWorkItem rc env key queue)"
  shows "(fst (ReconcileKind env (PreProcessReconcile rc run)) = [] \<or>
      IsPermanentError (fst (ReconcileKind env (PreProcessReconcile rc run)))) \<and>
    (oc_Accepted (fst (processNextWorkItem rc env key queue)) = Some (run_Status (reconciled rc env run)) \<or>
      (\<exists>r. (r = run \<or> (\<exists>j. 0 < j \<and> j < 5 \<and> rc_Get rc j = Inr r)) \<and>
        status_DeepEqual (run_Status r) (run_Status (reconciled rc env run))))"
proof -
  have k: "key_wf key" and t: "api_errors_transient rc"
    using assms(1,2,4,5) by (auto simp: key_wf_def api_errors_transient_def)
  from worker_lets_go [OF k assms(3) t assms(6)] show ?thesis by blast
qed

text \<open>A reconcile whose status is accepted at the fifth attempt.\<close>

abbreviation ex_key :: NamespacedName where
  "ex_key \<equiv> \<lparr>nn_Namespace = ''ns'', nn_Name = ''run''\<rparr>"

definition ex_reads :: Env where
  "ex_reads = (ex_env [ex_taskrun ConditionTrue])\<lparr>e_getRun := \<lambda>ns n. Inr ex_run\<rparr>"

lemma ex_worked: "ex_key \<notin> snd (processNextWorkItem (ex_RunClient ex_run) ex_reads ex_key {ex_key})"
  by code_simp

lemma ex_unequal: "\<not> status_DeepEqual (run_Status ex_run) (run_Status (reconciled (ex_RunClient ex_run) ex_reads ex_run))"
  by code_simp

theorem worker_finishes_key_witness:
  "oc_Accepted (fst (processNextWorkItem (ex_RunClient ex_run) ex_reads ex_key {ex_key})) =
     Some (run_Status (reconciled (ex_RunClient ex_run) ex_reads ex_run))"
proof -
  let ?rc = "ex_RunClient ex_run"
  have t: "to_reconcile ?rc ex_key = Some ex_run"
    by (simp add: to_reconcile_def ex_RunClient_def) (simp add: ex_run_def empty_meta_def)
  have get: "rc_Get ?rc j = Inr r \<longleftrightarrow> r = ex_run" "rc_Get ?rc j \<noteq> Inl err" for j r err
    by (auto simp: ex_RunClient_def)
  have up: "\<not> is_permanent err" if "rc_UpdateStatus ?rc k r = Some err" for k r err
    using that by (auto simp: ex_RunClient_def split: if_splits)
  from worker_finishes_key [of ex_key ?rc ex_run ex_reads "{ex_key}"] t get up ex_worked ex_unequal show ?thesis
    by auto
qed

end
