(* ===== verification/Run_Lifecycle.thy ===== *)
theory Run_Lifecycle
  imports Run_Worker
begin

text \<open>
  What a reconcile by the worker leaves behind: the TaskRuns that the API server accepts, the status that it stores, and
  whether the extra fields of the status record a TaskRun. \<open>Cluster\<close> composes these steps.

  The decoder is assumed to see a TaskRun in the extra fields exactly when one was encoded: \<open>enc\<close> stands for the JSON
  encoding of \<open>TaskGroupRunStatus\<close>.
\<close>

section \<open>TaskRuns and status on the API server\<close>

type_synonym Encoding = "TaskGroupRunStatus \<Rightarrow> string"

definition codec_env :: "Encoding \<Rightarrow> Env \<Rightarrow> bool" where
  "codec_env enc env \<longleftrightarrow>
     (\<forall>st. e_encodeStatus env st = Inr (enc st) \<and> enc st \<noteq> [] \<and>
        (tgs_TaskRun (fst (e_decodeStatus env (enc st))) = None \<longleftrightarrow> tgs_TaskRun st = None))"

text \<open>The TaskRuns the API server accepts of those a reconcile sends.\<close>

fun accepted :: "Env \<Rightarrow> effect list \<Rightarrow> TaskRun list" where
  "accepted env [] = []"
| "accepted env (CreatedTaskRun tr # es) =
     (case e_createTaskRun env tr of Inl err \<Rightarrow> accepted env es | Inr tr' \<Rightarrow> tr' # accepted env es)"
| "accepted env (e # es) = accepted env es"

text \<open>The Run on the API server after a reconcile: only its status is written.\<close>

definition written_back :: "Outcome \<Rightarrow> Run \<Rightarrow> Run" where
  "written_back oc run = (case oc_Accepted oc of None \<Rightarrow> run | Some st \<Rightarrow> run\<lparr>run_Status := st\<rparr>)"

section \<open>A reconcile of a Run that is done or has its TaskRun recorded\<close>

text \<open>The extra fields hold a status with a TaskRun.\<close>

definition TaskRun_recorded :: "Encoding \<Rightarrow> Run \<Rightarrow> bool" where
  "TaskRun_recorded enc run \<longleftrightarrow> (\<exists>st. rs_ExtraFields (run_Status run) = enc st \<and> tgs_TaskRun st \<noteq> None)"

lemma recorded_decoded:
  assumes "codec_env enc env" "rs_ExtraFields (run_Status run) = enc st"
  shows "tgs_TaskRun (decoded env run) = None \<longleftrightarrow> tgs_TaskRun st = None"
  using assms by (simp add: decoded_def DecodeExtraFields_def codec_env_def)

lemma final_ExtraFields:
  assumes "status_wf (run_Status run)" "active run" "codec_env enc env"
  shows "rs_ExtraFields (final_status env run) = enc (recorded env run (decoded env run))"
  using final_view(2) [OF assms(1,2)] assms(3) by (simp add: codec_env_def)

lemma recorded_keeps: "tgs_TaskRun st \<noteq> None \<Longrightarrow> tgs_TaskRun (recorded env run st) \<noteq> None"
  by (cases env run rule: reconcile_branches)
    (auto simp: recorded_def Let_def split: sum.splits option.splits list.splits)

lemma inactive_extra:
  assumes "status_wf (run_Status run)" "\<not> active run"
  shows "rs_ExtraFields (final_status env run) = rs_ExtraFields (run_Status run)"
  using assms start_run_done [OF assms(1)]
    start_run_frame [of "\<lparr>st_Run = run, st_Status = empty_run_status, st_Effects = []\<rparr>" env]
  by (auto simp: ReconcileKind_def active_def Let_def)

lemma done_stays:
  assumes "status_wf (run_Status run)" "Run_IsDone run"
  shows "Run_IsDone (st_Run (final env run))"
  using assms start_run_done [OF assms(1)] by (auto simp: ReconcileKind_def Let_def)

lemma recorded_stays:
  assumes "status_wf (run_Status run)" "codec_env enc env" "TaskRun_recorded enc run"
  shows "TaskRun_recorded enc (st_Run (final env run))"
proof -
  obtain st where st: "rs_ExtraFields (run_Status run) = enc st" "tgs_TaskRun st \<noteq> None"
    using assms(3) by (auto simp: TaskRun_recorded_def)
  show ?thesis
  proof (cases "active run")
    case True
    have "tgs_TaskRun (recorded env run (decoded env run)) \<noteq> None"
      by (rule recorded_keeps) (simp add: recorded_decoded [OF assms(2) st(1)] st(2))
    then show ?thesis
      using final_ExtraFields [OF assms(1) True assms(2)] by (auto simp: TaskRun_recorded_def)
  next
    case False
    then show ?thesis
      using inactive_extra [OF assms(1) False] st by (auto simp: TaskRun_recorded_def)
  qed
qed

lemma recorded_no_creation:
  assumes "status_wf (run_Status run)" "codec_env enc env" "TaskRun_recorded enc run"
  shows "CreatedTaskRun tr \<notin> set (st_Effects (final env run))"
  using created_iff [OF assms(1), of tr env] recorded_decoded [OF assms(2), of run] assms(3)
  by (auto simp: TaskRun_recorded_def)

lemma inactive_no_creation:
  "status_wf (run_Status run) \<Longrightarrow> \<not> active run \<Longrightarrow> CreatedTaskRun tr \<notin> set (st_Effects (final env run))"
  by (simp only: created_iff simp_thms not_False_eq_True)

lemma accepted_from:
  "tr' \<in> set (accepted env es) \<Longrightarrow> \<exists>tr. CreatedTaskRun tr \<in> set es \<and> e_createTaskRun env tr = Inr tr'"
  by (induction env es rule: accepted.induct) (auto split: sum.splits)

lemma accepted_nonempty:
  "CreatedTaskRun tr \<in> set es \<Longrightarrow> e_createTaskRun env tr = Inr tr' \<Longrightarrow> accepted env es \<noteq> []"
  by (induction env es rule: accepted.induct) (auto split: sum.splits)

lemma accepted_length: "length (accepted env es) \<le> length (filter creation es)"
  by (induction env es rule: accepted.induct) (auto split: sum.splits)

lemma accepted_creations: "accepted env (filter creation es) = accepted env es"
  by (induction env es rule: accepted.induct) (auto split: sum.splits)

lemma accepted_none: "(\<And>tr. CreatedTaskRun tr \<notin> set es) \<Longrightarrow> accepted env es = []"
  using accepted_from [of _ env es] by (metis list.set_intros(1) neq_Nil_conv)

text \<open>An accepted TaskRun is recorded in the status.\<close>

lemma accepted_recorded:
  assumes wf: "status_wf (run_Status run)" and new: "accepted env (st_Effects (final env run)) \<noteq> []"
  shows "active run" "tgs_TaskRun (recorded env run (decoded env run)) \<noteq> None"
proof -
  obtain tr' where "tr' \<in> set (accepted env (st_Effects (final env run)))"
    using new by (cases "accepted env (st_Effects (final env run))") auto
  from accepted_from [OF this] obtain tr where c: "CreatedTaskRun tr \<in> set (st_Effects (final env run))"
    "e_createTaskRun env tr = Inr tr'" by blast
  then obtain meta spec ts where cr: "active run" "tgs_TaskRun (decoded env run) = None" "listed env run = Inr []"
      "taskgroup_of env run = Inr (meta, spec)" "valid_spec spec" "wanted_spec env run spec = Inr ts"
      "tr = wanted_TaskRun env run meta ts"
    unfolding created_iff [OF wf] by blast
  then have "create_result env run meta spec = Inr tr'" using c(2) by (simp add: create_result_def)
  with cr show "active run" "tgs_TaskRun (recorded env run (decoded env run)) \<noteq> None" by (simp_all add: recorded_def)
qed

section \<open>What the worker leaves behind\<close>

lemma final_Generation:
  assumes "status_wf (run_Status run)"
  shows "om_Generation (run_Meta (st_Run (final env run))) = om_Generation (run_Meta run)"
proof (cases "active run")
  case True
  have "om_Generation (propagated env run) = om_Generation (run_Meta run)"
    by (auto simp: propagated_def propagateTaskGroupLabelsAndAnnotations_def Let_def split: sum.splits)
  then show ?thesis by (simp add: final_active(3) [OF assms True])
qed (simp add: ReconcileKind_inactive(3) [OF assms])

lemma reconciled_status:
  assumes wf: "status_wf (run_Status run)"
  shows "status_wf (run_Status (reconciled rc env run))"
    "rs_ObservedGeneration (run_Status (reconciled rc env run)) = om_Generation (run_Meta run)"
    "rs_ExtraFields (run_Status (reconciled rc env run)) = rs_ExtraFields (final_status env (PreProcessReconcile rc run))"
    "Run_IsDone (reconciled rc env run) = Run_IsDone (st_Run (final env (PreProcessReconcile rc run)))"
  using final_wf [OF Pre_wf [OF wf]] final_Generation [OF Pre_wf [OF wf]] by (simp_all add: reconciled_def)

lemma Pre_recorded [simp]: "TaskRun_recorded enc (PreProcessReconcile rc run) = TaskRun_recorded enc run"
  by (simp add: TaskRun_recorded_def)

lemma reconciled_recorded:
  assumes "status_wf (run_Status run)" "codec_env enc env"
    and "TaskRun_recorded enc run \<or> accepted env (st_Effects (final env (PreProcessReconcile rc run))) \<noteq> []"
  shows "TaskRun_recorded enc (reconciled rc env run)"
proof -
  let ?p = "PreProcessReconcile rc run"
  note wf = Pre_wf [OF assms(1), of rc]
  have "TaskRun_recorded enc (st_Run (final env ?p))"
    using assms(3)
  proof
    assume "accepted env (st_Effects (final env ?p)) \<noteq> []"
    from accepted_recorded [OF wf this] final_ExtraFields [OF wf _ assms(2)] show ?thesis
      by (auto simp: TaskRun_recorded_def)
  qed (simp add: recorded_stays [OF wf assms(2)])
  then show ?thesis by (simp add: TaskRun_recorded_def reconciled_status(3) [OF assms(1)])
qed

lemma accepted_by_work:
  assumes "key_wf key"
  shows "accepted env (oc_Effects (Reconcile rc env (safeKey key))) =
    (case to_reconcile rc key of None \<Rightarrow> [] | Some run \<Rightarrow> accepted env (st_Effects (final env (PreProcessReconcile rc run))))"
proof -
  have "accepted env es = accepted env (filter task_write es)" for es
    by (induction env es rule: accepted.induct) (auto simp: task_write_def split: sum.splits)
  then show ?thesis
    using Reconcile_task_effects [OF assms, of rc env]
    by (metis (no_types, lifting) accepted.simps(1) option.case_eq_if)
qed

text \<open>With a status write that is accepted, the API server holds the reconciled status, up to the times of the
  conditions.\<close>

lemma written_back_frame [simp]:
  "run_Meta (written_back oc run) = run_Meta run" "run_Spec (written_back oc run) = run_Spec run"
  by (simp_all add: written_back_def split: option.splits)

lemma work_writes:
  assumes "key_wf key" "to_reconcile rc key = Some run" "\<And>k r. rc_UpdateStatus rc k r = None"
  shows "status_DeepEqual (run_Status (written_back (Reconcile rc env (safeKey key)) run)) (run_Status (reconciled rc env run))"
proof (cases rule: Reconcile_live [OF assms(1,2), of env, case_names equal lost kept])
  case equal
  then show ?thesis by (simp add: written_back_def nothing_done_def)
next
  case (lost err u detail)
  then show ?thesis using write_accepted [OF assms(3) lost(1)] by (simp add: written_back_def)
next
  case (kept u)
  then show ?thesis using write_accepted [OF assms(3) kept(1)] by (simp add: written_back_def)
qed

lemma DeepEqual_facts:
  assumes "status_DeepEqual (run_Status r) (run_Status r')"
  shows "TaskRun_recorded enc r = TaskRun_recorded enc r'" "Run_IsDone r = Run_IsDone r'"
    "status_wf (run_Status r) = status_wf (run_Status r')"
    "rs_ObservedGeneration (run_Status r) = rs_ObservedGeneration (run_Status r')"
  using DeepEqual_view(2) [OF assms] DeepEqual_done [OF assms] assms by (simp_all add: TaskRun_recorded_def DeepEqual_iff)

lemma Run_IsDone_cong: "run_Status r = run_Status r' \<Longrightarrow> Run_IsDone r = Run_IsDone r'"
  by (simp add: Run_IsDone_def)

section \<open>An example\<close>

text \<open>An encoding that keeps whether there is a TaskRun, and environments for it.\<close>

definition ex_enc :: Encoding where
  "ex_enc st = (if tgs_TaskRun st = None then ''{}'' else ''status'')"

definition ex_life :: "TaskRun list \<Rightarrow> Env" where
  "ex_life trs = (ex_env trs)\<lparr>e_encodeStatus := \<lambda>st. Inr (ex_enc st),
     e_decodeStatus := \<lambda>raw. (if raw = ''{}'' then empty_run_status
       else empty_run_status\<lparr>tgs_TaskRun := Some (tr_Status (ex_taskrun ConditionUnknown))\<rparr>, None)\<rparr>"

lemma ex_life_codec: "codec_env ex_enc (ex_life trs)"
  by (simp add: codec_env_def ex_life_def ex_enc_def)

end
