(* ===== verification/Run_Settling.thy ===== *)
theory Run_Settling
  imports Reconcile_Properties "HOL-Library.While_Combinator"
begin

text \<open>
  Why the controller does not reconcile for ever. Every change that a reconcile makes to a Run comes back as an
  event of the Run's informer and asks for another reconcile; this loop ends. In a world that stands still (the
  caches and the API server answer the same, only the clock goes on) one reconcile brings the Run to a state that
  the next one leaves exactly as it is: the propagated labels are propagated already, the recorded status is
  decoded and recorded again, and the condition is written with the values it has. The loop is that of \<open>ReconcileKind\<close>
  on the Run it leaves; the steps of the generated reconciler around it are in \<open>Run_Reconciler\<close>.
\<close>

section \<open>The clock\<close>

abbreviation at :: "Env \<Rightarrow> (nat \<Rightarrow> gotime) \<Rightarrow> Env" where
  "at env clock \<equiv> env\<lparr>e_Now := clock\<rparr>"

lemma env_at:
  "e_getTaskGroup (at env clock) = e_getTaskGroup env" "e_merger (at env clock) = e_merger env"
  "e_order (at env clock) = e_order env" "e_createTaskRun (at env clock) = e_createTaskRun env"
  "e_patchTaskRun (at env clock) = e_patchTaskRun env" "e_cancelPatchBytes (at env clock) = e_cancelPatchBytes env"
  "e_unmarshalSpec (at env clock) = e_unmarshalSpec env"
  "e_encodeStatus (at env clock) = e_encodeStatus env" "e_decodeStatus (at env clock) = e_decodeStatus env"
  by simp_all

lemma GetTaskFunc_at: "GetTaskFunc (at env clock) tr ns sa = GetTaskFunc env tr ns sa"
proof -
  have "LocalTaskRefResolver_GetTask (at env clock) = LocalTaskRefResolver_GetTask env"
    by (intro ext) (simp add: LocalTaskRefResolver_GetTask_def)
  then show ?thesis unfolding GetTaskFunc_def Let_def by (simp only:) simp
qed

lemma fetch_loop_at: "fetchUsesTaskSpec_loop (at env clock) run i steps m = fetchUsesTaskSpec_loop env run i steps m"
proof (induction env run i steps m rule: fetchUsesTaskSpec_loop.induct)
  case (2 env run i step steps m)
  show ?case
  proof (cases "gs_Uses step")
    case None
    with "2.IH"(1) show ?thesis by simp
  next
    case (Some uses)
    obtain f err where f: "GetTaskFunc env (u_TaskRef uses) (run_Namespace run) (rsp_ServiceAccountName (run_Spec run)) = (f, err)"
      by fastforce
    show ?thesis
    proof (cases err)
      case None
      then show ?thesis
        using "2.IH"(2) [OF Some f [symmetric] None] Some f
        by (cases "GetTaskData (u_TaskRef uses) f") (simp_all add: GetTaskFunc_at fun_upd_def)
    qed (simp add: Some f GetTaskFunc_at)
  qed
qed simp

lemma spec_at [simp]:
  "taskgroup_of (at env clock) run = taskgroup_of env run" "listed (at env clock) run = listed env run"
  "wanted_spec (at env clock) run spec = wanted_spec env run spec"
  "create_result (at env clock) run meta spec = create_result env run meta spec"
  "decoded (at env clock) run = decoded env run"
proof -
  show "taskgroup_of (at env clock) run = taskgroup_of env run"
    unfolding taskgroup_of_def env_at ..
  show w: "wanted_spec (at env clock) run spec = wanted_spec env run spec" for spec
    unfolding wanted_spec_def fetchUsesTaskSpec_def fetch_loop_at env_at ..
  have "wanted_TaskRun (at env clock) run meta ts = wanted_TaskRun env run meta ts" for ts
    by (simp add: wanted_TaskRun_def new_TaskRun_def)
  then show "create_result (at env clock) run meta spec = create_result env run meta spec"
    unfolding create_result_def w env_at by (simp only:)
qed (simp_all add: listed_def decoded_def DecodeExtraFields_def)

section \<open>Propagating twice\<close>

lemma gomap_set_triv: "map_of m k = Some v \<Longrightarrow> gomap_set k v m = m"
  by (induction m) (auto simp: gomap_set_def)

lemma gomap_set_twice [simp]: "gomap_set k v (gomap_set k v' m) = gomap_set k v m"
  by (induction m) (auto simp: gomap_set_def)

lemma gomap_copy_present:
  "\<forall>(k, v) \<in> set src. map_of m k = Some v \<Longrightarrow> gomap_copy m src = m"
proof (induction m src rule: gomap_copy.induct)
  case (2 m k v src)
  from "2.prems" have "gomap_set k v m = m" by (intro gomap_set_triv) simp
  then show ?case using "2.IH" "2.prems" by simp
qed simp

lemma map_of_copied: "gomap_wf src \<Longrightarrow> \<forall>(k, v) \<in> set src. map_of (gomap_copy m src) k = Some v"
  by (auto simp: map_of_gomap_copy map_add_Some_iff)

lemma gomap_set_copy_present:
  "\<forall>(k, v) \<in> set src. k = k0 \<or> map_of m k = Some v \<Longrightarrow> gomap_set k0 n (gomap_copy m src) = gomap_set k0 n m"
proof (induction m src rule: gomap_copy.induct)
  case (2 m k v src)
  show ?case
  proof (cases "k = k0")
    case True
    have "gomap_set k0 n (gomap_copy (gomap_set k v m) src) = gomap_set k0 n (gomap_set k v m)"
      by (rule "2.IH") (use "2.prems" True in \<open>auto split: if_splits\<close>)
    then show ?thesis by (simp add: True)
  next
    case False
    then have "gomap_set k v m = m" using "2.prems" by (auto intro: gomap_set_triv)
    then show ?thesis using "2.IH" "2.prems" by simp
  qed
qed simp

definition meta_wf :: "ObjectMeta \<Rightarrow> bool" where
  "meta_wf meta \<longleftrightarrow> gomap_wf (nil_map (om_Labels meta)) \<and> gomap_wf (nil_map (om_Annotations meta))"

lemma nil_map_Some [simp]: "nil_map (Some m) = m"
  by (simp add: nil_map_def)

lemma propagate_twice:
  assumes "meta_wf meta"
  shows "propagateTaskGroupLabelsAndAnnotations meta (propagateTaskGroupLabelsAndAnnotations meta run) =
    propagateTaskGroupLabelsAndAnnotations meta run"
proof -
  let ?l = "nil_map (om_Labels meta)" and ?a = "nil_map (om_Annotations meta)" and ?k = "GroupName @ taskGroupLabelKey"
  have a: "gomap_copy (gomap_copy m ?a) ?a = gomap_copy m ?a" for m
    using assms by (intro gomap_copy_present map_of_copied) (simp add: meta_wf_def)
  have l: "gomap_set ?k n (gomap_copy (gomap_set ?k n (gomap_copy m ?l)) ?l) = gomap_set ?k n (gomap_copy m ?l)" for m n
  proof -
    have "gomap_set ?k n (gomap_copy (gomap_set ?k n (gomap_copy m ?l)) ?l) = gomap_set ?k n (gomap_set ?k n (gomap_copy m ?l))"
      by (rule gomap_set_copy_present) (use assms map_of_copied [of ?l m] in \<open>auto simp: meta_wf_def split: if_splits\<close>)
    then show ?thesis by simp
  qed
  show ?thesis by (simp add: propagateTaskGroupLabelsAndAnnotations_def Let_def a l)
qed

section \<open>Marking twice\<close>

lemma SetCondition_loop_present:
  assumes "conds_Get (cond_Type c) cs = Some (c\<lparr>cond_LastTransitionTime := time\<rparr>)"
  shows "SetCondition_loop c acc cs = None"
  using assms
proof (induction cs arbitrary: acc)
  case (Cons d cs)
  then show ?case by (cases "cond_Type d = cond_Type c") (auto simp: Let_def)
qed simp

lemma MarkRunRunning_twice:
  assumes "status_wf r"
  shows "MarkRunRunning now' re msg ((MarkRunRunning now re msg r)\<lparr>rs_ExtraFields := x\<rparr>) =
    (MarkRunRunning now re msg r)\<lparr>rs_ExtraFields := x\<rparr>"
proof -
  let ?c = "new_condition ConditionSucceeded ConditionUnknown re msg" and ?r = "MarkRunRunning now re msg r"
  from run_conds.get_put [OF assms, of ?c now] obtain time where
    "conds_Get (cond_Type ?c) (rs_Conditions ?r) = Some (?c\<lparr>cond_LastTransitionTime := time\<rparr>)"
    by (auto simp: MarkRunRunning_def GetCondition_def)
  from SetCondition_loop_present [OF this, of "[]"]
  have "conds_Set now' ?c (rs_Conditions ?r) = rs_Conditions ?r" by (simp add: conds_Set_def)
  then show ?thesis
    by (simp add: MarkRunRunning_def [of now'] SetCondition_def)
qed

text \<open>The creation time of a TaskRun is taken over as completion time once.\<close>

lemma observed_twice:
  assumes "rs_CompletionTime (run_Status (st_Run s)) = rs_CompletionTime (run_Status (st_Run (observed tr s')))"
  shows "st_Run (observed tr s) = st_Run s"
proof -
  have "\<not> time_Before (Some (om_CreationTimestamp (tr_Meta tr))) (rs_CompletionTime (run_Status (st_Run (observed tr s'))))"
    by (auto simp: observed_def time_Before_def Let_def split: option.splits)
  then show ?thesis unfolding assms [symmetric] by (simp add: observed_def Let_def)
qed

section \<open>The first reconcile\<close>

lemma InitializeConditions_start:
  "is_zero_time (rs_StartTime r) \<Longrightarrow> rs_StartTime (InitializeConditions n0 n1 n2 r) = Some n0"
  by (auto simp: InitializeConditions_def manager_InitializeConditions_def Let_def split: option.splits)

lemma start_run_started:
  assumes "0 < e_Now env 0" "\<not> Run_HasStarted (st_Run s)"
  shows "Run_HasStarted (st_Run (start_run env s))"
  using assms InitializeConditions_start [of "run_Status (st_Run s)"]
  by (auto simp: start_run_def Let_def Run_HasStarted_def is_zero_time_def)

lemma final_started:
  assumes "0 < e_Now env 0" "status_wf (run_Status run)" "references_TaskGroup run"
  shows "Run_HasStarted (st_Run (final env run))"
proof -
  let ?s = "\<lparr>st_Run = run, st_Status = empty_run_status, st_Effects = []\<rparr>"
  let ?t = "if \<not> Run_HasStarted run then start_run env ?s else ?s"
  have h: "Run_HasStarted (st_Run ?t)" 
    using start_run_started [where env = env and s = ?s, OF assms(1)] by (cases "Run_HasStarted run") simp_all
  show ?thesis
  proof (cases "active run")
    case True
    have "rs_StartTime (final_status env run) = rs_StartTime (run_Status (st_Run (entry env run)))"
      using final_active(5) [OF assms(2) True, of env] reconcile_frame [OF entry_frame(4) [OF assms(2), of env], of env]
      by simp
    also have "\<dots> = rs_StartTime (run_Status (st_Run ?t))"
      by (simp add: entry_def decode_status_def Let_def split: prod.splits option.splits)
    finally show ?thesis using h by (simp add: Run_HasStarted_def)
  next
    case False
    then have "final env run = ?t"
      using assms(3) start_run_done [OF assms(2)] by (auto simp: ReconcileKind_def active_def Let_def)
    then show ?thesis using h by simp
  qed
qed

lemma final_status_eq:
  assumes "status_wf (run_Status run)" "active run" "e_encodeStatus env (recorded env run (decoded env run)) = Inr data"
  shows "final_status env run = (run_Status (st_Run (snd (reconcile env (entry env run)))))\<lparr>rs_ExtraFields := data\<rparr>"
proof -
  note e = entry_frame [OF assms(1), of env]
  have st: "st_Status (snd (reconcile env (entry env run))) = recorded env run (decoded env run)"
    by (simp only: reconcile_status e(3) spec_cong(3) [OF e(1,2)])
  show ?thesis
    by (simp only: final_active(5) [OF assms(1,2)]) (rule encode_result(1), simp only: st assms(3))
qed

text \<open>The reconciled Run asks the world what the Run did.\<close>

lemma settled_world:
  assumes "status_wf (run_Status run)" "active run"
  shows "taskgroup_of env (st_Run (final env run)) = taskgroup_of env run"
    "listed env (st_Run (final env run)) = listed env run"
    "must_cancel (st_Run (final env run)) tr = must_cancel run tr"
    "run_Name (st_Run (final env run)) = run_Name run" "run_Namespace (st_Run (final env run)) = run_Namespace run"
proof -
  have n: "om_Name (propagated env run) = run_Name run" "om_Namespace (propagated env run) = run_Namespace run"
    by (auto simp: propagated_def split: sum.splits)
  note f = final_active(3,4) [OF assms, of env]
  show "run_Name (st_Run (final env run)) = run_Name run" "run_Namespace (st_Run (final env run)) = run_Namespace run"
    by (simp_all add: f n)
  then show "taskgroup_of env (st_Run (final env run)) = taskgroup_of env run"
    "listed env (st_Run (final env run)) = listed env run"
    by (simp_all add: taskgroup_of_def listed_def f(2))
  show "must_cancel (st_Run (final env run)) tr = must_cancel run tr" by (rule must_cancel_cong) (rule f(2))
qed

text \<open>A Run that is still active after a reconcile: its TaskGroup could be run, and where no TaskRun is listed one
  is recorded.\<close>

lemma still_active:
  assumes "status_wf (run_Status run)" "active run" "e_encodeStatus env (recorded env run (decoded env run)) = Inr data"
    and "active (st_Run (final env run))"
  shows "\<exists>meta spec. taskgroup_of env run = Inr (meta, spec) \<and> valid_spec spec"
    "listed env run = Inr [] \<Longrightarrow> tgs_TaskRun (recorded env run (decoded env run)) \<noteq> None"
    "listed env run = Inr [tr] \<Longrightarrow> \<not> TaskRun_IsDone tr"
proof -
  have u: "IsUnknown (succeeded_of (final_status env run))" using assms(4) by (simp add: active_def Run_IsDone_def)
  have v: "st = ConditionUnknown" if "outcome env run (decoded env run) = Some (st, re, msg)" for st re msg
    using final_view(1) [OF assms(1-3)] view_done [of "final_status env run" st "reason_String re" msg] u that
    by (simp add: outcome_view_def)
  show t: "\<exists>meta spec. taskgroup_of env run = Inr (meta, spec) \<and> valid_spec spec"
    by (cases env run rule: reconcile_branches) (use v in \<open>auto simp: outcome_def\<close>)
  then obtain meta spec where t': "taskgroup_of env run = Inr (meta, spec)" "valid_spec spec" by blast
  show "tgs_TaskRun (recorded env run (decoded env run)) \<noteq> None" if "listed env run = Inr []"
    using v t' that
    by (cases "tgs_TaskRun (decoded env run)"; cases "create_result env run meta spec")
      (auto simp: outcome_def recorded_def Let_def)
  show "\<not> TaskRun_IsDone tr" if one: "listed env run = Inr [tr]"
  proof
    assume "TaskRun_IsDone tr"
    then obtain st re msg where "outcome env run (decoded env run) = Some (st, re, msg)" "st \<noteq> ConditionUnknown"
      using t' one by (cases "TaskRun_IsSuccessful tr") (auto simp: outcome_def)
    with v show False by blast
  qed
qed

section \<open>The second reconcile\<close>

lemma recorded_again:
  assumes "status_wf (run_Status run)" "active run" "e_encodeStatus env (recorded env run (decoded env run)) = Inr data"
    and "active (st_Run (final env run))"
  shows "recorded (at env clock) (st_Run (final env run)) (recorded env run (decoded env run)) =
    recorded env run (decoded env run)"
proof -
  let ?r = "st_Run (final env run)" and ?st = "recorded env run (decoded env run)"
  note w = settled_world [OF assms(1,2), of env]
  obtain meta spec where t: "taskgroup_of env run = Inr (meta, spec)" "valid_spec spec"
    using still_active(1) [OF assms] by blast
  have s: "storeTaskGroupSpec sp (storeTaskGroupSpec sp st) = storeTaskGroupSpec sp st"
    "storeTaskGroupSpec sp ((storeTaskGroupSpec sp st)\<lparr>tgs_TaskRun := x\<rparr>) = (storeTaskGroupSpec sp st)\<lparr>tgs_TaskRun := x\<rparr>"
    for sp st x by (simp_all add: storeTaskGroupSpec_def)
  show ?thesis
  proof (cases env run rule: reconcile_branches)
    case (none meta' spec')
    then have n: "tgs_TaskRun ?st \<noteq> None" using still_active(2) [OF assms] by blast
    then obtain tr where tr: "tgs_TaskRun ?st = Some tr" by blast
    have "recorded (at env clock) ?r ?st = storeTaskGroupSpec spec ?st"
      using none t tr by (simp add: recorded_def [of "at env clock" ?r] w Let_def)
    moreover have "storeTaskGroupSpec spec ?st = ?st"
      using none t by (auto simp: recorded_def Let_def s split: option.splits sum.splits)
    ultimately show ?thesis by simp
  qed (use t in \<open>auto simp: recorded_def w Let_def s\<close>)
qed

lemma second_status:
  assumes "status_wf (run_Status run)" "active run" "e_encodeStatus env (recorded env run (decoded env run)) = Inr data"
    and "active (st_Run (final env run))" and st: "st_Run s = st_Run (final env run)"
      "st_Status s = recorded env run (decoded env run)"
  shows "run_Status (st_Run (snd (reconcile (at env clock) s))) = final_status env run"
proof -
  let ?r = "st_Run (final env run)" and ?e = "entry env run"
  note w = settled_world [OF assms(1,2), of env]
  note e = entry_frame [OF assms(1), of env]
  note c = request_cong [OF e(1,2)]
  have n: "run_Name (st_Run ?e) = run_Name run" "run_Namespace (st_Run ?e) = run_Namespace run" by (simp_all add: e)
  obtain meta spec where t: "taskgroup_of env run = Inr (meta, spec)" "valid_spec spec"
    using still_active(1) [OF assms(1-4)] by blast
  have t1: "taskgroup_of env (st_Run ?e) = Inr (meta, spec)" using t c by simp
  have t2: "taskgroup_of (at env clock) (st_Run s) = Inr (meta, spec)" using t by (simp add: st w)
  note f = final_status_eq [OF assms(1-3)]
  show ?thesis
  proof (cases env run rule: reconcile_branches)
    case (none meta' spec')
    have l1: "listed env (st_Run ?e) = Inr []" and l2: "listed (at env clock) (st_Run s) = Inr []"
      using none c by (simp_all add: st w)
    have tr: "tgs_TaskRun (st_Status s) \<noteq> None" using still_active(2) [OF assms(1-4) none(3)] st(2) by simp
    have d: "tgs_TaskRun (decoded env run) \<noteq> None \<or> (\<exists>tr. create_result env run meta spec = Inr tr)"
      using still_active(2) [OF assms(1-4) none(3)] none(3) t
      by (cases "create_result env run meta spec"; cases "tgs_TaskRun (decoded env run)") (simp_all add: recorded_def Let_def)
    have "run_Status (st_Run (snd (reconcile env ?e))) =
        MarkRunRunning (e_Now env 4) ''Running'' (run_Name run @ '' running'') (run_Status (st_Run ?e))"
      using d create_result_wanted [of env run spec _ meta]
      by (auto simp: reconcile_none [OF t1 t(2) l1] create_spec Let_def n e(3) c split: sum.splits)
    then have 1: "final_status env run =
        (MarkRunRunning (e_Now env 4) ''Running'' (run_Name run @ '' running'') (run_Status (st_Run ?e)))\<lparr>rs_ExtraFields := data\<rparr>"
      using f by simp
    show ?thesis
      using tr by (simp add: reconcile_none [OF t2 t(2) l2] create_spec Let_def st(1) w 1 MarkRunRunning_twice e(4))
  next
    case (one meta' spec' tr)
    have l1: "listed env (st_Run ?e) = Inr [tr]" and l2: "listed (at env clock) (st_Run s) = Inr [tr]"
      using one c by (simp_all add: st w)
    have u: "\<not> TaskRun_IsDone tr" by (rule still_active(3) [OF assms(1-4) one(3)])
    define o1 where "o1 = after_cancel env tr (observed tr (prepared meta spec ?e))"
    define o2 where "o2 = after_cancel (at env clock) tr (observed tr (prepared meta spec s))"
    have p: "e_patchTaskRun (at env clock) = e_patchTaskRun env" "e_cancelPatchBytes (at env clock) = e_cancelPatchBytes env"
      by simp_all
    let ?stuck = "must_cancel run tr \<and>
      e_patchTaskRun env (run_Namespace run) (om_Name (tr_Meta tr)) (e_cancelPatchBytes env) \<noteq> None"
    note r1 = reconcile_one [OF t1 t(2) l1, folded o1_def] and r2 = reconcile_one [OF t2 t(2) l2, folded o2_def]
    have o1: "st_Run o1 = st_Run (observed tr (prepared meta spec ?e))" "status_wf (run_Status (st_Run o1))"
      by (simp_all add: o1_def e(4))
    have o2: "run_Status (st_Run o2) = final_status env run"
      if "rs_CompletionTime (final_status env run) = rs_CompletionTime (run_Status (st_Run o1))"
      using observed_twice [of "prepared meta spec s" tr "prepared meta spec ?e"] that
      by (simp add: o2_def o1(1) st(1))
    show ?thesis
    proof (cases ?stuck)
      case True
      then obtain err1 err2 where "reconcile env ?e = (Some err1, o1)" "reconcile (at env clock) s = (Some err2, o2)"
        using r1(3) r2(3) by (auto simp: c st w n)
      then show ?thesis using f o2 by simp
    next
      case False
      have "run_Status (st_Run (snd (reconcile env ?e))) =
          MarkRunRunning (e_Now env 4) ''Running'' (run_Name run @ '' running'') (run_Status (st_Run o1))"
        using r1(4) [OF u] False by (simp add: c n)
      then have 1: "final_status env run =
          (MarkRunRunning (e_Now env 4) ''Running'' (run_Name run @ '' running'') (run_Status (st_Run o1)))\<lparr>rs_ExtraFields := data\<rparr>"
        using f by simp
      then have "run_Status (st_Run o2) = final_status env run" by (intro o2) simp
      then have "run_Status (st_Run (snd (reconcile (at env clock) s))) =
          MarkRunRunning (clock 4) ''Running'' (run_Name run @ '' running'') (final_status env run)"
        using r2(4) [OF u] False by (simp add: st(1) w)
      then show ?thesis unfolding 1 MarkRunRunning_twice [OF o1(2)] .
    qed
  next
    case (list_error meta' spec' err)
    then show ?thesis using reconcile_error_branch [OF t2 t(2), of err] by (auto simp: st(1) w)
  next
    case (many meta' spec' tr tr' trs)
    then show ?thesis using reconcile_error_branch [OF t2 t(2), of _ tr tr' trs] by (auto simp: st(1) w)
  qed (use t in auto)
qed

text \<open>What a reconcile records survives the decoder.\<close>

definition round_trips :: "Env \<Rightarrow> TaskGroupRunStatus \<Rightarrow> bool" where
  "round_trips env st \<longleftrightarrow>
     (case e_encodeStatus env st of
        Inl err \<Rightarrow> False
      | Inr data \<Rightarrow> data \<noteq> [] \<and> e_decodeStatus env data = (st, None))"

lemma second_entry:
  assumes "status_wf (run_Status run)" "active run" "round_trips env (recorded env run (decoded env run))"
    and "0 < e_Now env 0"
  shows "entry (at env clock) (st_Run (final env run)) =
    \<lparr>st_Run = st_Run (final env run), st_Status = recorded env run (decoded env run), st_Effects = []\<rparr>"
proof -
  obtain data where d: "e_encodeStatus env (recorded env run (decoded env run)) = Inr data" "data \<noteq> []"
    "e_decodeStatus env data = (recorded env run (decoded env run), None)"
    using assms(3) by (auto simp: round_trips_def split: sum.splits)
  have "Run_HasStarted (st_Run (final env run))"
    using final_started [OF assms(4,1)] assms(2) by (simp add: active_def)
  moreover have "DecodeExtraFields (at env clock) (final_status env run) = (recorded env run (decoded env run), None)"
    using final_view(2) [OF assms(1,2) d(1)] d(2,3) by (simp add: DecodeExtraFields_def)
  ultimately show ?thesis by (simp add: entry_def decode_status_def)
qed

lemma second_reconcile:
  assumes "status_wf (run_Status run)" "0 < e_Now env 0"
    and r: "round_trips env (recorded env run (decoded env run))"
    and m: "\<And>meta spec. taskgroup_of env run = Inr (meta, spec) \<Longrightarrow> meta_wf meta"
  shows "st_Run (final (at env clock) (st_Run (final env run))) = st_Run (final env run)"
proof -
  let ?r = "st_Run (final env run)" and ?st = "recorded env run (decoded env run)" and ?env = "at env clock"
  have wf: "status_wf (run_Status ?r)" by (rule final_wf [OF assms(1)])
  show ?thesis
  proof (cases "active ?r")
    case False
    show ?thesis
    proof (cases "references_TaskGroup ?r")
      case True
      have "references_TaskGroup run"
        using True by (cases "references_TaskGroup run") (simp_all add: ReconcileKind_def)
      from final_started [OF assms(2,1) this] False True show ?thesis
        by (simp add: ReconcileKind_def active_def)
    qed (simp add: ReconcileKind_def)
  next
    case True
    have a: "active run"
    proof (rule ccontr)
      assume n: "\<not> active run"
      have "Run_IsDone ?r \<or> \<not> references_TaskGroup ?r"
        using n start_run_done [OF assms(1)] by (auto simp: ReconcileKind_def active_def Let_def)
      then show False using True by (auto simp: active_def)
    qed
    obtain data where d: "e_encodeStatus env ?st = Inr data" using r by (auto simp: round_trips_def split: sum.splits)
    obtain meta spec where t: "taskgroup_of env run = Inr (meta, spec)" using still_active(1) [OF assms(1) a d True] by blast
    let ?s = "\<lparr>st_Run = ?r, st_Status = ?st, st_Effects = []\<rparr>"
    have e: "entry ?env ?r = ?s" by (rule second_entry [OF assms(1) a r assms(2)])
    have dec: "decoded ?env ?r = ?st" using entry_frame(3) [OF wf, of ?env] e by simp
    have rec: "recorded ?env ?r ?st = ?st" by (rule recorded_again [OF assms(1) a d True])
    have "run_Status (st_Run (snd (reconcile ?env ?s))) = run_Status ?r"
      by (rule second_status [OF assms(1) a d True]) simp_all
    moreover have "e_encodeStatus ?env (recorded ?env ?r (decoded ?env ?r)) = Inr data" using d by (simp add: dec rec del: spec_at)
    ultimately have "final_status ?env ?r = (run_Status ?r)\<lparr>rs_ExtraFields := data\<rparr>"
      using final_status_eq [OF wf True, of ?env data] e by simp
    also have "\<dots> = run_Status ?r" using final_view(2) [OF assms(1) a d] by simp
    finally have 1: "final_status ?env ?r = run_Status ?r" .
    have 2: "run_Spec (st_Run (final ?env ?r)) = run_Spec ?r" by (rule final_active(4) [OF wf True])
    have "run_Meta (st_Run (final ?env ?r)) = run_Meta (propagateTaskGroupLabelsAndAnnotations meta ?r)"
      using final_active(3) [OF wf True, of ?env] t settled_world(1) [OF assms(1) a, of env] by (simp add: propagated_def)
    also have "\<dots> = run_Meta (propagateTaskGroupLabelsAndAnnotations meta
        (propagateTaskGroupLabelsAndAnnotations meta run))"
      using final_active(3) [OF assms(1) a, of env] t
      by (simp add: propagated_def propagateTaskGroupLabelsAndAnnotations_def Let_def)
    also have "\<dots> = run_Meta ?r"
      using final_active(3) [OF assms(1) a, of env] t by (simp add: propagated_def propagate_twice [OF m [OF t]])
    finally show ?thesis using 1 2 by simp
  qed
qed

section \<open>The loop\<close>

text \<open>One reconcile after another, the \<open>k\<close>-th at the times \<open>clock k\<close>, as long as the Run changes.\<close>

definition reconcile_once :: "Env \<Rightarrow> (nat \<Rightarrow> nat \<Rightarrow> gotime) \<Rightarrow> nat \<Rightarrow> Run \<Rightarrow> Run" where
  "reconcile_once env clock k run = st_Run (snd (ReconcileKind (at env (clock k)) run))"

definition reconcile_loop :: "Env \<Rightarrow> (nat \<Rightarrow> nat \<Rightarrow> gotime) \<Rightarrow> Run \<Rightarrow> (nat \<times> Run) option" where
  "reconcile_loop env clock run =
     while_option (\<lambda>(k, run). reconcile_once env clock k run \<noteq> run)
       (\<lambda>(k, run). (Suc k, reconcile_once env clock k run)) (0, run)"

text \<open>C11. The reconcile loop of a Run ends. In a world that stands still but for the clock, whatever Run it starts
  with, the loop of reconciles that each ask for the next one by changing the Run stops after at most one
  change. It needs that what a reconcile records in the extra fields is what it decodes from them.\<close>

theorem reconcile_loop_terminates:
  assumes "status_wf (run_Status run)" "0 < clock 0 0"
    and "round_trips env (recorded env run (decoded env run))"
    and "case taskgroup_of env run of Inl err \<Rightarrow> True | Inr (meta, spec) \<Rightarrow> meta_wf meta"
  shows "\<exists>k r. reconcile_loop env clock run = Some (k, r) \<and> k \<le> 1"
proof -
  let ?env = "at env (clock 0)"
  let ?r = "reconcile_once env clock 0 run"
  have rec: "recorded ?env run st = recorded env run st" for st unfolding recorded_def spec_at ..
  have rt: "round_trips ?env (recorded ?env run (decoded ?env run))"
    using assms(3) unfolding rec spec_at round_trips_def env_at .
  have "st_Run (final (at ?env (clock 1)) (st_Run (final ?env run))) = st_Run (final ?env run)"
    by (rule second_reconcile [OF assms(1) _ rt]) (use assms(2,4) in auto)
  then have "reconcile_once env clock (Suc 0) ?r = ?r" by (simp add: reconcile_once_def)
  then show ?thesis
    by (cases "?r = run") (simp_all add: reconcile_loop_def while_option_unfold)
qed

text \<open>The example run with a TaskRun that goes on running.\<close>

definition ex_running :: Env where
  "ex_running = (ex_env [ex_taskrun ConditionUnknown])\<lparr>e_decodeStatus := \<lambda>raw.
     (\<lparr>tgs_TaskGroupSpec = Some ex_group, tgs_TaskRun = Some (tr_Status (ex_taskrun ConditionUnknown))\<rparr>, None)\<rparr>"

theorem reconcile_loop_terminates_witness:
  "\<exists>k r. reconcile_loop ex_running (\<lambda>k i. 100 + int k) ex_run = Some (k, r) \<and> k \<le> 1"
proof (rule reconcile_loop_terminates [OF ex_run_wf])
  have t: "taskgroup_of ex_running ex_run = Inr (ex_meta, ex_group)"
    "listed ex_running ex_run = Inr [ex_taskrun ConditionUnknown]"
    by (simp_all add: taskgroup_of_def listed_def ex_running_def ex_env_def ex_run_def)
  have "decoded ex_running ex_run = empty_run_status"
    by (simp add: decoded_def DecodeExtraFields_def ex_run_def empty_RunStatus_def)
  with t have "recorded ex_running ex_run (decoded ex_running ex_run) =
      \<lparr>tgs_TaskGroupSpec = Some ex_group, tgs_TaskRun = Some (tr_Status (ex_taskrun ConditionUnknown))\<rparr>"
    by (simp add: recorded_def storeTaskGroupSpec_def empty_run_status_def)
  then show "round_trips ex_running (recorded ex_running ex_run (decoded ex_running ex_run))"
    by (simp add: round_trips_def ex_running_def ex_env_def)
  show "case taskgroup_of ex_running ex_run of Inl err \<Rightarrow> True | Inr (meta, spec) \<Rightarrow> meta_wf meta"
    by (simp add: t meta_wf_def empty_meta_def nil_map_def)
qed simp

end
