(* ===== verification/Cluster.thy ===== *)
theory Cluster
  imports Run_Lifecycle Run_Settling
begin

text \<open>
  The controller at work: one Run with its TaskRuns on the API server, the caches of the two informers, the work
  queue, the event handlers of \<open>controller.go\<close> and the worker, in any interleaving with a user who edits the Run,
  with the TaskRun controller, and with informers that are as late as they like. The questions are whether a wake-up
  can be lost (whether a Run can be left that is not settled, is not in the queue, and whose TaskRun has nothing more
  to tell) and whether the Run can get a second TaskRun.

  Assumed of the rest of the cluster: the API server keeps namespace, owner and labels of a TaskRun it accepts; the
  informers deliver the versions of an object, and the TaskRuns, in their order; what the worker reads from the API
  server has the current status, and its errors are not permanent ones; the controller is the leader for the Run,
  which is not being deleted; the codec of the extra fields tells whether a TaskRun is recorded (\<open>codec_env\<close>). The
  status may be written late or not at all. \<open>cluster_steps\<close> assume \<open>sees_own_writes\<close> instead; \<open>any_step\<close> assumes nothing
  about what the caches know.
\<close>

section \<open>Steps\<close>

text \<open>\<open>cl_Watch\<close> are the versions of the Run the informer has still to deliver. \<open>cl_Lost\<close> says that a TaskRun was
  created by a reconcile whose status was not written, and no status has been written since.\<close>

record Cluster =
  cl_Run :: Run
  cl_RunCache :: Run
  cl_Watch :: "Run list"
  cl_TaskRuns :: "TaskRun list"
  cl_Cache :: "TaskRun list"
  cl_Queue :: "NamespacedName set"
  cl_Lost :: bool

abbreviation run_key :: "Cluster \<Rightarrow> NamespacedName" where
  "run_key c \<equiv> key_of (run_Meta (cl_Run c))"

definition cached :: "Cluster \<Rightarrow> string \<Rightarrow> string gomap \<Rightarrow> TaskRun list" where
  "cached c ns sel =
     filter (\<lambda>tr. om_Namespace (tr_Meta tr) = ns \<and> selector_matches sel (om_Labels (tr_Meta tr))) (cl_Cache c)"

definition cluster_env :: "Env \<Rightarrow> Cluster \<Rightarrow> Env" where
  "cluster_env env c = env\<lparr>e_listTaskRuns := \<lambda>ns sel. Inr (cached c ns sel)\<rparr>"

definition controller_of :: "Run \<Rightarrow> Handlers" where
  "controller_of run = NewController (\<lambda>ns n.
     if ns = run_Namespace run \<and> n = run_Name run then Inr run else Inl (Errorf ''not found''))"

definition enqueued :: "ResourceEventHandler \<Rightarrow> change \<Rightarrow> NamespacedName set" where
  "enqueued h ch = (case deliver h ch of None \<Rightarrow> {} | Some ks \<Rightarrow> set ks)"

definition same_TaskRun :: "TaskRun \<Rightarrow> TaskRun \<Rightarrow> bool" where
  "same_TaskRun tr tr' \<longleftrightarrow>
     om_Namespace (tr_Meta tr') = om_Namespace (tr_Meta tr) \<and>
     om_OwnerReferences (tr_Meta tr') = om_OwnerReferences (tr_Meta tr) \<and>
     om_Labels (tr_Meta tr') = om_Labels (tr_Meta tr)"

definition same_Run :: "Run \<Rightarrow> Run \<Rightarrow> bool" where
  "same_Run run run' \<longleftrightarrow>
     run_Name run' = run_Name run \<and> run_Namespace run' = run_Namespace run \<and>
     om_UID (run_Meta run') = om_UID (run_Meta run) \<and>
     om_DeletionTimestamp (run_Meta run') = om_DeletionTimestamp (run_Meta run) \<and>
     rsp_Ref (run_Spec run') = rsp_Ref (run_Spec run) \<and> rsp_Spec (run_Spec run') = rsp_Spec (run_Spec run)"

definition server_ok :: "Env \<Rightarrow> bool" where
  "server_ok env \<longleftrightarrow> (\<forall>tr tr'. e_createTaskRun env tr = Inr tr' \<longrightarrow> same_TaskRun tr tr')"

text \<open>The worker reads Runs from the cache and, after a conflict, from the API server.\<close>

definition client_ok :: "RunClient \<Rightarrow> Cluster \<Rightarrow> bool" where
  "client_ok rc c \<longleftrightarrow> rc_IsLeaderFor rc (run_key c) \<and>
     rc_Lister rc (run_Namespace (cl_Run c)) (run_Name (cl_Run c)) = Inr (cl_RunCache c) \<and>
     (\<forall>k r. rc_Get rc k = Inr r \<longrightarrow> run_Status r = run_Status (cl_Run c)) \<and> api_errors_transient rc"

text \<open>The reconcile knows what earlier ones did: the cache has all TaskRuns of the Run, or the lister has the status
  that was written last, and no status was lost.\<close>

definition sees_own_writes :: "Cluster \<Rightarrow> bool" where
  "sees_own_writes c \<longleftrightarrow> length (cl_Cache c) = length (cl_TaskRuns c) \<or>
     \<not> cl_Lost c \<and> run_Status (cl_RunCache c) = run_Status (cl_Run c)"

definition after_reconcile :: "RunClient \<Rightarrow> Env \<Rightarrow> Cluster \<Rightarrow> Cluster" where
  "after_reconcile rc env c =
     (case processNextWorkItem rc (cluster_env env c) (run_key c) (cl_Queue c) of
        (oc, queue) \<Rightarrow>
          let run = written_back oc (cl_Run c); new = accepted env (oc_Effects oc) in
          c\<lparr>cl_Run := run,
            cl_Watch := cl_Watch c @ (if oc_Accepted oc = None then [] else [run]),
            cl_TaskRuns := cl_TaskRuns c @ new,
            cl_Queue := queue,
            cl_Lost := oc_Accepted oc = None \<and> (cl_Lost c \<or> new \<noteq> [])\<rparr>)"

definition after_edit :: "Run \<Rightarrow> Cluster \<Rightarrow> Cluster" where
  "after_edit run' c = c\<lparr>cl_Run := run', cl_Watch := cl_Watch c @ [run']\<rparr>"

text \<open>The informers deliver the next version of the Run, and the TaskRun at a position.\<close>

definition after_delivery :: "Cluster \<Rightarrow> Cluster" where
  "after_delivery c =
     (case cl_Watch c of
        [] \<Rightarrow> c
      | run # runs \<Rightarrow>
          c\<lparr>cl_RunCache := run, cl_Watch := runs,
            cl_Queue := cl_Queue c \<union>
              enqueued (h_Run (controller_of run)) (Updated (RunObj (Some (cl_RunCache c))) (RunObj (Some run)))\<rparr>)"

definition after_sync :: "nat \<Rightarrow> Cluster \<Rightarrow> Cluster" where
  "after_sync i c =
     (let tr = cl_TaskRuns c ! i; h = h_TaskRun (controller_of (cl_RunCache c)) in
      if i < length (cl_Cache c)
      then c\<lparr>cl_Cache := (cl_Cache c)[i := tr],
             cl_Queue := cl_Queue c \<union> enqueued h (Updated (TaskRunObj (Some (cl_Cache c ! i))) (TaskRunObj (Some tr)))\<rparr>
      else c\<lparr>cl_Cache := cl_Cache c @ [tr], cl_Queue := cl_Queue c \<union> enqueued h (Added (TaskRunObj (Some tr)))\<rparr>)"

text \<open>\<open>may\<close> is what the caches must know for the worker to take up the Run. With \<open>sees_own_writes\<close> for it these are
  the steps of a controller whose informers are not too late, and with no condition those of any controller.\<close>

inductive cluster_step :: "Encoding \<Rightarrow> (Cluster \<Rightarrow> bool) \<Rightarrow> Cluster \<Rightarrow> Cluster \<Rightarrow> bool" for enc may where
  Reconcile: "codec_env enc env \<Longrightarrow> server_ok env \<Longrightarrow> client_ok rc c \<Longrightarrow> may c \<Longrightarrow> run_key c \<in> cl_Queue c \<Longrightarrow>
    cluster_step enc may c (after_reconcile rc env c)"
| Edit: "same_Run (cl_Run c) run' \<Longrightarrow> run_Status run' = run_Status (cl_Run c) \<Longrightarrow>
    cluster_step enc may c (after_edit run' c)"
| Progress: "i < length (cl_TaskRuns c) \<Longrightarrow> same_TaskRun (cl_TaskRuns c ! i) tr \<Longrightarrow>
    cluster_step enc may c (c\<lparr>cl_TaskRuns := (cl_TaskRuns c)[i := tr]\<rparr>)"
| Deliver: "cl_Watch c \<noteq> [] \<Longrightarrow> cluster_step enc may c (after_delivery c)"
| Sync: "i < length (cl_TaskRuns c) \<Longrightarrow> i \<le> length (cl_Cache c) \<Longrightarrow> cluster_step enc may c (after_sync i c)"

abbreviation cluster_steps :: "Encoding \<Rightarrow> Cluster \<Rightarrow> Cluster \<Rightarrow> bool" where
  "cluster_steps enc \<equiv> (cluster_step enc sees_own_writes)\<^sup>*\<^sup>*"

abbreviation any_step :: "Encoding \<Rightarrow> Cluster \<Rightarrow> Cluster \<Rightarrow> bool" where
  "any_step enc \<equiv> cluster_step enc (\<lambda>c. True)"

lemma any_step_weaken: "cluster_step enc may c c' \<Longrightarrow> any_step enc c c'"
  by (induction rule: cluster_step.induct) (auto intro: cluster_step.intros)

text \<open>A Run as it is created: no status recorded, no TaskRun, and its creation event has put its key into the
  queue. It refers to a TaskGroup by exactly one of a reference and an embedded spec.\<close>

definition single_ref :: "Run \<Rightarrow> bool" where
  "single_ref run \<longleftrightarrow> references_TaskGroup run \<and> (rsp_Ref (run_Spec run) = None \<or> rsp_Spec (run_Spec run) = None)"

definition new_cluster :: "Run \<Rightarrow> Cluster" where
  "new_cluster run = \<lparr>cl_Run = run, cl_RunCache = run, cl_Watch = [], cl_TaskRuns = [], cl_Cache = [],
     cl_Queue = enqueued (h_Run (controller_of run)) (Added (RunObj (Some run))), cl_Lost = False\<rparr>"

section \<open>Identity\<close>

lemma same_Run_refl [simp]: "same_Run run run"
  by (simp add: same_Run_def)

lemma same_Run_trans: "same_Run r1 r2 \<Longrightarrow> same_Run r1 r3 \<Longrightarrow> same_Run r2 r3"
  by (simp add: same_Run_def)

lemma same_Run_status [simp]: "same_Run run (run'\<lparr>run_Status := st\<rparr>) = same_Run run run'"
  by (simp add: same_Run_def)

lemma same_Run_Pre: "same_Run run (PreProcessReconcile rc run)"
  by (simp add: same_Run_def)

lemma same_Run_refs:
  assumes "same_Run run run'"
  shows "references_TaskGroup run' = references_TaskGroup run" "single_ref run' = single_ref run"
proof -
  have r: "rsp_Ref (run_Spec run') = rsp_Ref (run_Spec run)" "rsp_Spec (run_Spec run') = rsp_Spec (run_Spec run)"
    using assms by (simp_all add: same_Run_def)
  show "references_TaskGroup run' = references_TaskGroup run" unfolding references_TaskGroup_def r ..
  then show "single_ref run' = single_ref run" unfolding single_ref_def r by simp
qed

lemma same_Run_key: "same_Run run run' \<Longrightarrow> key_of (run_Meta run') = key_of (run_Meta run)"
  by (simp add: same_Run_def key_of_def)

lemma final_references:
  assumes "status_wf (run_Status run)" "active run"
  shows "references_TaskGroup (st_Run (final env run)) = references_TaskGroup run"
  unfolding references_TaskGroup_def final_active(4) [OF assms] ..

text \<open>A TaskRun that belongs to a Run: the listers find it and its changes lead to the Run.\<close>

definition owned :: "Run \<Rightarrow> TaskRun \<Rightarrow> bool" where
  "owned run tr \<longleftrightarrow>
     om_Namespace (tr_Meta tr) = run_Namespace run \<and> om_OwnerReferences (tr_Meta tr) = [NewControllerRef run] \<and>
     selector_matches (getTaskRunLabels run False) (om_Labels (tr_Meta tr))"

lemma owned_same_Run: "same_Run run run' \<Longrightarrow> owned run' tr = owned run tr"
  by (simp add: same_Run_def owned_def NewControllerRef_def getTaskRunLabels_False)

lemma owned_same_TaskRun: "same_TaskRun tr tr' \<Longrightarrow> owned run tr \<Longrightarrow> owned run tr'"
  by (simp add: same_TaskRun_def owned_def)

lemma created_owned:
  assumes "status_wf (run_Status run)" "CreatedTaskRun tr \<in> set (st_Effects (final env run))"
  shows "owned run tr"
proof -
  have "\<exists>meta ts. tr = wanted_TaskRun env run meta ts"
    using assms(2) unfolding created_iff [OF assms(1)] by blast
  then show ?thesis using created_meta [OF assms] wanted_TaskRun_selected by (auto simp: owned_def)
qed

section \<open>Events\<close>

lemma Run_event_enqueues:
  assumes "references_TaskGroup old" "references_TaskGroup run"
  shows "enqueued (h_Run (controller_of run')) (Updated (RunObj (Some old)) (RunObj (Some run))) = {key_of (run_Meta run)}"
    "enqueued (h_Run (controller_of run')) (Added (RunObj (Some run))) = {key_of (run_Meta run)}"
  using assms by (simp_all add: enqueued_def controller_of_def NewController_def FilterRunRef_references)

lemma TaskRun_event_enqueues:
  assumes "single_ref run" "owned run tr" "owned run old"
  shows "enqueued (h_TaskRun (controller_of run)) (Added (TaskRunObj (Some tr))) = {key_of (run_Meta run)}"
    "enqueued (h_TaskRun (controller_of run)) (Updated (TaskRunObj (Some old)) (TaskRunObj (Some tr))) = {key_of (run_Meta run)}"
proof -
  let ?lister = "\<lambda>ns n. if ns = run_Namespace run \<and> n = run_Name run then Inr run else Inl (Errorf ''not found'')"
  have f: "FilterOwnerRunRef ?lister (gv_String SchemeGroupVersion) TaskGroupControllerName (TaskRunObj (Some t)) = Some True"
    if "owned run t" for t
    using FilterOwnerRunRef_controlled [of t run ?lister run] that assms(1) by (simp add: owned_def single_ref_def)
  have k: "EnqueueControllerOf (TaskRunObj (Some tr)) = Some [key_of (run_Meta run)]"
    using EnqueueControllerOf_controlled [of tr run] assms(2) by (simp add: owned_def)
  show "enqueued (h_TaskRun (controller_of run)) (Added (TaskRunObj (Some tr))) = {key_of (run_Meta run)}"
    "enqueued (h_TaskRun (controller_of run)) (Updated (TaskRunObj (Some old)) (TaskRunObj (Some tr))) = {key_of (run_Meta run)}"
    using f [OF assms(2)] f [OF assms(3)] k by (simp_all add: enqueued_def controller_of_def NewController_def)
qed

section \<open>The invariant\<close>

text \<open>A version of the Run: its extra fields hold nothing, or an encoding, and one with a TaskRun only if there is
  one.\<close>

definition version_ok :: "Encoding \<Rightarrow> Run \<Rightarrow> TaskRun list \<Rightarrow> Run \<Rightarrow> bool" where
  "version_ok enc run trs r \<longleftrightarrow> status_wf (run_Status r) \<and> same_Run run r \<and>
     (rs_ExtraFields (run_Status r) = [] \<or>
       (\<exists>st. rs_ExtraFields (run_Status r) = enc st \<and> (tgs_TaskRun st \<noteq> None \<longrightarrow> trs \<noteq> [])))"

definition inv_versions :: "Encoding \<Rightarrow> Cluster \<Rightarrow> bool" where
  "inv_versions enc c \<longleftrightarrow>
     list_all (version_ok enc (cl_Run c) (cl_TaskRuns c)) (cl_RunCache c # cl_Watch c) \<and>
     last (cl_RunCache c # cl_Watch c) = cl_Run c \<and>
     single_ref (cl_Run c) \<and> key_wf (run_key c) \<and> om_DeletionTimestamp (run_Meta (cl_Run c)) = None"

text \<open>The TaskRuns belong to the Run.\<close>

definition inv_owned :: "Cluster \<Rightarrow> bool" where
  "inv_owned c \<longleftrightarrow>
     length (cl_Cache c) \<le> length (cl_TaskRuns c) \<and> list_all (owned (cl_Run c)) (cl_TaskRuns c @ cl_Cache c)"

text \<open>There is at most one; it is known to the status, or to the cache, or its status was lost.\<close>

definition inv_TaskRuns :: "Encoding \<Rightarrow> Cluster \<Rightarrow> bool" where
  "inv_TaskRuns enc c \<longleftrightarrow> inv_owned c \<and> length (cl_TaskRuns c) \<le> 1 \<and>
     (cl_TaskRuns c \<noteq> [] \<longrightarrow> TaskRun_recorded enc (cl_Run c) \<or> cl_Cache c \<noteq> [] \<or> cl_Lost c)"

text \<open>No wake-up is lost: a Run that is neither settled nor queued, and of which no version is on its way, has a
  TaskRun, and what the cache knows of it is not the end.\<close>

definition inv_wake :: "Cluster \<Rightarrow> bool" where
  "inv_wake c \<longleftrightarrow>
     run_settled (cl_Run c) \<or> run_key c \<in> cl_Queue c \<or> cl_Watch c \<noteq> [] \<or>
     cl_TaskRuns c \<noteq> [] \<and> list_all (\<lambda>tr. \<not> TaskRun_IsDone tr) (cl_Cache c)"

definition cluster_inv :: "Encoding \<Rightarrow> Cluster \<Rightarrow> bool" where
  "cluster_inv enc c \<longleftrightarrow> inv_versions enc c \<and> inv_TaskRuns enc c \<and> inv_wake c"

lemma cluster_env_at [simp]:
  "codec_env enc (cluster_env env c) = codec_env enc env" "e_createTaskRun (cluster_env env c) = e_createTaskRun env"
  by (simp_all add: codec_env_def cluster_env_def)

lemma accepted_env [simp]: "accepted (cluster_env env c) es = accepted env es"
  by (induction env es rule: accepted.induct) (simp_all split: sum.split)

lemma version_ok_run:
  assumes "inv_versions enc c"
  shows "version_ok enc (cl_Run c) (cl_TaskRuns c) (cl_RunCache c)" "version_ok enc (cl_Run c) (cl_TaskRuns c) (cl_Run c)"
proof -
  have "cl_Run c \<in> set (cl_RunCache c # cl_Watch c)"
    using assms last_in_set [of "cl_RunCache c # cl_Watch c"] by (simp only: inv_versions_def) auto
  then show "version_ok enc (cl_Run c) (cl_TaskRuns c) (cl_RunCache c)" "version_ok enc (cl_Run c) (cl_TaskRuns c) (cl_Run c)"
    using assms by (auto simp: inv_versions_def list_all_iff)
qed

lemma version_ok_mono:
  assumes "version_ok enc run trs r" "same_Run run run'" "trs \<noteq> [] \<Longrightarrow> trs' \<noteq> []"
  shows "version_ok enc run' trs' r"
  using assms same_Run_trans [of run run' r] by (auto simp: version_ok_def)

lemma listed_cache:
  assumes "inv_owned c" "same_Run (cl_Run c) run"
  shows "listed (cluster_env env c) run = Inr (cl_Cache c)"
proof -
  have "cached c (run_Namespace run) (getTaskRunLabels run False) = cl_Cache c"
    using assms by (auto simp: cached_def inv_owned_def owned_def list_all_iff same_Run_def getTaskRunLabels_False intro: filter_True)
  then show ?thesis by (simp add: listed_def cluster_env_def getTaskRunLabels_False)
qed

section \<open>A reconcile keeps the invariant\<close>

text \<open>What a step of the worker does, in the terms of \<open>ReconcileKind\<close>.\<close>

lemma accepted_status:
  assumes "key_wf key" "to_reconcile rc key = Some run"
  shows "oc_Accepted (Reconcile rc env (safeKey key)) = None \<or>
    oc_Accepted (Reconcile rc env (safeKey key)) = Some (run_Status (reconciled rc env run))"
proof (cases rule: Reconcile_live [OF assms, of env, case_names equal lost kept])
  case equal
  then show ?thesis by (simp add: nothing_done_def)
next
  case (lost err u detail)
  then show ?thesis using updateStatus_result(2) [OF lost(2)] by (auto simp: written_def split: option.splits)
next
  case (kept u)
  then show ?thesis using updateStatus_result(2) [OF kept(2)] by (auto simp: written_def split: option.splits)
qed

lemma to_reconcile_cluster:
  assumes "inv_versions enc c" "client_ok rc c"
  shows "to_reconcile rc (run_key c) = Some (cl_RunCache c)"
  using assms version_ok_run(1) [OF assms(1)]
  by (simp add: to_reconcile_def client_ok_def inv_versions_def key_of_def version_ok_def same_Run_def)

abbreviation worked_Run :: "RunClient \<Rightarrow> Cluster \<Rightarrow> Run" where
  "worked_Run rc c \<equiv> PreProcessReconcile rc (cl_RunCache c)"

abbreviation new_TaskRuns :: "RunClient \<Rightarrow> Env \<Rightarrow> Cluster \<Rightarrow> TaskRun list" where
  "new_TaskRuns rc env c \<equiv> accepted env (st_Effects (final (cluster_env env c) (worked_Run rc c)))"

abbreviation worked_status :: "RunClient \<Rightarrow> Env \<Rightarrow> Cluster \<Rightarrow> RunStatus" where
  "worked_status rc env c \<equiv> run_Status (reconciled rc (cluster_env env c) (cl_RunCache c))"

lemma after_reconcile_cases:
  assumes inv: "inv_versions enc c" and rc: "client_ok rc c"
  obtains (unwritten) "cl_Run (after_reconcile rc env c) = cl_Run c" "cl_Watch (after_reconcile rc env c) = cl_Watch c"
      "cl_Lost (after_reconcile rc env c) \<longleftrightarrow> cl_Lost c \<or> new_TaskRuns rc env c \<noteq> []"
  | (written) "cl_Run (after_reconcile rc env c) = (cl_Run c)\<lparr>run_Status := worked_status rc env c\<rparr>"
      "cl_Watch (after_reconcile rc env c) = cl_Watch c @ [(cl_Run c)\<lparr>run_Status := worked_status rc env c\<rparr>]"
      "\<not> cl_Lost (after_reconcile rc env c)"
proof -
  have k: "key_wf (run_key c)" using inv by (simp add: inv_versions_def)
  note t = to_reconcile_cluster [OF inv rc]
  have n: "accepted env (oc_Effects (Reconcile rc (cluster_env env c) (safeKey (run_key c)))) = new_TaskRuns rc env c"
    using accepted_by_work [OF k, of "cluster_env env c" rc] by (simp add: t)
  from accepted_status [OF k t, of "cluster_env env c"] show thesis
  proof
    assume "oc_Accepted (Reconcile rc (cluster_env env c) (safeKey (run_key c))) = None"
    then show thesis
      by (intro unwritten) (simp_all add: after_reconcile_def processNextWorkItem_def written_back_def Let_def n)
  next
    assume "oc_Accepted (Reconcile rc (cluster_env env c) (safeKey (run_key c))) = Some (worked_status rc env c)"
    then show thesis
      by (intro written) (simp_all add: after_reconcile_def processNextWorkItem_def written_back_def Let_def)
  qed
qed

lemma after_reconcile_frame:
  assumes "inv_versions enc c" "client_ok rc c"
  shows "cl_RunCache (after_reconcile rc env c) = cl_RunCache c" "cl_Cache (after_reconcile rc env c) = cl_Cache c"
    "cl_TaskRuns (after_reconcile rc env c) = cl_TaskRuns c @ new_TaskRuns rc env c"
    "cl_Queue (after_reconcile rc env c) = snd (processNextWorkItem rc (cluster_env env c) (run_key c) (cl_Queue c))"
    "same_Run (cl_Run c) (cl_Run (after_reconcile rc env c))"
proof -
  have k: "key_wf (run_key c)" using assms(1) by (simp add: inv_versions_def)
  show "cl_RunCache (after_reconcile rc env c) = cl_RunCache c" "cl_Cache (after_reconcile rc env c) = cl_Cache c"
    "cl_Queue (after_reconcile rc env c) = snd (processNextWorkItem rc (cluster_env env c) (run_key c) (cl_Queue c))"
    "cl_TaskRuns (after_reconcile rc env c) = cl_TaskRuns c @ new_TaskRuns rc env c"
    using accepted_by_work [OF k, of "cluster_env env c" rc]
    by (simp_all add: after_reconcile_def processNextWorkItem_def Let_def to_reconcile_cluster [OF assms])
  show "same_Run (cl_Run c) (cl_Run (after_reconcile rc env c))"
    by (simp add: after_reconcile_def case_prod_unfold Let_def same_Run_def)
qed

text \<open>The Run the worker works on.\<close>

lemma worked_facts:
  assumes "inv_versions enc c"
  shows "status_wf (run_Status (cl_RunCache c))" "status_wf (run_Status (worked_Run rc c))"
    "same_Run (cl_Run c) (cl_RunCache c)" "same_Run (cl_Run c) (worked_Run rc c)"
proof -
  note v = version_ok_run(1) [OF assms]
  show wf: "status_wf (run_Status (cl_RunCache c))" and s: "same_Run (cl_Run c) (cl_RunCache c)"
    using v by (simp_all add: version_ok_def)
  show "status_wf (run_Status (worked_Run rc c))" by (rule Pre_wf [OF wf])
  show "same_Run (cl_Run c) (worked_Run rc c)" using s by (simp add: same_Run_def)
qed

lemma no_second_TaskRun:
  assumes inv: "inv_versions enc c" "inv_TaskRuns enc c" and env: "codec_env enc env" and sees: "sees_own_writes c"
    and "cl_TaskRuns c \<noteq> []"
  shows "new_TaskRuns rc env c = []"
proof (rule accepted_none)
  fix tr
  have known: "TaskRun_recorded enc (worked_Run rc c) \<or> cl_Cache c \<noteq> []"
    using inv(2) sees assms(5) by (auto simp: inv_TaskRuns_def sees_own_writes_def TaskRun_recorded_def)
  then show "CreatedTaskRun tr \<notin> set (st_Effects (final (cluster_env env c) (worked_Run rc c)))"
  proof
    assume "TaskRun_recorded enc (worked_Run rc c)"
    then show ?thesis using env by (intro recorded_no_creation [OF worked_facts(2) [OF inv(1)]]) simp_all
  next
    assume "cl_Cache c \<noteq> []"
    then show ?thesis
      using listed_cache [OF _ worked_facts(4) [OF inv(1)]] inv(2)
      by (simp only: created_iff [OF worked_facts(2) [OF inv(1)]] inv_TaskRuns_def) auto
  qed
qed

lemma new_TaskRuns_owned:
  assumes "inv_versions enc c" "server_ok env"
  shows "length (new_TaskRuns rc env c) \<le> 1" "list_all (owned (cl_Run c)) (new_TaskRuns rc env c)"
proof -
  note w = worked_facts(2,4) [OF assms(1), of rc]
  show "length (new_TaskRuns rc env c) \<le> 1"
    using accepted_length creations_bound [OF w(1), of "cluster_env env c"] by (rule order_trans)
  show "list_all (owned (cl_Run c)) (new_TaskRuns rc env c)"
  proof (rule list_all_iff [THEN iffD2], rule ballI)
    fix tr
    assume "tr \<in> set (new_TaskRuns rc env c)"
    from accepted_from [OF this] obtain tr0
      where "CreatedTaskRun tr0 \<in> set (st_Effects (final (cluster_env env c) (worked_Run rc c)))"
        "e_createTaskRun env tr0 = Inr tr" by blast
    then have "same_TaskRun tr0 tr" "owned (worked_Run rc c) tr0"
      using assms(2) created_owned [OF w(1)] by (simp_all add: server_ok_def)
    then show "owned (cl_Run c) tr" using owned_same_TaskRun owned_same_Run [OF w(2)] by blast
  qed
qed

text \<open>What is recorded exists.\<close>

lemma recorded_exists:
  assumes inv: "inv_versions enc c" "inv_owned c" and env: "codec_env enc env" and a: "active (worked_Run rc c)"
    and r: "tgs_TaskRun (recorded (cluster_env env c) (worked_Run rc c) (decoded (cluster_env env c) (worked_Run rc c))) \<noteq> None"
  shows "cl_TaskRuns c @ new_TaskRuns rc env c \<noteq> []"
proof (cases "cl_TaskRuns c = []")
  case True
  let ?env = "cluster_env env c" and ?run = "worked_Run rc c"
  note wf = worked_facts(2) [OF inv(1), of rc]
  have l: "listed ?env ?run = Inr []"
    using listed_cache [OF inv(2) worked_facts(4) [OF inv(1)]] inv(2) True by (simp add: inv_owned_def)
  have d: "tgs_TaskRun (decoded ?env ?run) = None"
  proof (cases "rs_ExtraFields (run_Status ?run) = []")
    case False
    then obtain st where st: "rs_ExtraFields (run_Status ?run) = enc st" "tgs_TaskRun st = None"
      using version_ok_run(1) [OF inv(1)] True by (auto simp: version_ok_def)
    show ?thesis using recorded_decoded [where enc = enc and env = ?env and run = ?run and st = st] env st by simp
  qed (simp add: decoded_def DecodeExtraFields_def empty_run_status_def)
  obtain meta spec tr where c: "taskgroup_of ?env ?run = Inr (meta, spec)" "valid_spec spec"
    "create_result ?env ?run meta spec = Inr tr"
    using r d l by (cases ?env ?run rule: reconcile_branches)
      (auto simp: recorded_def Let_def storeTaskGroupSpec_def split: sum.splits if_splits)
  then obtain ts where ts: "wanted_spec ?env ?run spec = Inr ts" "e_createTaskRun env (wanted_TaskRun ?env ?run meta ts) = Inr tr"
    by (auto simp: create_result_def split: sum.splits)
  have "CreatedTaskRun (wanted_TaskRun ?env ?run meta ts) \<in> set (st_Effects (final ?env ?run))"
    unfolding created_iff [OF wf] using a d l c(1,2) ts(1) by blast
  from accepted_nonempty [OF this ts(2)] show ?thesis by simp
qed simp

lemma reconcile_versions:
  assumes inv: "inv_versions enc c" "inv_owned c" and env: "codec_env enc env" and rc: "client_ok rc c"
  shows "inv_versions enc (after_reconcile rc env c)"
proof -
  let ?env = "cluster_env env c" and ?p = "worked_Run rc c" and ?c = "after_reconcile rc env c"
  note w = worked_facts [OF inv(1)] and f = after_reconcile_frame [OF inv(1) rc, of env]
  have codec: "codec_env enc ?env" using env by simp
  have old: "list_all (version_ok enc (cl_Run ?c) (cl_TaskRuns ?c)) (cl_RunCache c # cl_Watch c)"
    using inv(1) version_ok_mono [of enc "cl_Run c" "cl_TaskRuns c" _ "cl_Run ?c" "cl_TaskRuns ?c"] f(3,5)
    by (auto simp: inv_versions_def list_all_iff)
  have extra: "version_ok enc (cl_Run ?c) (cl_TaskRuns ?c) ((cl_Run c)\<lparr>run_Status := worked_status rc env c\<rparr>)"
  proof -
    have s: "same_Run (cl_Run ?c) (cl_Run c)" using f(5) by (simp add: same_Run_def)
    have "rs_ExtraFields (worked_status rc env c) = [] \<or>
      (\<exists>st. rs_ExtraFields (worked_status rc env c) = enc st \<and> (tgs_TaskRun st \<noteq> None \<longrightarrow> cl_TaskRuns ?c \<noteq> []))"
    proof (cases "active ?p")
      case True
      then show ?thesis
        using final_ExtraFields [OF w(2) True codec] recorded_exists [OF inv env True]
        unfolding reconciled_status(3) [OF w(1)] f(3) by blast
    next
      case False
      then show ?thesis
        using inactive_extra [OF w(2) False, of ?env] version_ok_run(1) [OF inv(1)]
        unfolding reconciled_status(3) [OF w(1)] f(3) by (auto simp: version_ok_def)
    qed
    then show ?thesis using s reconciled_status(1) [OF w(1)] by (simp add: version_ok_def)
  qed
  have rest: "single_ref (cl_Run ?c)" "key_wf (run_key ?c)" "om_DeletionTimestamp (run_Meta (cl_Run ?c)) = None"
    using inv(1) f(5) same_Run_refs(2) [OF f(5)] same_Run_key [OF f(5)] by (simp_all add: inv_versions_def same_Run_def)
  show ?thesis
  proof (cases rule: after_reconcile_cases [OF inv(1) rc, of env, case_names unwritten written])
    case unwritten
    then show ?thesis using old rest inv(1) f(1) by (simp add: inv_versions_def)
  next
    case written
    then show ?thesis using old extra rest f(1) by (simp add: inv_versions_def)
  qed
qed

lemma reconcile_owned:
  assumes "inv_versions enc c" "inv_owned c" "server_ok env" "client_ok rc c"
  shows "inv_owned (after_reconcile rc env c)"
proof -
  note f = after_reconcile_frame [OF assms(1,4), of env]
  show ?thesis
    using new_TaskRuns_owned(2) [OF assms(1,3), of rc] assms(2)
    by (auto simp: inv_owned_def f(2,3) owned_same_Run [OF f(5)] list_all_iff)
qed

lemma reconcile_TaskRuns:
  assumes inv: "inv_versions enc c" "inv_TaskRuns enc c" and env: "codec_env enc env" "server_ok env"
    and rc: "client_ok rc c" and sees: "sees_own_writes c"
  shows "inv_TaskRuns enc (after_reconcile rc env c)"
proof -
  let ?c = "after_reconcile rc env c" and ?new = "new_TaskRuns rc env c"
  note w = worked_facts [OF inv(1)] and f = after_reconcile_frame [OF inv(1) rc, of env]
  note o = new_TaskRuns_owned [OF inv(1) env(2), of rc]
  have codec: "codec_env enc (cluster_env env c)" using env by simp
  have one: "length (cl_TaskRuns ?c) \<le> 1"
    using no_second_TaskRun [OF inv env(1) sees, of rc] o(1) inv(2) by (cases "cl_TaskRuns c") (auto simp: f(3) inv_TaskRuns_def inv_owned_def)
  have own: "list_all (owned (cl_Run ?c)) (cl_TaskRuns ?c @ cl_Cache ?c)"
    using o(2) inv(2) by (auto simp: f(2,3) inv_TaskRuns_def inv_owned_def owned_same_Run [OF f(5)] list_all_iff)
  have kept: "TaskRun_recorded enc (reconciled rc (cluster_env env c) (cl_RunCache c)) \<or> cl_Cache c \<noteq> []"
    if "cl_TaskRuns ?c \<noteq> []"
  proof (cases "cl_Cache c")
    case Nil
    then have "TaskRun_recorded enc (cl_RunCache c) \<or> ?new \<noteq> []"
      using that inv(2) sees by (auto simp: f(3) inv_TaskRuns_def inv_owned_def sees_own_writes_def TaskRun_recorded_def)
    then have "TaskRun_recorded enc (reconciled rc (cluster_env env c) (cl_RunCache c))"
      by (intro reconciled_recorded [OF w(1) codec]) simp
    then show ?thesis by simp
  qed simp
  have known: "cl_TaskRuns ?c \<noteq> [] \<longrightarrow> TaskRun_recorded enc (cl_Run ?c) \<or> cl_Cache ?c \<noteq> [] \<or> cl_Lost ?c"
  proof (cases rule: after_reconcile_cases [OF inv(1) rc, of env, case_names unwritten written])
    case unwritten
    then show ?thesis using inv(2) by (auto simp: inv_TaskRuns_def inv_owned_def f(2,3))
  next
    case written
    then show ?thesis using kept by (auto simp: TaskRun_recorded_def f(2))
  qed
  show ?thesis using one own known inv(2) by (simp add: inv_TaskRuns_def inv_owned_def f(2,3))
qed

text \<open>A reconcile that leaves the Run open has found its TaskRun running or made one.\<close>

lemma worked_open:
  assumes inv: "inv_versions enc c" "inv_TaskRuns enc c" and env: "codec_env enc env"
    and open_Run: "\<not> Run_IsDone (reconciled rc (cluster_env env c) (cl_RunCache c))"
  shows "cl_TaskRuns c @ new_TaskRuns rc env c \<noteq> []" "list_all (\<lambda>tr. \<not> TaskRun_IsDone tr) (cl_Cache c)"
proof -
  let ?env = "cluster_env env c" and ?p = "worked_Run rc c"
  note w = worked_facts [OF inv(1)]
  have o: "inv_owned c" using inv(2) by (simp add: inv_TaskRuns_def)
  have ref: "references_TaskGroup ?p"
    using inv(1) same_Run_refs(1) [OF w(4)] by (simp add: inv_versions_def single_ref_def)
  have u: "\<not> Run_IsDone (st_Run (final ?env ?p))" using open_Run by (simp add: reconciled_status(4) [OF w(1)])
  then have a: "active ?p" using done_stays [OF w(2)] ref by (auto simp: active_def)
  have a1: "active (st_Run (final ?env ?p))" using u ref by (simp add: active_def final_references [OF w(2) a])
  have data: "e_encodeStatus ?env (recorded ?env ?p (decoded ?env ?p)) = Inr (enc (recorded ?env ?p (decoded ?env ?p)))"
    using env by (simp add: codec_env_def cluster_env_def)
  note s = still_active(2,3) [OF w(2) a data a1] and l = listed_cache [OF o w(4), of env]
  show "cl_TaskRuns c @ new_TaskRuns rc env c \<noteq> []"
  proof (cases "cl_Cache c")
    case Nil
    then show ?thesis using s(1) l recorded_exists [OF inv(1) o env a] by simp
  qed (use inv(2) in \<open>auto simp: inv_TaskRuns_def inv_owned_def\<close>)
  have "length (cl_Cache c) \<le> 1" using inv(2) by (auto simp: inv_TaskRuns_def inv_owned_def)
  then consider "cl_Cache c = []" | tr where "cl_Cache c = [tr]" by (cases "cl_Cache c") auto
  then show "list_all (\<lambda>tr. \<not> TaskRun_IsDone tr) (cl_Cache c)" by cases (use s(2) l in auto)
qed

lemma reconcile_wake:
  assumes inv: "inv_versions enc c" "inv_TaskRuns enc c" and env: "codec_env enc env" and rc: "client_ok rc c"
  shows "inv_wake (after_reconcile rc env c)"
proof (cases "run_key c \<in> cl_Queue (after_reconcile rc env c) \<or> cl_Watch (after_reconcile rc env c) \<noteq> []")
  case True
  then show ?thesis using same_Run_key [OF after_reconcile_frame(5) [OF inv(1) rc]] by (auto simp: inv_wake_def)
next
  case False
  let ?env = "cluster_env env c" and ?d = "reconciled rc (cluster_env env c) (cl_RunCache c)" and ?c = "after_reconcile rc env c"
  note w = worked_facts [OF inv(1)] and f = after_reconcile_frame [OF inv(1) rc, of env]
  have unwritten: "cl_Run ?c = cl_Run c" "cl_Watch c = []"
    using False by (cases rule: after_reconcile_cases [OF inv(1) rc, of env]; simp)+
  then have run: "cl_RunCache c = cl_Run c" using inv(1) by (simp add: inv_versions_def)
  have k: "key_wf (run_key c)" and t: "api_errors_transient rc" using inv(1) rc by (simp_all add: inv_versions_def client_ok_def)
  have out: "run_key c \<notin> snd (processNextWorkItem rc ?env (run_key c) (cl_Queue c))" using False f(4) by simp
  have "oc_Accepted (fst (processNextWorkItem rc ?env (run_key c) (cl_Queue c))) = None"
    using False by (auto simp: after_reconcile_def case_prod_unfold Let_def split: if_splits)
  with worker_lets_go [OF k to_reconcile_cluster [OF inv(1) rc] t out]
  obtain r where r: "r = cl_RunCache c \<or> (\<exists>j. rc_Get rc j = Inr r)" "status_DeepEqual (run_Status r) (run_Status ?d)"
    by auto
  then have "run_Status r = run_Status (cl_Run c)" using run rc by (auto simp: client_ok_def)
  with r(2) have e: "status_DeepEqual (run_Status (cl_Run c)) (run_Status ?d)" by simp
  show ?thesis
  proof (cases "Run_IsDone ?d")
    case True
    then have "run_settled (cl_Run c)"
      using DeepEqual_facts(2,4) [OF e] reconciled_status(2) [OF w(1), of rc ?env] by (simp add: run_settled_def run)
    then show ?thesis by (simp add: inv_wake_def unwritten(1))
  next
    case False
    from worked_open [OF inv env this] show ?thesis by (simp add: inv_wake_def f(2,3))
  qed
qed

lemma reconcile_inv:
  assumes "cluster_inv enc c" "codec_env enc env" "server_ok env" "client_ok rc c" "sees_own_writes c"
  shows "cluster_inv enc (after_reconcile rc env c)"
proof -
  have inv: "inv_versions enc c" "inv_TaskRuns enc c" "inv_owned c" using assms(1) by (simp_all add: cluster_inv_def inv_TaskRuns_def)
  show ?thesis
    using reconcile_versions [OF inv(1,3) assms(2,4)] reconcile_TaskRuns [OF inv(1,2) assms(2-5)] reconcile_wake [OF inv(1,2) assms(2,4)]
    by (simp add: cluster_inv_def)
qed

section \<open>The other steps keep the invariant\<close>

lemma edit_keeps:
  assumes "inv_versions enc c" "inv_owned c" "same_Run (cl_Run c) run'" "run_Status run' = run_Status (cl_Run c)"
  shows "inv_versions enc (after_edit run' c)" "inv_owned (after_edit run' c)"
proof -
  note s = same_Run_refs [OF assms(3)] same_Run_key [OF assms(3)] owned_same_Run [OF assms(3)]
  have "list_all (version_ok enc run' (cl_TaskRuns c)) (cl_RunCache c # cl_Watch c)"
    using assms(1) version_ok_mono [OF _ assms(3), of enc "cl_TaskRuns c" _ "cl_TaskRuns c"] by (auto simp: inv_versions_def list_all_iff)
  moreover have "version_ok enc run' (cl_TaskRuns c) run'"
    using version_ok_run(2) [OF assms(1)] assms(4) by (simp add: version_ok_def)
  ultimately show "inv_versions enc (after_edit run' c)"
    using assms(1,3) s(2,3) by (simp add: inv_versions_def after_edit_def same_Run_def)
  show "inv_owned (after_edit run' c)" using assms(2) s(4) by (simp add: inv_owned_def after_edit_def list_all_iff)
qed

lemma edit_inv:
  assumes "cluster_inv enc c" "same_Run (cl_Run c) run'" "run_Status run' = run_Status (cl_Run c)"
  shows "cluster_inv enc (after_edit run' c)"
  using assms edit_keeps [of enc c run']
  by (simp add: cluster_inv_def inv_TaskRuns_def inv_wake_def TaskRun_recorded_def) (simp add: after_edit_def)

lemma progress_keeps:
  assumes "inv_versions enc c" "inv_owned c" "i < length (cl_TaskRuns c)" "same_TaskRun (cl_TaskRuns c ! i) tr"
  shows "inv_versions enc (c\<lparr>cl_TaskRuns := (cl_TaskRuns c)[i := tr]\<rparr>)" "inv_owned (c\<lparr>cl_TaskRuns := (cl_TaskRuns c)[i := tr]\<rparr>)"
proof -
  have o: "list_all (owned (cl_Run c)) (cl_TaskRuns c)" using assms(2) by (simp add: inv_owned_def)
  then have "owned (cl_Run c) (cl_TaskRuns c ! i)" using assms(3) by (simp add: list_all_length)
  from owned_same_TaskRun [OF assms(4) this] o have "list_all (owned (cl_Run c)) ((cl_TaskRuns c)[i := tr])"
    by (auto simp: list_all_iff dest!: set_update_subset_insert [THEN subsetD])
  then show "inv_owned (c\<lparr>cl_TaskRuns := (cl_TaskRuns c)[i := tr]\<rparr>)" using assms(2) by (simp add: inv_owned_def)
  have "version_ok enc (cl_Run c) ((cl_TaskRuns c)[i := tr]) = version_ok enc (cl_Run c) (cl_TaskRuns c)"
    by (simp add: version_ok_def fun_eq_iff)
  then show "inv_versions enc (c\<lparr>cl_TaskRuns := (cl_TaskRuns c)[i := tr]\<rparr>)" using assms(1) by (simp add: inv_versions_def)
qed

lemma progress_inv:
  assumes "cluster_inv enc c" "i < length (cl_TaskRuns c)" "same_TaskRun (cl_TaskRuns c ! i) tr"
  shows "cluster_inv enc (c\<lparr>cl_TaskRuns := (cl_TaskRuns c)[i := tr]\<rparr>)"
  using assms progress_keeps [of enc c i tr] by (simp add: cluster_inv_def inv_TaskRuns_def inv_wake_def)

lemma delivery_keeps:
  assumes "inv_versions enc c" "inv_owned c" "cl_Watch c \<noteq> []"
  shows "inv_versions enc (after_delivery c)" "inv_owned (after_delivery c)"
  using assms by (auto simp: inv_versions_def inv_owned_def after_delivery_def split: list.splits)

lemma delivery_inv:
  assumes "cluster_inv enc c" "cl_Watch c \<noteq> []"
  shows "cluster_inv enc (after_delivery c)"
proof -
  obtain run runs where w: "cl_Watch c = run # runs" using assms(2) by (cases "cl_Watch c") auto
  have v: "version_ok enc (cl_Run c) (cl_TaskRuns c) run" "version_ok enc (cl_Run c) (cl_TaskRuns c) (cl_RunCache c)"
    "references_TaskGroup (cl_Run c)"
    using assms(1) w by (simp_all add: cluster_inv_def inv_versions_def single_ref_def)
  then have "references_TaskGroup run" "references_TaskGroup (cl_RunCache c)" "key_of (run_Meta run) = run_key c"
    using same_Run_refs(1) same_Run_key by (auto simp: version_ok_def)
  then have "run_key c \<in> cl_Queue (after_delivery c)"
    using Run_event_enqueues(1) by (simp add: after_delivery_def w)
  then show ?thesis
    using assms w delivery_keeps [of enc c]
    by (simp add: cluster_inv_def inv_TaskRuns_def inv_wake_def) (simp add: after_delivery_def)
qed

lemma sync_keeps:
  assumes "inv_versions enc c" "inv_owned c" "i < length (cl_TaskRuns c)" "i \<le> length (cl_Cache c)"
  shows "inv_versions enc (after_sync i c)" "inv_owned (after_sync i c)"
proof -
  have f: "cl_Run (after_sync i c) = cl_Run c" "cl_RunCache (after_sync i c) = cl_RunCache c" "cl_Watch (after_sync i c) = cl_Watch c"
    "cl_TaskRuns (after_sync i c) = cl_TaskRuns c"
    by (simp_all add: after_sync_def Let_def)
  then show "inv_versions enc (after_sync i c)" using assms(1) by (simp only: inv_versions_def)
  have "owned (cl_Run c) (cl_TaskRuns c ! i)" using assms(2,3) by (simp add: inv_owned_def list_all_iff)
  then show "inv_owned (after_sync i c)"
    using assms by (auto simp: inv_owned_def after_sync_def Let_def list_all_iff dest!: set_update_subset_insert [THEN subsetD])
qed

lemma after_sync_cluster:
  assumes "cluster_inv enc c" "i < length (cl_TaskRuns c)" "i \<le> length (cl_Cache c)"
  shows "after_sync i c = c\<lparr>cl_Cache := cl_TaskRuns c, cl_Queue := insert (run_key c) (cl_Queue c)\<rparr>"
proof -
  let ?run = "cl_RunCache c"
  have inv: "length (cl_TaskRuns c) \<le> 1" "length (cl_Cache c) \<le> length (cl_TaskRuns c)"
    "list_all (owned (cl_Run c)) (cl_TaskRuns c)" "list_all (owned (cl_Run c)) (cl_Cache c)"
    "single_ref (cl_Run c)" "same_Run (cl_Run c) ?run"
    using assms(1) by (simp_all add: cluster_inv_def inv_TaskRuns_def inv_owned_def inv_versions_def version_ok_def)
  note s = same_Run_refs(2) [OF inv(6)] same_Run_key [OF inv(6)] owned_same_Run [OF inv(6)]
  have ref: "single_ref ?run" using inv(5) s(1) by simp
  obtain tr where tr: "cl_TaskRuns c = [tr]" using inv(1) assms(2) by (cases "cl_TaskRuns c") auto
  then have i: "i = 0" and o: "owned ?run tr" using assms(2) inv(3) s(3) by simp_all
  show ?thesis
  proof (cases "cl_Cache c")
    case Nil
    then show ?thesis using TaskRun_event_enqueues(1) [OF ref o o] s(2) by (simp add: after_sync_def tr i)
  next
    case (Cons old olds)
    then have c: "cl_Cache c = [old]" "owned ?run old" using inv(2,4) s(3) tr by (cases olds; simp)+
    then show ?thesis using TaskRun_event_enqueues(2) [OF ref o c(2)] s(2) by (simp add: after_sync_def tr i)
  qed
qed

lemma sync_inv:
  assumes "cluster_inv enc c" "i < length (cl_TaskRuns c)" "i \<le> length (cl_Cache c)"
  shows "cluster_inv enc (after_sync i c)"
  using assms(1) unfolding after_sync_cluster [OF assms]
  by (auto simp: cluster_inv_def inv_versions_def inv_TaskRuns_def inv_owned_def inv_wake_def)

lemma cluster_inv_step: "cluster_step enc sees_own_writes c c' \<Longrightarrow> cluster_inv enc c \<Longrightarrow> cluster_inv enc c'"
  by (induction rule: cluster_step.induct) (simp_all add: reconcile_inv edit_inv progress_inv delivery_inv sync_inv)

lemma cluster_inv_steps: "cluster_steps enc c c' \<Longrightarrow> cluster_inv enc c \<Longrightarrow> cluster_inv enc c'"
  by (induction rule: rtranclp_induct) (auto intro: cluster_inv_step)

text \<open>What any controller keeps, however late its informers are.\<close>

lemma any_keeps:
  assumes "cluster_step enc may c c'" "inv_versions enc c" "inv_owned c"
  shows "inv_versions enc c' \<and> inv_owned c'"
  using assms
  by (induction rule: cluster_step.induct)
    (simp_all add: reconcile_versions reconcile_owned edit_keeps progress_keeps delivery_keeps sync_keeps)

lemma any_keeps_steps: "(any_step enc)\<^sup>*\<^sup>* c c' \<Longrightarrow> inv_versions enc c \<Longrightarrow> inv_owned c \<Longrightarrow> inv_versions enc c' \<and> inv_owned c'"
  by (induction rule: rtranclp_induct) (auto dest: any_keeps)

definition new_Run :: "Run \<Rightarrow> bool" where
  "new_Run run \<longleftrightarrow> status_wf (run_Status run) \<and> single_ref run \<and> rs_ExtraFields (run_Status run) = [] \<and>
     key_wf (key_of (run_Meta run)) \<and> om_DeletionTimestamp (run_Meta run) = None"

lemma cluster_inv_new: "new_Run run \<Longrightarrow> cluster_inv enc (new_cluster run)"
  using Run_event_enqueues(2) [of run run run]
  by (simp add: cluster_inv_def inv_versions_def version_ok_def inv_TaskRuns_def inv_owned_def inv_wake_def new_cluster_def new_Run_def single_ref_def)

section \<open>Properties\<close>

text \<open>C3. The controller never loses a wake-up. In every state that the cluster reaches from a new Run, the Run is
  settled (done, with its generation observed), or its key is in the work queue, or a version of it is still to be
  delivered (and will put the key there), or it has exactly one TaskRun, which is still running or whose end the
  informer has yet to deliver.\<close>

theorem Run_never_stuck:
  assumes "new_Run run" "cluster_steps enc (new_cluster run) c"
  shows "run_settled (cl_Run c) \<or> run_key c \<in> cl_Queue c \<or> cl_Watch c \<noteq> [] \<or>
    (\<exists>tr. cl_TaskRuns c = [tr] \<and> \<not> (TaskRun_IsDone tr \<and> cl_Cache c = [tr]))"
proof -
  have i: "cluster_inv enc c" by (rule cluster_inv_steps [OF assms(2) cluster_inv_new [OF assms(1)]])
  show ?thesis
  proof (cases "run_settled (cl_Run c) \<or> run_key c \<in> cl_Queue c \<or> cl_Watch c \<noteq> []")
    case False
    with i have "cl_TaskRuns c \<noteq> []" "length (cl_TaskRuns c) \<le> 1" "list_all (\<lambda>tr. \<not> TaskRun_IsDone tr) (cl_Cache c)"
      by (simp_all add: cluster_inv_def inv_wake_def inv_TaskRuns_def)
    then show ?thesis by (cases "cl_TaskRuns c") auto
  qed blast
qed

text \<open>A worker whose reads are those of the cluster and whose writes are accepted or not.\<close>

definition ex_client :: "bool \<Rightarrow> Cluster \<Rightarrow> RunClient" where
  "ex_client writes c = (ex_RunClient (cl_RunCache c))\<lparr>rc_Get := \<lambda>k. Inr (cl_Run c),
     rc_UpdateStatus := \<lambda>k r. if writes then None else Some (Errorf ''unavailable'')\<rparr>"

lemma ex_client_ok:
  "client_ok (ex_client writes c) c"
  by (simp add: client_ok_def ex_client_def ex_RunClient_def api_errors_transient_def)

lemma ex_new_Run: "new_Run ex_run"
proof -
  have "key_wf (key_of (run_Meta ex_run))" "rs_ExtraFields (run_Status ex_run) = []" "om_DeletionTimestamp (run_Meta ex_run) = None"
    by (simp_all add: key_wf_def key_of_def ex_run_def empty_RunStatus_def empty_meta_def)
  then show ?thesis by (simp add: new_Run_def single_ref_def) (simp add: ex_run_def)
qed

lemma ex_server: "server_ok (ex_life trs)"
  by (simp add: server_ok_def same_TaskRun_def ex_life_def ex_env_def)

abbreviation ex_worked_cluster :: "bool \<Rightarrow> Cluster" where
  "ex_worked_cluster writes \<equiv> after_reconcile (ex_client writes (new_cluster ex_run)) (ex_life []) (new_cluster ex_run)"

lemma ex_cluster_step: "cluster_step ex_enc sees_own_writes (new_cluster ex_run) (ex_worked_cluster writes)"
proof -
  have "run_key (new_cluster ex_run) \<in> cl_Queue (new_cluster ex_run)"
    using Run_event_enqueues(2) [of ex_run ex_run ex_run] by (simp add: new_cluster_def)
  then show ?thesis
    by (intro cluster_step.Reconcile ex_life_codec ex_server ex_client_ok) (simp_all add: sees_own_writes_def new_cluster_def)
qed

theorem Run_never_stuck_witness:
  "run_settled (cl_Run (ex_worked_cluster True)) \<or> run_key (ex_worked_cluster True) \<in> cl_Queue (ex_worked_cluster True) \<or>
    cl_Watch (ex_worked_cluster True) \<noteq> [] \<or>
    (\<exists>tr. cl_TaskRuns (ex_worked_cluster True) = [tr] \<and> \<not> (TaskRun_IsDone tr \<and> cl_Cache (ex_worked_cluster True) = [tr]))"
  using Run_never_stuck [OF ex_new_Run r_into_rtranclp, of ex_enc] ex_cluster_step by blast

text \<open>The informer delivers everything it has of the Run.\<close>

abbreviation delivered :: "Cluster \<Rightarrow> Cluster" where
  "delivered c \<equiv> (after_delivery ^^ length (cl_Watch c)) c"

abbreviation caught_up :: "Cluster \<Rightarrow> Cluster" where
  "caught_up c \<equiv> delivered (after_sync 0 c)"

lemma delivered_cluster:
  assumes "cluster_inv enc c"
  shows "cluster_steps enc c (delivered c) \<and> cluster_inv enc (delivered c) \<and> cl_Watch (delivered c) = [] \<and>
    cl_Run (delivered c) = cl_Run c \<and> cl_TaskRuns (delivered c) = cl_TaskRuns c \<and> cl_Cache (delivered c) = cl_Cache c \<and>
    cl_Queue c \<subseteq> cl_Queue (delivered c)"
  using assms
proof (induction "length (cl_Watch c)" arbitrary: c)
  case (Suc n)
  let ?c = "after_delivery c"
  have w: "cl_Watch c \<noteq> []" using Suc(2) by auto
  have f: "n = length (cl_Watch ?c)" "cl_Run ?c = cl_Run c" "cl_TaskRuns ?c = cl_TaskRuns c" "cl_Cache ?c = cl_Cache c"
    "cl_Queue c \<subseteq> cl_Queue ?c"
    using Suc(2) by (auto simp: after_delivery_def split: list.splits)
  have s: "cluster_step enc sees_own_writes c ?c" by (rule cluster_step.Deliver [OF w])
  have d: "delivered c = delivered ?c" by (simp only: f(1) [symmetric] Suc(2) [symmetric] funpow_Suc_right o_apply)
  from Suc(1) [OF f(1) delivery_inv [OF Suc(3) w]] f(2-5) s show ?case
    unfolding d by (auto intro: converse_rtranclp_into_rtranclp)
qed simp

text \<open>C22. A TaskRun that ends, ends its Run: from every state that the cluster reaches from a new Run and in which
  the TaskRun is done, delivering the TaskRun and the Run to the controller and one reconcile, whose status is
  accepted, lead to a state in which the Run is done.\<close>

theorem finished_TaskRun_finishes_Run:
  assumes "new_Run run" "cluster_steps enc (new_cluster run) c"
    and "cl_TaskRuns c = [tr]" "TaskRun_IsDone tr" "codec_env enc env" "server_ok env"
    and "client_ok rc (caught_up c)" "\<And>k r. rc_UpdateStatus rc k r = None"
  shows "cluster_steps enc c (after_reconcile rc env (caught_up c)) \<and>
    Run_IsDone (cl_Run (after_reconcile rc env (caught_up c)))"
proof -
  let ?c1 = "caught_up c"
  have i: "cluster_inv enc c" by (rule cluster_inv_steps [OF assms(2) cluster_inv_new [OF assms(1)]])
  let ?c = "after_sync 0 c" and ?d = "reconciled rc (cluster_env env ?c1) (cl_RunCache ?c1)"
  have s: "?c = c\<lparr>cl_Cache := [tr], cl_Queue := insert (run_key c) (cl_Queue c)\<rparr>"
    using after_sync_cluster [OF i, of 0] assms(3) by simp
  have sync: "cluster_step enc sees_own_writes c ?c" by (rule cluster_step.Sync) (simp_all add: assms(3))
  note d = delivered_cluster [OF cluster_inv_step [OF sync i]]
  have inv: "inv_versions enc ?c1" "inv_TaskRuns enc ?c1" using d by (simp_all add: cluster_inv_def)
  have c1s: "cl_Cache ?c1 = [tr]" "cl_TaskRuns ?c1 = [tr]" "cl_RunCache ?c1 = cl_Run ?c1" "run_key ?c1 \<in> cl_Queue ?c1"
    using d inv(1) assms(3) by (auto simp: s inv_versions_def)
  have rec: "cluster_step enc sees_own_writes ?c1 (after_reconcile rc env ?c1)"
    by (rule cluster_step.Reconcile [OF assms(5-7)]) (simp_all add: sees_own_writes_def c1s)
  have steps: "cluster_steps enc c (after_reconcile rc env ?c1)" using sync d rec by (meson converse_rtranclp_into_rtranclp rtranclp.rtrancl_into_rtrancl)
  have done_d: "Run_IsDone ?d"
    using worked_open(2) [OF inv assms(5), of rc] assms(4) c1s(1) by auto
  have k: "key_wf (run_key ?c1)" using inv(1) by (simp add: inv_versions_def)
  have "status_DeepEqual (run_Status (cl_Run (after_reconcile rc env ?c1))) (run_Status ?d)"
    using work_writes [OF k to_reconcile_cluster [OF inv(1) assms(7)] assms(8), of "cluster_env env ?c1"]
    by (simp add: after_reconcile_def processNextWorkItem_def Let_def c1s(3))
  from DeepEqual_done [OF this] done_d steps show ?thesis by simp
qed

text \<open>The TaskRun that the example reconcile creates, ended by the TaskRun controller.\<close>

definition ended :: "TaskRun \<Rightarrow> TaskRun" where
  "ended tr = tr\<lparr>tr_Status := tr_Status (ex_taskrun ConditionTrue)\<rparr>"

abbreviation ex_ended :: Cluster where
  "ex_ended \<equiv> ex_worked_cluster True\<lparr>cl_TaskRuns := [ended (hd (cl_TaskRuns (ex_worked_cluster True)))]\<rparr>"

lemma ex_cluster_one:
  "length (cl_TaskRuns (ex_worked_cluster True)) = 1" "length (cl_TaskRuns (ex_worked_cluster False)) = 1"
  by code_simp+

theorem finished_TaskRun_finishes_Run_witness:
  "Run_IsDone (cl_Run (after_reconcile (ex_client True (caught_up ex_ended)) (ex_life []) (caught_up ex_ended)))"
proof -
  obtain tr where tr: "cl_TaskRuns (ex_worked_cluster True) = [tr]"
    using ex_cluster_one(1) by (auto simp: length_Suc_conv)
  have "cluster_step ex_enc sees_own_writes (ex_worked_cluster True)
      (ex_worked_cluster True\<lparr>cl_TaskRuns := (cl_TaskRuns (ex_worked_cluster True))[0 := ended tr]\<rparr>)"
    by (rule cluster_step.Progress) (simp_all add: tr ended_def same_TaskRun_def)
  then have "cluster_steps ex_enc (new_cluster ex_run) ex_ended"
    using ex_cluster_step [of True] by (simp add: tr)
  moreover have "TaskRun_IsDone (ended tr)"
    using ex_taskrun_done(1) by (simp add: ended_def TaskRun_IsDone_def)
  moreover have "rc_UpdateStatus (ex_client True c) k r = None" for c k r by (simp add: ex_client_def)
  ultimately show ?thesis
    using finished_TaskRun_finishes_Run [OF ex_new_Run, of ex_enc ex_ended "ended tr" "ex_life []" "ex_client True (caught_up ex_ended)"]
      ex_life_codec ex_server ex_client_ok
    by (simp add: tr)
qed

end
