(* ===== verification/Lost_Writes.thy ===== *)
theory Lost_Writes
  imports Cluster
begin

text \<open>
  Status writes that get lost, and informers that are late. The worker writes the status of the Run after
  \<open>ReconcileKind\<close> has returned; the write may fail, and the next reconcile then starts from the old status while the
  TaskRun that was created exists. \<open>updateTaskRunStatus\<close> lists the TaskRuns of the Run to find it. In the steps of
  \<open>Cluster\<close> any reconcile may lose its status, and may work on an old version of the Run; \<open>sees_own_writes\<close> says what
  the caches must know for the Run not to get a second TaskRun, and the examples show that it is needed. Without it
  (\<open>any_step\<close>) it still holds which reconciles create a TaskRun, and that a Run stays done once the informer has
  delivered that it is.
\<close>

text \<open>C13. Lost and late status writes do no harm as long as a cache catches up before the Run is reconciled again: in
  every state that the cluster reaches from a new Run, with any of the reconciles losing its status, with edits of the
  Run and progress of the TaskRun in between, the API server has at most one TaskRun for the Run, which belongs to
  it.\<close>

theorem lost_writes_one_TaskRun:
  assumes "new_Run run" "cluster_steps enc (new_cluster run) c"
  shows "length (cl_TaskRuns c) \<le> 1 \<and> list_all (owned (cl_Run c)) (cl_TaskRuns c)"
  using cluster_inv_steps [OF assms(2) cluster_inv_new [OF assms(1)]] by (simp add: cluster_inv_def inv_TaskRuns_def inv_owned_def)

text \<open>A reconcile whose status is lost. Its key is back in the queue, the TaskRun is delivered, and the next reconcile
  finds it.\<close>

abbreviation ex_lost :: Cluster where
  "ex_lost \<equiv> ex_worked_cluster False"


abbreviation ex_recovered :: Cluster where
  "ex_recovered \<equiv> after_reconcile (ex_client True (after_sync 0 ex_lost)) (ex_life []) (after_sync 0 ex_lost)"

lemma ex_recovered_steps: "cluster_steps ex_enc (new_cluster ex_run) ex_recovered"
proof -
  have lost: "cluster_steps ex_enc (new_cluster ex_run) ex_lost" using ex_cluster_step by (rule r_into_rtranclp)
  have i: "cluster_inv ex_enc ex_lost" by (rule cluster_inv_steps [OF lost cluster_inv_new [OF ex_new_Run]])
  have n: "0 < length (cl_TaskRuns ex_lost)" using ex_cluster_one(2) by simp
  have sync: "cluster_step ex_enc sees_own_writes ex_lost (after_sync 0 ex_lost)" by (rule cluster_step.Sync) (use n in simp_all)
  have s: "after_sync 0 ex_lost = ex_lost\<lparr>cl_Cache := cl_TaskRuns ex_lost, cl_Queue := insert (run_key ex_lost) (cl_Queue ex_lost)\<rparr>"
    using n by (intro after_sync_cluster [OF i]) simp_all
  have "cluster_step ex_enc sees_own_writes (after_sync 0 ex_lost) ex_recovered"
    by (rule cluster_step.Reconcile [OF ex_life_codec ex_server ex_client_ok]) (simp_all add: s sees_own_writes_def)
  then show ?thesis using lost sync by (meson rtranclp.rtrancl_into_rtrancl)
qed

theorem lost_writes_one_TaskRun_witness:
  "length (cl_TaskRuns ex_recovered) \<le> 1 \<and> list_all (owned (cl_Run ex_recovered)) (cl_TaskRuns ex_recovered)"
  by (rule lost_writes_one_TaskRun [OF ex_new_Run ex_recovered_steps])


abbreviation ex_edited :: Cluster where
  "ex_edited \<equiv> after_edit ex_run (new_cluster ex_run)"

abbreviation ex_stale :: Cluster where
  "ex_stale \<equiv> after_delivery (after_reconcile (ex_client True ex_edited) (ex_life []) ex_edited)"

lemma late_status_duplicates:
  "run_key ex_stale \<in> cl_Queue ex_stale" "length (cl_TaskRuns ex_stale) = 1" "\<not> cl_Lost ex_stale"
  "length (cl_TaskRuns (after_reconcile (ex_client True ex_stale) (ex_life []) ex_stale)) = 2"
  by code_simp+

section \<open>Any controller\<close>

lemma any_new:
  assumes "new_Run run" "(any_step enc)\<^sup>*\<^sup>* (new_cluster run) c"
  shows "inv_versions enc c" "inv_owned c"
  using any_keeps_steps [OF assms(2)] cluster_inv_new [OF assms(1), of enc] by (simp_all add: cluster_inv_def inv_TaskRuns_def)




text \<open>The versions of the Run that are around are all settled, at its generation.\<close>

definition all_settled :: "Cluster \<Rightarrow> bool" where
  "all_settled c \<longleftrightarrow> list_all (\<lambda>r. run_settled r \<and> om_Generation (run_Meta r) = om_Generation (run_Meta (cl_Run c)))
     (cl_Run c # cl_RunCache c # cl_Watch c)"

lemma settled_reconcile:
  assumes inv: "inv_versions enc c" and rc: "client_ok rc c" and s: "all_settled c"
  shows "all_settled (after_reconcile rc env c)" "cl_TaskRuns (after_reconcile rc env c) = cl_TaskRuns c"
proof -
  let ?env = "cluster_env env c" and ?p = "worked_Run rc c" and ?st = "worked_status rc env c"
  note w = worked_facts [OF inv] and f = after_reconcile_frame [OF inv rc, of env]
  have c: "run_settled (cl_RunCache c)" "om_Generation (run_Meta (cl_RunCache c)) = om_Generation (run_Meta (cl_Run c))"
    using s by (simp_all add: all_settled_def)
  then have p: "Run_IsDone ?p" "\<not> active ?p" using Pre_done [OF w(1), of rc] by (simp_all add: run_settled_def active_def)
  have "new_TaskRuns rc env c = []"
    by (rule accepted_none) (rule inactive_no_creation [OF w(2) p(2)])
  then show "cl_TaskRuns (after_reconcile rc env c) = cl_TaskRuns c" using f(3) by simp
  have "Run_IsDone (reconciled rc ?env (cl_RunCache c))"
    using done_stays [OF w(2) p(1)] by (simp add: reconciled_status(4) [OF w(1)])
  then have d: "run_settled ((cl_Run c)\<lparr>run_Status := ?st\<rparr>)"
    using reconciled_status(2) [OF w(1), of rc ?env] c(2)
      Run_IsDone_cong [of "(cl_Run c)\<lparr>run_Status := ?st\<rparr>" "reconciled rc ?env (cl_RunCache c)"]
    by (simp add: run_settled_def)
  show "all_settled (after_reconcile rc env c)"
  proof (cases rule: after_reconcile_cases [OF inv rc, of env, case_names unwritten written])
    case unwritten
    then show ?thesis using s f(1) by (simp add: all_settled_def)
  next
    case written
    then show ?thesis using s f(1) d by (simp add: all_settled_def)
  qed
qed

lemma settled_step:
  assumes "any_step enc c c'" "inv_versions enc c" "all_settled c"
    and "om_Generation (run_Meta (cl_Run c')) = om_Generation (run_Meta (cl_Run c))"
  shows "all_settled c' \<and> length (cl_TaskRuns c') = length (cl_TaskRuns c)"
  using assms
proof (induction rule: cluster_step.induct)
  case (Reconcile env rc c)
  then show ?case using settled_reconcile [of enc c rc env] by simp
next
  case (Edit c run')
  then show ?case
    using Run_IsDone_cong [OF Edit(2)] by (simp add: all_settled_def after_edit_def run_settled_def)
next
  case (Deliver c)
  then show ?case by (auto simp: all_settled_def after_delivery_def split: list.splits)
qed (simp_all add: all_settled_def after_sync_def Let_def)

text \<open>C16. A Run that is done stays done, once the informer has delivered that it is. From a state in which the Run is done
  with its generation observed and no version of it is still to be delivered, any steps of any controller that leave the
  generation (the spec) of the Run alone, with status writes lost and informers late, lead to a state in which the Run
  is done, and create no TaskRun. (The rest of the cluster is as \<open>Cluster\<close> assumes; \<open>failed_Run_reopened\<close> below shows that
  the delivery is needed.)\<close>

theorem done_Run_stays_done:
  assumes "new_Run run" "(any_step enc)\<^sup>*\<^sup>* (new_cluster run) c"
    and "Run_IsDone (cl_Run c)" "rs_ObservedGeneration (run_Status (cl_Run c)) = om_Generation (run_Meta (cl_Run c))"
    and "cl_Watch c = []"
    and "(\<lambda>c c'. any_step enc c c' \<and> om_Generation (run_Meta (cl_Run c')) = om_Generation (run_Meta (cl_Run c)))\<^sup>*\<^sup>* c c'"
  shows "Run_IsDone (cl_Run c') \<and> length (cl_TaskRuns c') = length (cl_TaskRuns c)"
proof -
  note inv = any_new [OF assms(1,2)]
  have "all_settled c" using inv(1) assms(3-5) by (simp add: all_settled_def inv_versions_def run_settled_def)
  with assms(6) inv have "all_settled c' \<and> length (cl_TaskRuns c') = length (cl_TaskRuns c) \<and> inv_versions enc c' \<and> inv_owned c'"
  proof (induction rule: rtranclp_induct)
    case (step d d')
    then show ?case using settled_step [of enc d d'] any_keeps [of enc "\<lambda>c. True" d d'] by auto
  qed simp
  then show ?thesis by (simp add: all_settled_def run_settled_def)
qed

text \<open>A Run that fails because its TaskGroup cannot be fetched; its key is back in the queue.\<close>

abbreviation ex_no_group :: Env where
  "ex_no_group \<equiv> (ex_life [])\<lparr>e_getTaskGroup := \<lambda>ns n. Inl (Errorf ''timeout'')\<rparr>"

abbreviation ex_failed :: Cluster where
  "ex_failed \<equiv> after_reconcile (ex_client True (new_cluster ex_run)) ex_no_group (new_cluster ex_run)"

abbreviation ex_failed_seen :: Cluster where
  "ex_failed_seen \<equiv> after_delivery ex_failed"

lemma ex_failed_steps: "any_step ex_enc (new_cluster ex_run) ex_failed" "any_step ex_enc ex_failed ex_failed_seen"
proof -
  have e: "codec_env ex_enc ex_no_group" "server_ok ex_no_group"
    using ex_life_codec [of "[]"] ex_server [of "[]"] by (simp_all add: codec_env_def server_ok_def)
  have q: "run_key (new_cluster ex_run) \<in> cl_Queue (new_cluster ex_run)" and w: "cl_Watch ex_failed \<noteq> []" by code_simp+
  show "any_step ex_enc (new_cluster ex_run) ex_failed" by (rule cluster_step.Reconcile [OF e ex_client_ok TrueI q])
  show "any_step ex_enc ex_failed ex_failed_seen" by (rule cluster_step.Deliver [OF w])
qed

lemma ex_failed_facts:
  "Run_IsDone (cl_Run ex_failed_seen)" "rs_ObservedGeneration (run_Status (cl_Run ex_failed_seen)) = om_Generation (run_Meta (cl_Run ex_failed_seen))"
  "cl_Watch ex_failed_seen = []" "run_key ex_failed_seen \<in> cl_Queue ex_failed_seen"
  by code_simp+

abbreviation ex_failed_again :: Cluster where
  "ex_failed_again \<equiv> after_reconcile (ex_client True ex_failed_seen) (ex_life []) ex_failed_seen"

theorem done_Run_stays_done_witness:
  "Run_IsDone (cl_Run ex_failed_again) \<and> length (cl_TaskRuns ex_failed_again) = length (cl_TaskRuns ex_failed_seen)"
proof -
  have steps: "(any_step ex_enc)\<^sup>*\<^sup>* (new_cluster ex_run) ex_failed_seen"
    by (rule converse_rtranclp_into_rtranclp, rule ex_failed_steps(1)) (rule r_into_rtranclp, rule ex_failed_steps(2))
  have "any_step ex_enc ex_failed_seen ex_failed_again"
    using ex_failed_facts(4) by (intro cluster_step.Reconcile ex_life_codec ex_server ex_client_ok) simp_all
  moreover have "om_Generation (run_Meta (cl_Run ex_failed_again)) = om_Generation (run_Meta (cl_Run ex_failed_seen))"
    by (simp add: after_reconcile_def Let_def case_prod_unfold)
  ultimately have "(\<lambda>c c'. any_step ex_enc c c' \<and> om_Generation (run_Meta (cl_Run c')) = om_Generation (run_Meta (cl_Run c)))\<^sup>*\<^sup>*
      ex_failed_seen ex_failed_again"
    by (intro r_into_rtranclp conjI)
  from done_Run_stays_done [OF ex_new_Run steps ex_failed_facts(1-3) this] show ?thesis .
qed

text \<open>Until the status is delivered, the retry may open the Run again: it works on the version of the Run before the
  failure, and writes what it finds over the status that says the Run has failed.\<close>

lemma failed_Run_reopened:
  "Run_IsDone (cl_Run ex_failed)" "run_key ex_failed \<in> cl_Queue ex_failed"
  "\<not> Run_IsDone (cl_Run (after_reconcile (ex_client True ex_failed) (ex_life []) ex_failed))"
  "length (cl_TaskRuns (after_reconcile (ex_client True ex_failed) (ex_life []) ex_failed)) = 1"
  by code_simp+

end
