(* ===== verification/Reconcile_Events.thy ===== *)
theory Reconcile_Events
  imports Run_Settling
begin

text \<open>
  What a reconcile tells the world besides its TaskRuns: the Kubernetes events and cloud events it emits
  (\<open>events.Emit\<close> around \<open>reconcile\<close>), and when it patches labels and annotations of the Run.
\<close>

section \<open>Events and other effects\<close>

fun event :: "effect \<Rightarrow> bool" where
  "event (KubeEvent t r m) \<longleftrightarrow> True"
| "event CloudEvent \<longleftrightarrow> True"
| "event e \<longleftrightarrow> False"

abbreviation events_of :: "RState \<Rightarrow> effect list" where
  "events_of s \<equiv> filter event (st_Effects s)"

lemma task_write_no_event: "task_write e \<Longrightarrow> \<not> event e"
  by (cases e) (simp_all add: task_write_def)

lemma task_writes_no_events [simp]: "filter event (task_writes env run st) = []"
  using task_writes_are [of env run st] task_write_no_event unfolding filter_id_conv filter_empty_conv by blast

text \<open>What \<open>Emit\<close> adds.\<close>

definition emitted :: "Env \<Rightarrow> Condition option \<Rightarrow> Condition option \<Rightarrow> effect list" where
  "emitted env before after =
     st_Effects (Emit env before after \<lparr>st_Run = undefined, st_Status = undefined, st_Effects = []\<rparr>)"

lemma Emit_effects: "st_Effects (Emit env before after s) = st_Effects s @ emitted env before after"
  by (auto simp: emitted_def Emit_def sendKubernetesEvents_def Let_def split: option.splits)

lemma emitted_events [simp]: "filter event (emitted env before after) = emitted env before after"
  by (auto simp: emitted_def Emit_def sendKubernetesEvents_def Let_def split: option.splits)

lemma updateLabels_events [simp]: "events_of (snd (updateLabelsAndAnnotations env s)) = events_of s"
  by (auto simp: updateLabelsAndAnnotations_def Let_def split: sum.splits)

section \<open>The announcement of an outcome\<close>

text \<open>One event for a new condition, and a cloud event where a sink is configured.\<close>

definition announced ::
    "Env \<Rightarrow> (string \<times> string \<times> string) option \<Rightarrow> (string \<times> TaskGroupRunReason \<times> string) option \<Rightarrow> effect list" where
  "announced env before out =
     (case out of
        None \<Rightarrow> []
      | Some (st, re, msg) \<Rightarrow>
          (if st = ConditionTrue then [KubeEvent ''Normal'' ''Succeeded'' msg]
           else if st = ConditionFalse then [KubeEvent ''Warning'' ''Failed'' msg]
           else if st = ConditionUnknown
           then (if before = None then [KubeEvent ''Normal'' ''Started'' []]
                 else [KubeEvent ''Normal'' (reason_String re) msg])
           else []) @
          (if e_cloudEventsSink env \<noteq> [] then [CloudEvent] else []))"

lemma view_of_None: "view_of None = None"
  by (simp add: view_of_def)

lemma emitted_announced:
  assumes "view_of after = Some (st, reason_String re, msg)" "\<not> cond_semantic_eq before after"
  shows "emitted env before after = announced env (view_of before) (Some (st, re, msg))"
  using assms
  by (auto simp: emitted_def announced_def Emit_def sendKubernetesEvents_def Let_def view_of_def add_effect_def split: option.splits)

lemma emitted_same: "cond_semantic_eq before after \<Longrightarrow> emitted env before after = []"
  by (cases after) (simp_all add: emitted_def Emit_def sendKubernetesEvents_def)

text \<open>Where there is no outcome, the conditions stay.\<close>

lemma reconcile_no_outcome:
  assumes "outcome env (st_Run s) (st_Status s) = None"
  shows "GetCondition c (run_Status (st_Run (snd (reconcile env s)))) = GetCondition c (run_Status (st_Run s))"
proof (cases env "st_Run s" rule: reconcile_branches)
  case (list_error meta spec err)
  with reconcile_error_branch [of env s meta spec err] show ?thesis by auto
next
  case (many meta spec tr tr' trs)
  with reconcile_error_branch [of env s meta spec] show ?thesis by auto
next
  case (one meta spec tr)
  with assms have "must_cancel (st_Run s) tr"
    "e_patchTaskRun env (run_Namespace (st_Run s)) (om_Name (tr_Meta tr)) (e_cancelPatchBytes env) \<noteq> None"
    by (auto simp: outcome_def split: if_splits)
  with reconcile_one(3) [OF one] show ?thesis by auto
qed (use assms in \<open>auto simp: outcome_def split: option.splits sum.splits\<close>)

section \<open>The events of a reconcile\<close>

text \<open>The Run after it has been started, if it was new, and the condition it is started with.\<close>

definition begun :: "Env \<Rightarrow> Run \<Rightarrow> Run" where
  "begun env run =
     (if Run_HasStarted run then run
      else st_Run (start_run env \<lparr>st_Run = run, st_Status = empty_run_status, st_Effects = []\<rparr>))"

definition starting :: "Run \<Rightarrow> string \<times> TaskGroupRunReason \<times> string" where
  "starting run =
     (case succeeded_of (run_Status run) of
        None \<Rightarrow> (ConditionUnknown, TaskGroupRunReasonStarted, [])
      | Some c \<Rightarrow> (cond_Status c, TaskGroupRunReasonStarted, cond_Message c))"

text \<open>What the condition of a Run becomes: a failure to encode the status comes last and counts, a failure to decode it
  only where the reconcile has no outcome of its own.\<close>

definition verdict :: "Env \<Rightarrow> Run \<Rightarrow> (string \<times> TaskGroupRunReason \<times> string) option" where
  "verdict env run =
     (case e_encodeStatus env (recorded env run (decoded env run)) of
        Inl err \<Rightarrow> Some (ConditionFalse, TaskGroupRunReasonInternalError, ''Internal error calling EncodeExtraFields: '' @ error_string err)
      | Inr data \<Rightarrow>
          (case outcome env run (decoded env run) of
             Some out \<Rightarrow> Some out
           | None \<Rightarrow>
               map_option (\<lambda>err. (ConditionFalse, TaskGroupRunReasonInternalError,
                 ''Internal error calling DecodeExtraFields: '' @ error_string err)) (snd (DecodeExtraFields env (run_Status run)))))"

lemma start_events:
  assumes "status_wf (run_Status run)" "\<not> Run_HasStarted run"
  shows "events_of (start_run env \<lparr>st_Run = run, st_Status = empty_run_status, st_Effects = []\<rparr>) = announced env None (Some (starting run))"
proof -
  let ?s = "\<lparr>st_Run = run, st_Status = empty_run_status, st_Effects = []\<rparr>"
  let ?c = "succeeded_of (run_Status (st_Run (start_run env ?s)))"
  have z: "is_zero_time (rs_StartTime (run_Status run))" using assms(2) by (simp only: not_started_zero)
  have "view_of ?c = Some (fst (starting run), reason_String (fst (snd (starting run))), snd (snd (starting run)))"
    using start_run_frame(7) [of ?s env] assms(1) InitializeConditions_view [OF assms(1) z]
    by (simp add: starting_def split: option.splits)
  moreover from this have "\<not> cond_semantic_eq None ?c" by (auto simp: cond_semantic_eq_def view_of_def)
  moreover have "events_of (start_run env ?s) = emitted env None ?c"
    by (auto simp: start_run_def Emit_effects Let_def upd_run_status_def upd_run_def split: option.splits)
  ultimately show ?thesis using emitted_announced [of ?c _ _ _ None env] by (cases "starting run") (simp add: view_of_None)
qed

lemma entry_begun:
  assumes "status_wf (run_Status run)"
  shows "rs_ExtraFields (run_Status (begun env run)) = rs_ExtraFields (run_Status run)" "status_wf (run_Status (begun env run))"
    "run_view (run_Status (st_Run (entry env run))) =
      (case snd (DecodeExtraFields env (run_Status run)) of
         None \<Rightarrow> run_view (run_Status (begun env run))
       | Some err \<Rightarrow> Some (ConditionFalse, reason_String TaskGroupRunReasonInternalError, ''Internal error calling DecodeExtraFields: '' @ error_string err))"
    "snd (DecodeExtraFields env (run_Status run)) = None \<Longrightarrow> st_Run (entry env run) = begun env run"
proof -
  let ?init = "\<lparr>st_Run = run, st_Status = empty_run_status, st_Effects = []\<rparr>"
  let ?s = "if \<not> Run_HasStarted run then start_run env ?init else ?init"
  have b: "begun env run = st_Run ?s" by (simp add: begun_def)
  have x: "rs_ExtraFields (run_Status (st_Run ?s)) = rs_ExtraFields (run_Status run)" and w: "status_wf (run_Status (st_Run ?s))"
    using assms start_run_frame(4,5) [of ?init env] by simp_all
  then show "rs_ExtraFields (run_Status (begun env run)) = rs_ExtraFields (run_Status run)" "status_wf (run_Status (begun env run))"
    by (simp_all only: b)
  have d: "DecodeExtraFields env (run_Status (st_Run ?s)) = DecodeExtraFields env (run_Status run)"
    using x by (simp only: DecodeExtraFields_def)
  have e: "entry env run = decode_status env ?s" by (simp only: entry_def Let_def)
  show n: "st_Run (entry env run) = begun env run" if "snd (DecodeExtraFields env (run_Status run)) = None"
    unfolding e b by (rule decode_frame(6) [OF w]) (simp only: d that)
  show "run_view (run_Status (st_Run (entry env run))) =
      (case snd (DecodeExtraFields env (run_Status run)) of
         None \<Rightarrow> run_view (run_Status (begun env run))
       | Some err \<Rightarrow> Some (ConditionFalse, reason_String TaskGroupRunReasonInternalError, ''Internal error calling DecodeExtraFields: '' @ error_string err))"
  proof (cases "snd (DecodeExtraFields env (run_Status run))")
    case None
    then show ?thesis using n by simp
  next
    case (Some err)
    then obtain st where "DecodeExtraFields env (run_Status (st_Run ?s)) = (st, Some err)"
      by (cases "DecodeExtraFields env (run_Status run)") (simp only: d snd_conv)
    then show ?thesis unfolding e decode_status_def using w Some by simp
  qed
qed

text \<open>The condition with which the last reconcile leaves the Run.\<close>

lemma final_verdict:
  assumes wf: "status_wf (run_Status run)" and a: "active run" and v: "verdict env run = Some (st, re, msg)"
  shows "run_view (final_status env run) = Some (st, reason_String re, msg)"
proof (cases "e_encodeStatus env (recorded env run (decoded env run))")
  case (Inl err)
  note e = entry_frame [OF wf, of env]
  let ?s1 = "snd (reconcile env (entry env run))"
  have w: "status_wf (run_Status (st_Run ?s1))" using reconcile_frame e(4) by blast
  have "st_Status ?s1 = recorded env run (decoded env run)" by (simp only: reconcile_status e(3) spec_cong(3) [OF e(1,2)])
  then show ?thesis
    using v w Inl by (simp add: final_active(5) [OF wf a] encode_status_def EncodeExtraFields_def verdict_def)
next
  case (Inr data)
  show ?thesis
    using v Inr by (auto simp: final_view(1) [OF wf a Inr] entry_begun(3) [OF wf] verdict_def outcome_view_def split: option.splits)
qed

lemma no_verdict:
  assumes wf: "status_wf (run_Status run)" and a: "active run" and v: "verdict env run = None"
  shows "succeeded_of (final_status env run) = succeeded_of (run_Status (begun env run))"
proof -
  note e = entry_frame [OF wf, of env]
  obtain data where data: "e_encodeStatus env (recorded env run (decoded env run)) = Inr data"
    and o: "outcome env run (decoded env run) = None" "snd (DecodeExtraFields env (run_Status run)) = None"
    using v by (auto simp: verdict_def split: sum.splits option.splits)
  have "outcome env (st_Run (entry env run)) (st_Status (entry env run)) = None"
    using o(1) by (simp only: e(3) spec_cong(2) [OF e(1,2)])
  then have "succeeded_of (run_Status (st_Run (snd (reconcile env (entry env run))))) = succeeded_of (run_Status (begun env run))"
    using reconcile_no_outcome entry_begun(4) [OF wf o(2)] by simp
  then show ?thesis using final_status_eq [OF wf a data] by (simp add: GetCondition_def)
qed

lemma final_events:
  assumes wf: "status_wf (run_Status run)" and a: "active run"
  shows "events_of (final env run) =
    (if Run_HasStarted run then [] else announced env None (Some (starting run))) @
    emitted env (succeeded_of (run_Status (begun env run))) (succeeded_of (final_status env run))"
proof -
  let ?init = "\<lparr>st_Run = run, st_Status = empty_run_status, st_Effects = []\<rparr>"
  let ?s1 = "snd (reconcile env (entry env run))"
  have "status_wf (run_Status (st_Run (if \<not> Run_HasStarted run then start_run env ?init else ?init)))"
    using wf start_run_frame(5) [of ?init env] by simp
  then have "events_of (entry env run) = (if Run_HasStarted run then [] else announced env None (Some (starting run)))"
    using start_events [OF wf] by (simp add: entry_def Let_def decode_frame(5))
  then have "events_of ?s1 = (if Run_HasStarted run then [] else announced env None (Some (starting run)))"
    by (simp add: reconcile_effects)
  moreover have "begun env run = st_Run (if \<not> Run_HasStarted run then start_run env ?init else ?init)" by (simp add: begun_def)
  ultimately show ?thesis
    by (simp only: ReconcileKind_active [OF wf a] Let_def case_prod_unfold Emit_effects filter_append snd_conv
        Emit_frame emitted_events updateLabels_events encode_frame)
qed

text \<open>C12. All events of a reconcile. A Run that refers to a TaskGroup and is new is announced as started. After that, a
  Run that is not done is announced once more exactly if its \<open>Succeeded\<close> condition has changed since it was begun; the
  type, reason and message of this event are those of the outcome, or of a failure to decode or encode the status. An
  announcement is one Kubernetes event, and a cloud event where a sink is configured. There are no other events.\<close>

theorem ReconcileKind_events:
  assumes "status_wf (run_Status run)"
  shows "filter event (st_Effects (snd (ReconcileKind env run))) =
    (if references_TaskGroup run \<and> \<not> Run_HasStarted run then announced env None (Some (starting run)) else []) @
    (if active run \<and> \<not> cond_semantic_eq (succeeded_of (run_Status (begun env run)))
          (succeeded_of (run_Status (st_Run (snd (ReconcileKind env run)))))
     then announced env (run_view (run_Status (begun env run))) (verdict env run) else [])"
proof (cases "active run")
  case True
  have ref: "references_TaskGroup run" using True by (simp add: active_def)
  note e = final_events [OF assms True]
  show ?thesis
  proof (cases "cond_semantic_eq (succeeded_of (run_Status (begun env run))) (succeeded_of (final_status env run))")
    case same: True
    then show ?thesis using e emitted_same [OF same] ref by simp
  next
    case False
    then obtain st re msg where v: "verdict env run = Some (st, re, msg)"
      using no_verdict [OF assms True] by (cases "verdict env run") (auto simp: cond_semantic_eq_def)
    show ?thesis
      using e emitted_announced [OF final_verdict [OF assms True v] False] True False ref by (simp add: v)
  qed
next
  case False
  then show ?thesis
    using start_events [OF assms] start_run_done [OF assms]
    by (auto simp: ReconcileKind_def active_def Let_def)
qed

text \<open>The first reconcile of the example Run, whose TaskRun is done.\<close>

theorem ReconcileKind_events_witness:
  "filter event (st_Effects (snd (ReconcileKind (ex_env [ex_taskrun ConditionTrue]) ex_run))) =
     [KubeEvent ''Normal'' ''Started'' [], KubeEvent ''Normal'' ''Succeeded'' ''TaskRun succeeded'']"
proof -
  let ?env = "ex_env [ex_taskrun ConditionTrue]"
  have "outcome ?env ex_run st = Some (ConditionTrue, TaskGroupRunReasonSucceeded, ''TaskRun succeeded'')" for st
    by (simp add: outcome_def)
  then have v: "verdict ?env ex_run = Some (ConditionTrue, TaskGroupRunReasonSucceeded, ''TaskRun succeeded'')"
    by (simp add: verdict_def)
  have ne: "ConditionUnknown \<noteq> ConditionTrue" "ConditionUnknown \<noteq> ConditionFalse"
    by (simp_all add: ConditionTrue_def ConditionFalse_def ConditionUnknown_def)
  have "references_TaskGroup ex_run" "\<not> Run_HasStarted ex_run" "active ex_run" "e_cloudEventsSink ?env = []"
    "starting ex_run = (ConditionUnknown, TaskGroupRunReasonStarted, [])"
    "\<not> cond_semantic_eq (succeeded_of (run_Status (begun ?env ex_run))) (succeeded_of (final_status ?env ex_run))"
    by code_simp+
  then show ?thesis
    using ReconcileKind_events [OF ex_run_wf, of ?env]
    by (simp add: v announced_def ne)
qed

end
