(* ===== verification/Scheme.thy ===== *)
theory Scheme
  imports Api_Types
begin

text \<open>
  The registration of types: \<open>addKnownTypes\<close> of \<open>pkg/apis/taskgroup/v1alpha1/register.go\<close>, the schemes of
  \<open>clientset/versioned/scheme/register.go\<close> and \<open>clientset/versioned/fake/register.go\<close>, and what they call of
  \<open>runtime.Scheme\<close>, \<open>SchemeBuilder\<close> and \<open>metav1.AddToGroupVersion\<close>. The encoders look up which kind a Go type is,
  the decoders which Go type a kind is; both read these tables.

  A \<open>reflect.Type\<close> is a package path and a name; all types that are registered here are pointers to structs, as
  the registration demands. A function that may panic returns the message (\<open>Inl\<close>) or its result. Conversion and
  defaulting functions are left out: they do not touch the tables.
\<close>

section \<open>Schemes\<close>

record GoType =
  gt_PkgPath :: string
  gt_Name :: string

record GroupVersionKind =
  gvk_Group :: string
  gvk_Version :: string
  gvk_Kind :: string

record Scheme =
  sc_gvkToType :: "GroupVersionKind \<rightharpoonup> GoType"
  sc_typeToGVK :: "GoType \<rightharpoonup> GroupVersionKind list"
  sc_unversionedTypes :: "GoType \<rightharpoonup> GroupVersionKind"
  sc_unversionedKinds :: "string \<rightharpoonup> GoType"
  sc_observedVersions :: "GroupVersion list"

definition NewScheme :: Scheme where
  "NewScheme = \<lparr>sc_gvkToType = Map.empty, sc_typeToGVK = Map.empty, sc_unversionedTypes = Map.empty,
     sc_unversionedKinds = Map.empty, sc_observedVersions = []\<rparr>"

definition APIVersionInternal :: string where "APIVersionInternal = ''__internal''"

definition WithKind :: "GroupVersion \<Rightarrow> string \<Rightarrow> GroupVersionKind" where
  "WithKind gv kind = \<lparr>gvk_Group = gv_Group gv, gvk_Version = gv_Version gv, gvk_Kind = kind\<rparr>"

definition gvk_GroupVersion :: "GroupVersionKind \<Rightarrow> GroupVersion" where
  "gvk_GroupVersion gvk = \<lparr>gv_Group = gvk_Group gvk, gv_Version = gvk_Version gvk\<rparr>"

definition addObservedVersion :: "GroupVersion \<Rightarrow> Scheme \<Rightarrow> Scheme" where
  "addObservedVersion version s =
     (if gv_Version version = [] \<or> gv_Version version = APIVersionInternal then s
      else if version \<in> set (sc_observedVersions s) then s
      else s\<lparr>sc_observedVersions := sc_observedVersions s @ [version]\<rparr>)"

definition AddKnownTypeWithName :: "GroupVersionKind \<Rightarrow> GoType \<Rightarrow> Scheme \<Rightarrow> string + Scheme" where
  "AddKnownTypeWithName gvk t s =
     (let s = addObservedVersion (gvk_GroupVersion gvk) s in
      if gvk_Version gvk = [] then Inl ''version is required on all types''
      else if sc_gvkToType s gvk \<noteq> None \<and> sc_gvkToType s gvk \<noteq> Some t
      then Inl ''Double registration of different types''
      else
        let s = s\<lparr>sc_gvkToType := (sc_gvkToType s)(gvk \<mapsto> t)\<rparr>;
            existing = (case sc_typeToGVK s t of None \<Rightarrow> [] | Some gvks \<Rightarrow> gvks)
        in if gvk \<in> set existing then Inr s
           else Inr (s\<lparr>sc_typeToGVK := (sc_typeToGVK s)(t \<mapsto> existing @ [gvk])\<rparr>))"

fun AddKnownTypes_loop :: "GroupVersion \<Rightarrow> GoType list \<Rightarrow> Scheme \<Rightarrow> string + Scheme" where
  "AddKnownTypes_loop gv [] s = Inr s"
| "AddKnownTypes_loop gv (t # ts) s =
     (case AddKnownTypeWithName (WithKind gv (gt_Name t)) t s of
        Inl p \<Rightarrow> Inl p
      | Inr s \<Rightarrow> AddKnownTypes_loop gv ts s)"

definition AddKnownTypes :: "GroupVersion \<Rightarrow> GoType list \<Rightarrow> Scheme \<Rightarrow> string + Scheme" where
  "AddKnownTypes gv types s = AddKnownTypes_loop gv types (addObservedVersion gv s)"

fun AddUnversionedTypes_loop :: "GroupVersion \<Rightarrow> GoType list \<Rightarrow> Scheme \<Rightarrow> string + Scheme" where
  "AddUnversionedTypes_loop version [] s = Inr s"
| "AddUnversionedTypes_loop version (t # ts) s =
     (let gvk = WithKind version (gt_Name t);
          s = s\<lparr>sc_unversionedTypes := (sc_unversionedTypes s)(t \<mapsto> gvk)\<rparr>
      in if sc_unversionedKinds s (gvk_Kind gvk) \<noteq> None \<and> sc_unversionedKinds s (gvk_Kind gvk) \<noteq> Some t
         then Inl ''has already been registered as unversioned kind''
         else AddUnversionedTypes_loop version ts
                (s\<lparr>sc_unversionedKinds := (sc_unversionedKinds s)(gvk_Kind gvk \<mapsto> t)\<rparr>))"

definition AddUnversionedTypes :: "GroupVersion \<Rightarrow> GoType list \<Rightarrow> Scheme \<Rightarrow> string + Scheme" where
  "AddUnversionedTypes version types s =
     (case AddKnownTypes version types (addObservedVersion version s) of
        Inl p \<Rightarrow> Inl p
      | Inr s \<Rightarrow> AddUnversionedTypes_loop version types s)"

text \<open>\<open>ObjectKinds\<close> of a typed object and \<open>New\<close>, as the type that is allocated.\<close>

definition ObjectKinds :: "Scheme \<Rightarrow> GoType \<Rightarrow> goerror + GroupVersionKind list \<times> bool" where
  "ObjectKinds s t =
     (case sc_typeToGVK s t of
        None \<Rightarrow> Inl (Errorf (''no kind is registered for the type '' @ gt_PkgPath t @ ''.'' @ gt_Name t))
      | Some gvks \<Rightarrow> Inr (gvks, sc_unversionedTypes s t \<noteq> None))"

definition scheme_New :: "Scheme \<Rightarrow> GroupVersionKind \<Rightarrow> goerror + GoType" where
  "scheme_New s kind =
     (case sc_gvkToType s kind of
        Some t \<Rightarrow> Inr t
      | None \<Rightarrow>
          (case sc_unversionedKinds s (gvk_Kind kind) of
             Some t \<Rightarrow> Inr t
           | None \<Rightarrow> Inl (Errorf (''no kind '' @ quote (gvk_Kind kind) @ '' is registered''))))"

section \<open>The registrations\<close>

abbreviation metav1 :: "string \<Rightarrow> GoType" where
  "metav1 n \<equiv> \<lparr>gt_PkgPath = ''k8s.io/apimachinery/pkg/apis/meta/v1'', gt_Name = n\<rparr>"

definition Unversioned :: GroupVersion where "Unversioned = \<lparr>gv_Group = [], gv_Version = ''v1''\<rparr>"

definition optionsTypes :: "GoType list" where
  "optionsTypes = map metav1 [''ListOptions'', ''GetOptions'', ''DeleteOptions'', ''CreateOptions'', ''UpdateOptions'', ''PatchOptions'']"

definition unversionedTypes :: "GoType list" where
  "unversionedTypes = map metav1 [''Status'', ''APIVersions'', ''APIGroupList'', ''APIGroup'', ''APIResourceList'']"

definition AddToGroupVersion :: "GroupVersion \<Rightarrow> Scheme \<Rightarrow> string + Scheme" where
  "AddToGroupVersion gv s =
     (case AddKnownTypeWithName (WithKind gv ''WatchEvent'') (metav1 ''WatchEvent'') s of
        Inl p \<Rightarrow> Inl p
      | Inr s \<Rightarrow>
          (case AddKnownTypeWithName (WithKind \<lparr>gv_Group = gv_Group gv, gv_Version = APIVersionInternal\<rparr> ''WatchEvent'')
                  (metav1 ''InternalEvent'') s of
             Inl p \<Rightarrow> Inl p
           | Inr s \<Rightarrow>
               (case AddKnownTypes gv optionsTypes s of
                  Inl p \<Rightarrow> Inl p
                | Inr s \<Rightarrow> AddUnversionedTypes Unversioned unversionedTypes s)))"

definition TaskGroup_gotype :: GoType where
  "TaskGroup_gotype = \<lparr>gt_PkgPath = ''github.com/openshift-pipelines/tekton-task-group/pkg/apis/taskgroup/v1alpha1'', gt_Name = ''TaskGroup''\<rparr>"

definition TaskGroupList_gotype :: GoType where
  "TaskGroupList_gotype = \<lparr>gt_PkgPath = ''github.com/openshift-pipelines/tekton-task-group/pkg/apis/taskgroup/v1alpha1'', gt_Name = ''TaskGroupList''\<rparr>"

definition addKnownTypes :: "Scheme \<Rightarrow> string + goerror option \<times> Scheme" where
  "addKnownTypes scheme =
     (case AddKnownTypes SchemeGroupVersion [TaskGroup_gotype, TaskGroupList_gotype] scheme of
        Inl p \<Rightarrow> Inl p
      | Inr scheme \<Rightarrow>
          (case AddToGroupVersion SchemeGroupVersion scheme of
             Inl p \<Rightarrow> Inl p
           | Inr scheme \<Rightarrow> Inr (None, scheme)))"

fun SchemeBuilder_AddToScheme ::
    "(Scheme \<Rightarrow> string + goerror option \<times> Scheme) list \<Rightarrow> Scheme \<Rightarrow> string + goerror option \<times> Scheme" where
  "SchemeBuilder_AddToScheme [] s = Inr (None, s)"
| "SchemeBuilder_AddToScheme (f # fs) s =
     (case f s of
        Inl p \<Rightarrow> Inl p
      | Inr (Some err, s) \<Rightarrow> Inr (Some err, s)
      | Inr (None, s) \<Rightarrow> SchemeBuilder_AddToScheme fs s)"

definition v1alpha1_AddToScheme :: "Scheme \<Rightarrow> string + goerror option \<times> Scheme" where
  "v1alpha1_AddToScheme = SchemeBuilder_AddToScheme [addKnownTypes]"

text \<open>\<open>AddToScheme\<close> of the clientset and of its fake, and the schemes that their \<open>init\<close> functions leave.\<close>

definition clientset_AddToScheme :: "Scheme \<Rightarrow> string + goerror option \<times> Scheme" where
  "clientset_AddToScheme = SchemeBuilder_AddToScheme [v1alpha1_AddToScheme]"

definition fake_AddToScheme :: "Scheme \<Rightarrow> string + goerror option \<times> Scheme" where
  "fake_AddToScheme = SchemeBuilder_AddToScheme [v1alpha1_AddToScheme]"

definition Must :: "string + goerror option \<times> Scheme \<Rightarrow> string + Scheme" where
  "Must r = (case r of Inl p \<Rightarrow> Inl p | Inr (Some err, s) \<Rightarrow> Inl (error_string err) | Inr (None, s) \<Rightarrow> Inr s)"

definition clientset_scheme :: "string + Scheme" where
  "clientset_scheme =
     (case AddToGroupVersion \<lparr>gv_Group = [], gv_Version = ''v1''\<rparr> NewScheme of
        Inl p \<Rightarrow> Inl p
      | Inr s \<Rightarrow> Must (clientset_AddToScheme s))"

definition fake_scheme :: "string + Scheme" where
  "fake_scheme =
     (case AddToGroupVersion \<lparr>gv_Group = [], gv_Version = ''v1''\<rparr> NewScheme of
        Inl p \<Rightarrow> Inl p
      | Inr s \<Rightarrow> Must (fake_AddToScheme s))"

section \<open>Registering a list\<close>

fun register :: "(GroupVersionKind \<times> GoType) list \<Rightarrow> Scheme \<Rightarrow> string + Scheme" where
  "register [] s = Inr s"
| "register ((gvk, t) # rs) s =
     (case AddKnownTypeWithName gvk t s of Inl p \<Rightarrow> Inl p | Inr s \<Rightarrow> register rs s)"

lemma register_append:
  "register (rs @ rs') s = (case register rs s of Inl p \<Rightarrow> Inl p | Inr s \<Rightarrow> register rs' s)"
  by (induction rs s rule: register.induct) (auto split: sum.splits)

lemma WithKind_simps [simp]:
  "gvk_GroupVersion (WithKind gv k) = gv" "gvk_Version (WithKind gv k) = gv_Version gv" "gvk_Kind (WithKind gv k) = k"
  "gvk_Group (WithKind gv k) = gv_Group gv"
  by (simp_all add: WithKind_def gvk_GroupVersion_def)

definition kinds :: "GroupVersion \<Rightarrow> GoType list \<Rightarrow> (GroupVersionKind \<times> GoType) list" where
  "kinds gv ts = map (\<lambda>t. (WithKind gv (gt_Name t), t)) ts"

lemma AddKnownTypes_loop_register: "AddKnownTypes_loop gv ts s = register (kinds gv ts) s"
  by (induction gv ts s rule: AddKnownTypes_loop.induct) (auto simp: kinds_def split: sum.splits)

lemma addObservedVersion_twice [simp]: "addObservedVersion gv (addObservedVersion gv s) = addObservedVersion gv s"
  by (simp add: addObservedVersion_def)

lemma AddKnownTypes_register: "AddKnownTypes gv (t # ts) s = register (kinds gv (t # ts)) s"
proof -
  have "AddKnownTypeWithName (WithKind gv n) t (addObservedVersion gv s) = AddKnownTypeWithName (WithKind gv n) t s" for n
    by (simp add: AddKnownTypeWithName_def)
  then show ?thesis by (simp add: AddKnownTypes_def AddKnownTypes_loop_register kinds_def)
qed

lemma AddUnversionedTypes_register:
  "AddUnversionedTypes gv (t # ts) s =
     (case register (kinds gv (t # ts)) s of Inl p \<Rightarrow> Inl p | Inr s \<Rightarrow> AddUnversionedTypes_loop gv (t # ts) s)"
proof -
  have "AddKnownTypes gv (t # ts) (addObservedVersion gv s) = AddKnownTypes gv (t # ts) s"
    by (simp add: AddKnownTypes_def)
  then show ?thesis unfolding AddUnversionedTypes_def AddKnownTypes_register by simp
qed

text \<open>The kinds that \<open>AddToGroupVersion\<close> and the clientsets register, in order.\<close>

definition meta_registrations :: "GroupVersion \<Rightarrow> (GroupVersionKind \<times> GoType) list" where
  "meta_registrations gv =
     [(WithKind gv ''WatchEvent'', metav1 ''WatchEvent''),
      (WithKind \<lparr>gv_Group = gv_Group gv, gv_Version = APIVersionInternal\<rparr> ''WatchEvent'', metav1 ''InternalEvent'')] @
     kinds gv optionsTypes @ kinds Unversioned unversionedTypes"

definition registrations :: "(GroupVersionKind \<times> GoType) list" where
  "registrations =
     kinds SchemeGroupVersion [TaskGroup_gotype, TaskGroupList_gotype] @ meta_registrations SchemeGroupVersion"

lemma AddToGroupVersion_register:
  "AddToGroupVersion gv s =
     (case register (meta_registrations gv) s of
        Inl p \<Rightarrow> Inl p
      | Inr s \<Rightarrow> AddUnversionedTypes_loop Unversioned unversionedTypes s)"
proof -
  obtain t ts where o: "optionsTypes = t # ts" by (simp add: optionsTypes_def)
  obtain u us where u: "unversionedTypes = u # us" by (simp add: unversionedTypes_def)
  show ?thesis
    by (simp only: AddToGroupVersion_def meta_registrations_def register_append o u AddKnownTypes_register
        AddUnversionedTypes_register) (simp split: sum.splits)
qed

lemma addKnownTypes_register:
  "addKnownTypes s =
     (case register registrations s of
        Inl p \<Rightarrow> Inl p
      | Inr s \<Rightarrow> (case AddUnversionedTypes_loop Unversioned unversionedTypes s of Inl p \<Rightarrow> Inl p | Inr s \<Rightarrow> Inr (None, s)))"
  by (auto simp: addKnownTypes_def registrations_def register_append AddKnownTypes_register AddToGroupVersion_register
      split: sum.splits)

lemma clientset_AddToScheme_eq: "clientset_AddToScheme s = addKnownTypes s"
  by (auto simp: clientset_AddToScheme_def v1alpha1_AddToScheme_def split: sum.splits option.splits prod.splits)

section \<open>The two tables agree\<close>

definition kinds_of :: "Scheme \<Rightarrow> GoType \<Rightarrow> GroupVersionKind list" where
  "kinds_of s t = (case sc_typeToGVK s t of None \<Rightarrow> [] | Some gvks \<Rightarrow> gvks)"

definition scheme_ok :: "Scheme \<Rightarrow> bool" where
  "scheme_ok s \<longleftrightarrow>
     (\<forall>gvk t. sc_gvkToType s gvk = Some t \<longleftrightarrow> gvk \<in> set (kinds_of s t)) \<and>
     (\<forall>t. distinct (kinds_of s t) \<and> sc_typeToGVK s t \<noteq> Some [])"

lemma addObserved_simps [simp]:
  "sc_gvkToType (addObservedVersion gv s) = sc_gvkToType s" "sc_typeToGVK (addObservedVersion gv s) = sc_typeToGVK s"
  "sc_unversionedTypes (addObservedVersion gv s) = sc_unversionedTypes s"
  "sc_unversionedKinds (addObservedVersion gv s) = sc_unversionedKinds s"
  by (simp_all add: addObservedVersion_def)

definition free_for :: "Scheme \<Rightarrow> GroupVersionKind \<Rightarrow> GoType \<Rightarrow> bool" where
  "free_for s gvk t \<longleftrightarrow> sc_gvkToType s gvk = None \<or> sc_gvkToType s gvk = Some t"

lemma AddKnown_panics: "\<not> free_for s gvk t \<Longrightarrow> \<exists>p. AddKnownTypeWithName gvk t s = Inl p"
  by (auto simp: AddKnownTypeWithName_def free_for_def Let_def)

lemma AddKnown_result:
  assumes "free_for s gvk t" "gvk_Version gvk \<noteq> []"
  obtains s' where "AddKnownTypeWithName gvk t s = Inr s'" "sc_gvkToType s' = (sc_gvkToType s)(gvk \<mapsto> t)"
    "sc_unversionedTypes s' = sc_unversionedTypes s" "sc_unversionedKinds s' = sc_unversionedKinds s"
    "\<And>t'. kinds_of s' t' = (if t' = t \<and> gvk \<notin> set (kinds_of s t) then kinds_of s t @ [gvk] else kinds_of s t')"
    "\<And>t'. sc_typeToGVK s t' \<noteq> Some [] \<Longrightarrow> sc_typeToGVK s' t' \<noteq> Some []"
    "sc_observedVersions s' = sc_observedVersions (addObservedVersion (gvk_GroupVersion gvk) s)"
proof -
  let ?s = "addObservedVersion (gvk_GroupVersion gvk) s"
  let ?s1 = "?s\<lparr>sc_gvkToType := (sc_gvkToType s)(gvk \<mapsto> t)\<rparr>"
  let ?s' = "if gvk \<in> set (kinds_of s t) then ?s1 else ?s1\<lparr>sc_typeToGVK := (sc_typeToGVK s)(t \<mapsto> kinds_of s t @ [gvk])\<rparr>"
  have "AddKnownTypeWithName gvk t s = Inr ?s'"
    using assms by (auto simp: AddKnownTypeWithName_def Let_def free_for_def kinds_of_def)
  then show thesis by (rule that) (auto simp: kinds_of_def)
qed

lemma AddKnown_ok:
  assumes "AddKnownTypeWithName gvk t s = Inr s'" "scheme_ok s"
  shows "scheme_ok s'"
proof -
  have v: "gvk_Version gvk \<noteq> []" using assms(1) by (auto simp: AddKnownTypeWithName_def Let_def)
  have f: "free_for s gvk t" using assms(1) AddKnown_panics by fastforce
  from AddKnown_result [OF f v] assms(1) have r: "sc_gvkToType s' = (sc_gvkToType s)(gvk \<mapsto> t)"
    "\<And>t'. kinds_of s' t' = (if t' = t \<and> gvk \<notin> set (kinds_of s t) then kinds_of s t @ [gvk] else kinds_of s t')"
    "\<And>t'. sc_typeToGVK s t' \<noteq> Some [] \<Longrightarrow> sc_typeToGVK s' t' \<noteq> Some []" by (metis sum.inject(2))+
  have g: "gvk \<in> set (kinds_of s t') \<Longrightarrow> t' = t" for t'
    using f assms(2) unfolding free_for_def scheme_ok_def by (metis option.distinct(1) option.inject)
  show ?thesis
    using assms(2) g r(3) by (auto simp: scheme_ok_def r(1,2))
qed

lemma register_ok: "register rs s = Inr s' \<Longrightarrow> scheme_ok s \<Longrightarrow> scheme_ok s'"
  by (induction rs s rule: register.induct) (auto split: sum.splits dest: AddKnown_ok)

text \<open>When a list of different kinds can be registered, and with what result.\<close>

definition registrable :: "(GroupVersionKind \<times> GoType) list \<Rightarrow> bool" where
  "registrable rs \<longleftrightarrow> distinct (map fst rs) \<and> list_all (\<lambda>(gvk, t). gvk_Version gvk \<noteq> []) rs"

lemma register_result:
  assumes "registrable rs"
  shows "(\<exists>s'. register rs s = Inr s') \<longleftrightarrow> (\<forall>(gvk, t) \<in> set rs. free_for s gvk t)"
    and "register rs s = Inr s' \<Longrightarrow> sc_gvkToType s' = sc_gvkToType s ++ map_of rs \<and>
      sc_unversionedTypes s' = sc_unversionedTypes s \<and> sc_unversionedKinds s' = sc_unversionedKinds s"
  using assms
proof (induction rs s rule: register.induct)
  case (2 gvk t rs s)
  {
    case 1
    show ?case
    proof (cases "free_for s gvk t")
      case True
      from 1 have v: "gvk_Version gvk \<noteq> []" "registrable rs" "gvk \<notin> fst ` set rs" by (auto simp: registrable_def)
      from AddKnown_result [OF True v(1)] obtain s1 where s1: "AddKnownTypeWithName gvk t s = Inr s1"
        "sc_gvkToType s1 = (sc_gvkToType s)(gvk \<mapsto> t)" by metis
      have "free_for s1 k u = free_for s k u" if "(k, u) \<in> set rs" for k u
        using that v(3) by (force simp: free_for_def s1(2))
      then show ?thesis using 2(1) [OF s1(1) v(2)] True by (auto simp: s1(1))
    next
      case False
      then show ?thesis using AddKnown_panics [OF False] by auto
    qed
  next
    case 2
    then have v: "gvk_Version gvk \<noteq> []" "registrable rs" "gvk \<notin> fst ` set rs" by (auto simp: registrable_def)
    from 2 have f: "free_for s gvk t" using AddKnown_panics [of s gvk t] by (auto split: sum.splits)
    from AddKnown_result [OF f v(1)] obtain s1 where s1: "AddKnownTypeWithName gvk t s = Inr s1"
      "sc_gvkToType s1 = (sc_gvkToType s)(gvk \<mapsto> t)"
      "sc_unversionedTypes s1 = sc_unversionedTypes s" "sc_unversionedKinds s1 = sc_unversionedKinds s" by metis
    have "map_of rs gvk = None" using v(3) by (simp add: map_of_eq_None_iff)
    then have e: "((sc_gvkToType s)(gvk \<mapsto> t)) ++ map_of rs = sc_gvkToType s ++ map_of ((gvk, t) # rs)"
      by (auto simp: fun_eq_iff map_add_def split: option.splits)
    have "register rs s1 = Inr s'" using 2 s1(1) by simp
    from "2.IH"(2) [OF s1(1) this v(2)] show ?case by (simp only: s1(2-4) e simp_thms)
  }
qed (simp_all add: map_add_def)

text \<open>Registering what is registered changes nothing.\<close>

definition known :: "Scheme \<Rightarrow> GroupVersionKind \<Rightarrow> GoType \<Rightarrow> bool" where
  "known s gvk t \<longleftrightarrow>
     gvk_Version gvk \<noteq> [] \<and> sc_gvkToType s gvk = Some t \<and> gvk \<in> set (kinds_of s t) \<and>
     addObservedVersion (gvk_GroupVersion gvk) s = s"

lemma AddKnown_known: "known s gvk t \<Longrightarrow> AddKnownTypeWithName gvk t s = Inr s"
  by (auto simp: AddKnownTypeWithName_def known_def kinds_of_def Let_def fun_upd_idem split: option.splits)

lemma register_known: "\<forall>(gvk, t) \<in> set rs. known s gvk t \<Longrightarrow> register rs s = Inr s"
  by (induction rs s rule: register.induct) (auto simp: AddKnown_known)

lemma observed_iff:
  "addObservedVersion gv s = s \<longleftrightarrow>
     gv_Version gv = [] \<or> gv_Version gv = APIVersionInternal \<or> gv \<in> set (sc_observedVersions s)"
  by (auto simp: addObservedVersion_def dest: arg_cong [where f = sc_observedVersions])

lemma AddKnown_observed:
  assumes "AddKnownTypeWithName gvk t s = Inr s'"
  shows "addObservedVersion (gvk_GroupVersion gvk) s' = s'" "set (sc_observedVersions s) \<subseteq> set (sc_observedVersions s')"
  using assms unfolding observed_iff
  by (auto simp: AddKnownTypeWithName_def Let_def addObservedVersion_def split: if_splits)

lemma register_observed:
  assumes "register rs s = Inr s'"
  shows "set (sc_observedVersions s) \<subseteq> set (sc_observedVersions s') \<and>
    (\<forall>(gvk, t) \<in> set rs. addObservedVersion (gvk_GroupVersion gvk) s' = s')"
  using assms
proof (induction rs s rule: register.induct)
  case (2 gvk t rs s)
  then obtain s1 where s1: "AddKnownTypeWithName gvk t s = Inr s1" "register rs s1 = Inr s'" by (auto split: sum.splits)
  from "2.IH" [OF s1] AddKnown_observed [OF s1(1)] show ?case unfolding observed_iff by auto
qed simp

lemma register_twice:
  assumes "scheme_ok s" "registrable rs" "register rs s = Inr s'"
  shows "\<forall>(gvk, t) \<in> set rs. known s' gvk t"
proof clarify
  fix gvk t
  assume m: "(gvk, t) \<in> set rs"
  have "map_of rs gvk = Some t" using assms(2) m by (simp add: registrable_def)
  then have g: "sc_gvkToType s' gvk = Some t" using register_result(2) [OF assms(2,3)] by (simp add: map_add_def)
  moreover have "gvk \<in> set (kinds_of s' t)" using register_ok [OF assms(3,1)] g by (simp add: scheme_ok_def)
  moreover have "addObservedVersion (gvk_GroupVersion gvk) s' = s'" using register_observed [OF assms(3)] m by blast
  moreover have "gvk_Version gvk \<noteq> []" using assms(2) m by (auto simp: registrable_def list_all_iff)
  ultimately show "known s' gvk t" by (simp add: known_def)
qed

section \<open>Unversioned kinds\<close>

lemma unversioned_loop_result:
  assumes "distinct (map gt_Name ts)"
  shows "(\<exists>s'. AddUnversionedTypes_loop gv ts s = Inr s') \<longleftrightarrow>
      (\<forall>t \<in> set ts. sc_unversionedKinds s (gt_Name t) = None \<or> sc_unversionedKinds s (gt_Name t) = Some t)"
    and "AddUnversionedTypes_loop gv ts s = Inr s' \<Longrightarrow>
      sc_gvkToType s' = sc_gvkToType s \<and> sc_typeToGVK s' = sc_typeToGVK s \<and> sc_observedVersions s' = sc_observedVersions s \<and>
      (\<forall>t \<in> set ts. sc_unversionedKinds s' (gt_Name t) = Some t \<and> sc_unversionedTypes s' t = Some (WithKind gv (gt_Name t))) \<and>
      (\<forall>k. k \<notin> gt_Name ` set ts \<longrightarrow> sc_unversionedKinds s' k = sc_unversionedKinds s k) \<and>
      (\<forall>t. t \<notin> set ts \<longrightarrow> sc_unversionedTypes s' t = sc_unversionedTypes s t)"
  using assms
proof (induction ts arbitrary: s)
  case (Cons t ts)
  {
    case 1
    let ?s = "s\<lparr>sc_unversionedTypes := (sc_unversionedTypes s)(t \<mapsto> WithKind gv (gt_Name t)),
      sc_unversionedKinds := (sc_unversionedKinds s)(gt_Name t \<mapsto> t)\<rparr>"
    from 1 have n: "gt_Name t \<notin> gt_Name ` set ts" "distinct (map gt_Name ts)" by auto
    have nn: "gt_Name u \<noteq> gt_Name t" if "u \<in> set ts" for u using n(1) that by (metis image_eqI)
    have IH: "(\<exists>s'. AddUnversionedTypes_loop gv ts ?s = Inr s') \<longleftrightarrow>
        (\<forall>u \<in> set ts. sc_unversionedKinds s (gt_Name u) = None \<or> sc_unversionedKinds s (gt_Name u) = Some u)"
    proof (subst Cons(1) [OF n(2), of ?s])
      have "sc_unversionedKinds ?s (gt_Name u) = sc_unversionedKinds s (gt_Name u)" if "u \<in> set ts" for u
        using nn [OF that] by simp
      then show "(\<forall>u \<in> set ts. sc_unversionedKinds ?s (gt_Name u) = None \<or> sc_unversionedKinds ?s (gt_Name u) = Some u) \<longleftrightarrow>
          (\<forall>u \<in> set ts. sc_unversionedKinds s (gt_Name u) = None \<or> sc_unversionedKinds s (gt_Name u) = Some u)"
        by (intro ball_cong) simp_all
    qed
    show ?case
    proof (cases "sc_unversionedKinds s (gt_Name t) = None \<or> sc_unversionedKinds s (gt_Name t) = Some t")
      case True
      then have "AddUnversionedTypes_loop gv (t # ts) s = AddUnversionedTypes_loop gv ts ?s" by (auto simp: Let_def)
      then show ?thesis using IH True by simp
    next
      case False
      then show ?thesis by (auto simp: Let_def)
    qed
  next
    case 2
    let ?s = "s\<lparr>sc_unversionedTypes := (sc_unversionedTypes s)(t \<mapsto> WithKind gv (gt_Name t)),
      sc_unversionedKinds := (sc_unversionedKinds s)(gt_Name t \<mapsto> t)\<rparr>"
    from 2 have n: "gt_Name t \<notin> gt_Name ` set ts" "distinct (map gt_Name ts)" by auto
    have l: "AddUnversionedTypes_loop gv ts ?s = Inr s'" using 2 by (auto simp: Let_def split: if_splits)
    have "t \<notin> set ts" using n(1) by auto
    then show ?case using Cons(2) [OF l n(2)] n(1) by auto
  }
qed simp_all

lemma unversioned_loop_known:
  "\<forall>t \<in> set ts. sc_unversionedKinds s (gt_Name t) = Some t \<and> sc_unversionedTypes s t = Some (WithKind gv (gt_Name t)) \<Longrightarrow>
     AddUnversionedTypes_loop gv ts s = Inr s"
  by (induction gv ts s rule: AddUnversionedTypes_loop.induct) (auto simp: Let_def fun_upd_idem)

section \<open>Properties\<close>

lemma registrations_ok: "registrable registrations"
  by code_simp

lemma unversioned_distinct: "distinct (map gt_Name unversionedTypes)"
  by code_simp

text \<open>Nothing that the clientsets register is taken by another type.\<close>

definition compatible :: "Scheme \<Rightarrow> bool" where
  "compatible s \<longleftrightarrow>
     list_all (\<lambda>(gvk, t). free_for s gvk t) registrations \<and>
     list_all (\<lambda>t. sc_unversionedKinds s (gt_Name t) = None \<or> sc_unversionedKinds s (gt_Name t) = Some t) unversionedTypes"

lemma clientset_AddToScheme_cases:
  "clientset_AddToScheme s =
     (case register registrations s of
        Inl p \<Rightarrow> Inl p
      | Inr s \<Rightarrow> (case AddUnversionedTypes_loop Unversioned unversionedTypes s of Inl p \<Rightarrow> Inl p | Inr s \<Rightarrow> Inr (None, s)))"
  by (simp add: clientset_AddToScheme_eq addKnownTypes_register)

lemma clientset_AddToScheme_succeeds: "(\<exists>s'. clientset_AddToScheme s = Inr (None, s')) \<longleftrightarrow> compatible s"
proof (cases "register registrations s")
  case (Inl p)
  then have "\<not> (\<forall>(gvk, t) \<in> set registrations. free_for s gvk t)"
    using register_result(1) [OF registrations_ok, of s] by simp
  then show ?thesis using Inl by (auto simp: clientset_AddToScheme_cases compatible_def list_all_iff)
next
  case (Inr s1)
  note r = register_result [OF registrations_ok, of s]
  have "sc_unversionedKinds s1 = sc_unversionedKinds s" using r(2) Inr by blast
  then show ?thesis
    using r(1) Inr unversioned_loop_result(1) [OF unversioned_distinct, of Unversioned s1]
    by (auto simp: clientset_AddToScheme_cases compatible_def list_all_iff split: sum.splits)
qed

lemma map_of_TaskGroup:
  "map_of registrations (WithKind SchemeGroupVersion ''TaskGroup'') = Some TaskGroup_gotype"
  by code_simp

text \<open>C40. Registration is safe to repeat and to combine. Adding the types of the clientset to a scheme whose tables
  agree leaves a scheme whose tables agree, which maps the kinds of the clientset to its types and every other
  kind as before; a new object of kind TaskGroup has the Go type \<open>TaskGroup\<close>, and that type has that kind; and
  adding the types again changes nothing.\<close>

theorem clientset_AddToScheme_registers:
  assumes "scheme_ok s" "clientset_AddToScheme s = Inr (err, s')"
  shows "err = None \<and> scheme_ok s' \<and> sc_gvkToType s' = sc_gvkToType s ++ map_of registrations \<and>
    scheme_New s' (WithKind SchemeGroupVersion ''TaskGroup'') = Inr TaskGroup_gotype \<and>
    (\<exists>gvks unversioned. ObjectKinds s' TaskGroup_gotype = Inr (gvks, unversioned) \<and>
      WithKind SchemeGroupVersion ''TaskGroup'' \<in> set gvks) \<and>
    clientset_AddToScheme s' = Inr (None, s')"
proof -
  let ?k = "WithKind SchemeGroupVersion ''TaskGroup''"
  from assms(2) obtain s1 where s1: "register registrations s = Inr s1"
    "AddUnversionedTypes_loop Unversioned unversionedTypes s1 = Inr s'" "err = None"
    by (auto simp: clientset_AddToScheme_cases split: sum.splits)
  note u = unversioned_loop_result(2) [OF unversioned_distinct s1(2)]
  have eq: "sc_gvkToType s' = sc_gvkToType s1" "sc_typeToGVK s' = sc_typeToGVK s1" "sc_observedVersions s' = sc_observedVersions s1"
    using u by blast+
  have k: "kinds_of s' = kinds_of s1" by (rule ext) (simp add: kinds_of_def eq)
  have ok: "scheme_ok s'" using register_ok [OF s1(1) assms(1)] by (simp add: scheme_ok_def eq k)
  have g: "sc_gvkToType s' = sc_gvkToType s ++ map_of registrations"
    using register_result(2) [OF registrations_ok s1(1)] by (simp add: eq)
  have t: "sc_gvkToType s' ?k = Some TaskGroup_gotype" by (simp add: g map_add_def map_of_TaskGroup)
  then have "?k \<in> set (kinds_of s' TaskGroup_gotype)" using ok by (simp add: scheme_ok_def)
  then have o: "\<exists>gvks unversioned. ObjectKinds s' TaskGroup_gotype = Inr (gvks, unversioned) \<and> ?k \<in> set gvks"
    by (cases "sc_typeToGVK s' TaskGroup_gotype") (auto simp: ObjectKinds_def kinds_of_def)
  have "known s' gvk ty" if "(gvk, ty) \<in> set registrations" for gvk ty
    using register_twice [OF assms(1) registrations_ok s1(1)] that
    unfolding known_def observed_iff eq k by fast
  then have "register registrations s' = Inr s'" by (intro register_known) auto
  moreover have "AddUnversionedTypes_loop Unversioned unversionedTypes s' = Inr s'"
    by (rule unversioned_loop_known) (use u in blast)
  ultimately have "clientset_AddToScheme s' = Inr (None, s')" by (simp add: clientset_AddToScheme_cases)
  with ok g t o s1(3) show ?thesis by (simp add: scheme_New_def)
qed

text \<open>The scheme of the clientsets: the \<open>init\<close> functions do not panic.\<close>

abbreviation core_v1 :: GroupVersion where
  "core_v1 \<equiv> \<lparr>gv_Group = [], gv_Version = ''v1''\<rparr>"

lemma meta_ok: "registrable (meta_registrations core_v1)"
  by code_simp

lemma meta_free:
  "list_all (\<lambda>(gvk, t). map_of (meta_registrations core_v1) gvk = None \<or> map_of (meta_registrations core_v1) gvk = Some t) registrations"
  by code_simp

lemma scheme_ok_New: "scheme_ok NewScheme"
  by (simp add: scheme_ok_def NewScheme_def kinds_of_def)

lemma core_scheme: "\<exists>s0. AddToGroupVersion core_v1 NewScheme = Inr s0 \<and> scheme_ok s0 \<and> compatible s0"
proof -
  have "\<forall>(gvk, t) \<in> set (meta_registrations core_v1). free_for NewScheme gvk t" by (auto simp: free_for_def NewScheme_def)
  then obtain s1 where s1: "register (meta_registrations core_v1) NewScheme = Inr s1"
    using register_result(1) [OF meta_ok] by blast
  note r = register_result(2) [OF meta_ok s1]
  have "\<forall>t \<in> set unversionedTypes. sc_unversionedKinds s1 (gt_Name t) = None \<or> sc_unversionedKinds s1 (gt_Name t) = Some t"
    using r by (simp add: NewScheme_def)
  then obtain s0 where s0: "AddUnversionedTypes_loop Unversioned unversionedTypes s1 = Inr s0"
    using unversioned_loop_result(1) [OF unversioned_distinct] by blast
  note u = unversioned_loop_result(2) [OF unversioned_distinct s0]
  have eq: "sc_gvkToType s0 = sc_gvkToType s1" "sc_typeToGVK s0 = sc_typeToGVK s1" using u by blast+
  have "kinds_of s0 = kinds_of s1" by (rule ext) (simp add: kinds_of_def eq)
  then have "scheme_ok s0" using register_ok [OF s1 scheme_ok_New] by (simp add: scheme_ok_def eq)
  moreover have "sc_gvkToType s0 = map_of (meta_registrations core_v1)" using r by (simp add: eq NewScheme_def)
  then have "list_all (\<lambda>(gvk, t). free_for s0 gvk t) registrations" using meta_free by (simp add: free_for_def)
  moreover have "list_all (\<lambda>t. sc_unversionedKinds s0 (gt_Name t) = None \<or> sc_unversionedKinds s0 (gt_Name t) = Some t) unversionedTypes"
    using u by (simp add: list_all_iff)
  ultimately show ?thesis using s1 s0 by (simp add: AddToGroupVersion_register compatible_def)
qed

lemma clientset_scheme_succeeds:
  "\<exists>s0 s. AddToGroupVersion core_v1 NewScheme = Inr s0 \<and> scheme_ok s0 \<and>
     clientset_AddToScheme s0 = Inr (None, s) \<and> clientset_scheme = Inr s"
proof -
  obtain s0 where s0: "AddToGroupVersion core_v1 NewScheme = Inr s0" "scheme_ok s0" "compatible s0"
    using core_scheme by blast
  then obtain s where "clientset_AddToScheme s0 = Inr (None, s)" using clientset_AddToScheme_succeeds by blast
  then show ?thesis using s0 by (simp add: clientset_scheme_def Must_def)
qed

lemma fake_scheme_eq: "fake_scheme = clientset_scheme"
proof -
  have "fake_AddToScheme = clientset_AddToScheme" by (simp only: fake_AddToScheme_def clientset_AddToScheme_def)
  then show ?thesis unfolding fake_scheme_def clientset_scheme_def by (simp only:)
qed

theorem clientset_AddToScheme_registers_witness:
  "\<exists>s. clientset_scheme = Inr s \<and> fake_scheme = Inr s \<and> scheme_ok s \<and>
     scheme_New s (WithKind SchemeGroupVersion ''TaskGroup'') = Inr TaskGroup_gotype \<and>
     clientset_AddToScheme s = Inr (None, s)"
proof -
  obtain s0 s where "scheme_ok s0" "clientset_AddToScheme s0 = Inr (None, s)" "clientset_scheme = Inr s"
    using clientset_scheme_succeeds by blast
  with clientset_AddToScheme_registers show ?thesis unfolding fake_scheme_eq by blast
qed

end
