(* ===== verification/Listers.thy ===== *)
theory Listers
  imports Client Reconciler
begin

text \<open>
  The listers of TaskGroups: \<open>pkg/client/listers/taskgroup/v1alpha1/taskgroup.go\<close> over the indexer of
  client-go, which the controller uses, and the wrappers of
  \<open>pkg/client/injection/informers/taskgroup/v1alpha1/taskgroup\<close> (and its \<open>filtered\<close> variant), which go
  to the API server at every call. The locale \<open>task_group_lister\<close> is the contract of a lister.

  The indexer is modelled with its namespace index and the operations that keep it; the order in which
  Go ranges over its maps is the parameter \<open>ord\<close>, a permutation of the keys.
\<close>

section \<open>The indexer\<close>

record Indexer =
  ix_items :: "TaskGroup gomap"
  ix_namespaces :: "string list gomap"

definition empty_Indexer :: Indexer where
  "empty_Indexer = \<lparr>ix_items = [], ix_namespaces = []\<rparr>"

abbreviation tg_Name :: "TaskGroup \<Rightarrow> string" where "tg_Name tg \<equiv> om_Name (tgr_Meta tg)"
abbreviation tg_Namespace :: "TaskGroup \<Rightarrow> string" where "tg_Namespace tg \<equiv> om_Namespace (tgr_Meta tg)"

definition MetaNamespaceKeyFunc :: "TaskGroup \<Rightarrow> string" where
  "MetaNamespaceKeyFunc tg = (if length (tg_Namespace tg) > 0 then tg_Namespace tg @ ''/'' @ tg_Name tg else tg_Name tg)"

definition index_keys :: "string list gomap \<Rightarrow> string \<Rightarrow> string list" where
  "index_keys index v = (case map_of index v of None \<Rightarrow> [] | Some ks \<Rightarrow> ks)"

definition deleteFromIndices :: "TaskGroup \<Rightarrow> string \<Rightarrow> Indexer \<Rightarrow> Indexer" where
  "deleteFromIndices obj key ix =
     ix\<lparr>ix_namespaces := gomap_set (tg_Namespace obj) (removeAll key (index_keys (ix_namespaces ix) (tg_Namespace obj)))
       (ix_namespaces ix)\<rparr>"

definition updateIndices :: "TaskGroup option \<Rightarrow> TaskGroup \<Rightarrow> string \<Rightarrow> Indexer \<Rightarrow> Indexer" where
  "updateIndices oldObj newObj key ix =
     (let ix = (case oldObj of None \<Rightarrow> ix | Some old \<Rightarrow> deleteFromIndices old key ix)
      in ix\<lparr>ix_namespaces := gomap_set (tg_Namespace newObj)
           (List.insert key (index_keys (ix_namespaces ix) (tg_Namespace newObj))) (ix_namespaces ix)\<rparr>)"

definition ix_Add :: "TaskGroup \<Rightarrow> Indexer \<Rightarrow> Indexer" where
  "ix_Add obj ix =
     (let key = MetaNamespaceKeyFunc obj;
          oldObject = map_of (ix_items ix) key
      in updateIndices oldObject obj key (ix\<lparr>ix_items := gomap_set key obj (ix_items ix)\<rparr>))"

definition ix_Delete :: "TaskGroup \<Rightarrow> Indexer \<Rightarrow> Indexer" where
  "ix_Delete obj ix =
     (let key = MetaNamespaceKeyFunc obj in
      case map_of (ix_items ix) key of
        None \<Rightarrow> ix
      | Some old \<Rightarrow>
          let ix = deleteFromIndices old key ix
          in ix\<lparr>ix_items := AList.delete key (ix_items ix)\<rparr>)"

text \<open>\<open>GetByKey\<close>, \<open>List\<close> and \<open>Index(NamespaceIndex, ...)\<close>.\<close>

definition GetByKey :: "Indexer \<Rightarrow> string \<Rightarrow> TaskGroup option" where
  "GetByKey ix key = map_of (ix_items ix) key"

definition ix_List :: "(string list \<Rightarrow> string list) \<Rightarrow> Indexer \<Rightarrow> TaskGroup list" where
  "ix_List ord ix = List.map_filter (GetByKey ix) (ord (map fst (ix_items ix)))"

definition ix_Index :: "(string list \<Rightarrow> string list) \<Rightarrow> Indexer \<Rightarrow> string \<Rightarrow> TaskGroup list" where
  "ix_Index ord ix ns = List.map_filter (GetByKey ix) (ord (index_keys (ix_namespaces ix) ns))"

section \<open>Selectors and the listing loops\<close>

record Selector =
  sel_Empty :: bool
  sel_Matches :: "string gomap \<Rightarrow> bool"
  sel_String :: string

definition tg_Labels :: "TaskGroup \<Rightarrow> string gomap" where
  "tg_Labels tg = nil_map (om_Labels (tgr_Meta tg))"

definition select :: "Selector \<Rightarrow> TaskGroup list \<Rightarrow> TaskGroup list" where
  "select selector objs = filter (\<lambda>m. sel_Empty selector \<or> sel_Matches selector (tg_Labels m)) objs"

definition ListAll :: "(string list \<Rightarrow> string list) \<Rightarrow> Indexer \<Rightarrow> Selector \<Rightarrow> TaskGroup list go" where
  "ListAll ord ix selector = (select selector (ix_List ord ix), None)"

definition ListAllByNamespace ::
    "(string list \<Rightarrow> string list) \<Rightarrow> Indexer \<Rightarrow> string \<Rightarrow> Selector \<Rightarrow> TaskGroup list go" where
  "ListAllByNamespace ord ix namespace selector =
     (if namespace = [] then (select selector (ix_List ord ix), None)
      else (select selector (ix_Index ord ix namespace), None))"

section \<open>The lister\<close>

definition taskGroupLister_List :: "(string list \<Rightarrow> string list) \<Rightarrow> Indexer \<Rightarrow> Selector \<Rightarrow> TaskGroup list go" where
  "taskGroupLister_List ord indexer selector = ListAll ord indexer selector"

record taskGroupNamespaceLister =
  nl_indexer :: Indexer
  nl_namespace :: string

definition taskGroupLister_TaskGroups :: "Indexer \<Rightarrow> string \<Rightarrow> taskGroupNamespaceLister" where
  "taskGroupLister_TaskGroups indexer namespace = \<lparr>nl_indexer = indexer, nl_namespace = namespace\<rparr>"

definition namespaceLister_List ::
    "(string list \<Rightarrow> string list) \<Rightarrow> taskGroupNamespaceLister \<Rightarrow> Selector \<Rightarrow> TaskGroup list go" where
  "namespaceLister_List ord s selector = ListAllByNamespace ord (nl_indexer s) (nl_namespace s) selector"

definition GroupResource_String :: "GroupResource \<Rightarrow> string" where
  "GroupResource_String gr = (if gr_Group gr = [] then gr_Resource gr else gr_Resource gr @ ''.'' @ gr_Group gr)"

definition NewNotFound :: "GroupResource \<Rightarrow> string \<Rightarrow> goerror" where
  "NewNotFound gr name = Errorf (GroupResource_String gr @ '' '' @ quote name @ '' not found'')"

definition namespaceLister_Get :: "taskGroupNamespaceLister \<Rightarrow> string \<Rightarrow> TaskGroup option go" where
  "namespaceLister_Get s name =
     (case GetByKey (nl_indexer s) (nl_namespace s @ ''/'' @ name) of
        None \<Rightarrow> (None, Some (NewNotFound (Resource ''taskgroup'') name))
      | Some obj \<Rightarrow> (Some obj, None))"

section \<open>The wrappers\<close>

text \<open>\<open>versioned.Interface\<close>, as far as wrappers and informers use it: \<open>CustomV1alpha1().TaskGroups(ns)\<close>. The
  handle of a watch is opaque.\<close>

record ClientInterface =
  ci_Get :: "string \<Rightarrow> string \<Rightarrow> GetOptions \<Rightarrow> TaskGroup option go"
  ci_List :: "string \<Rightarrow> ListOptions \<Rightarrow> TaskGroupList option go"
  ci_Watch :: "string \<Rightarrow> ListOptions \<Rightarrow> string option go"

record wrapper =
  wr_client :: ClientInterface
  wr_namespace :: string
  wr_resourceVersion :: string

definition withDynamicInformer :: "ClientInterface \<Rightarrow> string \<Rightarrow> wrapper" where
  "withDynamicInformer client resourceVersion =
     \<lparr>wr_client = client, wr_namespace = [], wr_resourceVersion = resourceVersion\<rparr>"

definition wrapper_TaskGroups :: "wrapper \<Rightarrow> string \<Rightarrow> wrapper" where
  "wrapper_TaskGroups w namespace =
     \<lparr>wr_client = wr_client w, wr_namespace = namespace, wr_resourceVersion = wr_resourceVersion w\<rparr>"

definition SetResourceVersion :: "string \<Rightarrow> wrapper \<Rightarrow> wrapper" where
  "SetResourceVersion resourceVersion w = w\<lparr>wr_resourceVersion := resourceVersion\<rparr>"

definition empty_ListOptions :: ListOptions where
  "empty_ListOptions = \<lparr>lo_LabelSelector = [], lo_FieldSelector = [], lo_Watch = False, lo_ResourceVersion = [],
     lo_TimeoutSeconds = None, lo_rest = []\<rparr>"

definition items_of :: "TaskGroupList option go \<Rightarrow> TaskGroup list go" where
  "items_of res =
     (case res of
        (_, Some err) \<Rightarrow> ([], Some err)
      | (lo, None) \<Rightarrow> ((case lo of None \<Rightarrow> [] | Some l \<Rightarrow> tl_Items l), None))"

definition wrapper_List :: "wrapper \<Rightarrow> Selector \<Rightarrow> TaskGroup list go" where
  "wrapper_List w selector =
     items_of (ci_List (wr_client w) (wr_namespace w)
       (empty_ListOptions\<lparr>lo_LabelSelector := sel_String selector, lo_ResourceVersion := wr_resourceVersion w\<rparr>))"

definition wrapper_Get :: "wrapper \<Rightarrow> string \<Rightarrow> TaskGroup option go" where
  "wrapper_Get w name =
     ci_Get (wr_client w) (wr_namespace w) name \<lparr>go_ResourceVersion = wr_resourceVersion w, go_rest = []\<rparr>"

text \<open>The filtered wrapper; \<open>labels.ParseToRequirements\<close> and \<open>Selector.Add\<close> are parameters.\<close>

record filtered_wrapper =
  fw_client :: ClientInterface
  fw_namespace :: string
  fw_selector :: string

definition filtered_TaskGroups :: "filtered_wrapper \<Rightarrow> string \<Rightarrow> filtered_wrapper" where
  "filtered_TaskGroups w namespace =
     \<lparr>fw_client = fw_client w, fw_namespace = namespace, fw_selector = fw_selector w\<rparr>"

definition filtered_List ::
    "(string \<Rightarrow> goerror + 'r list) \<Rightarrow> (Selector \<Rightarrow> 'r list \<Rightarrow> Selector) \<Rightarrow> filtered_wrapper \<Rightarrow> Selector \<Rightarrow> TaskGroup list go" where
  "filtered_List ParseToRequirements selector_Add w selector =
     (case ParseToRequirements (fw_selector w) of
        Inl err \<Rightarrow> ([], Some err)
      | Inr reqs \<Rightarrow>
          let selector = selector_Add selector reqs
          in items_of (ci_List (fw_client w) (fw_namespace w)
               (empty_ListOptions\<lparr>lo_LabelSelector := sel_String selector\<rparr>)))"

definition filtered_Get :: "filtered_wrapper \<Rightarrow> string \<Rightarrow> TaskGroup option go" where
  "filtered_Get w name = ci_Get (fw_client w) (fw_namespace w) name \<lparr>go_ResourceVersion = [], go_rest = []\<rparr>"

section \<open>Keys\<close>

text \<open>Names and namespaces of Kubernetes contain no slash.\<close>

definition valid_part :: "string \<Rightarrow> bool" where
  "valid_part s \<longleftrightarrow> s \<noteq> [] \<and> CHR ''/'' \<notin> set s"

definition valid_object :: "TaskGroup \<Rightarrow> bool" where
  "valid_object tg \<longleftrightarrow> valid_part (tg_Namespace tg) \<and> valid_part (tg_Name tg)"

lemma key_inj:
  assumes "valid_part ns" "valid_part ns'"
  shows "ns @ ''/'' @ n = ns' @ ''/'' @ n' \<longleftrightarrow> ns = ns' \<and> n = n'"
proof
  assume e: "ns @ ''/'' @ n = ns' @ ''/'' @ n'"
  have t: "takeWhile (\<lambda>c. c \<noteq> CHR ''/'') (m @ ''/'' @ k) = m" if "valid_part m" for m k
  proof -
    have "c \<noteq> CHR ''/''" if "c \<in> set m" for c
      using \<open>valid_part m\<close> that by (auto simp: valid_part_def)
    from takeWhile_append2 [of m "\<lambda>c. c \<noteq> CHR ''/''", OF this] show ?thesis by simp
  qed
  have "ns = ns'" using arg_cong [OF e, of "takeWhile (\<lambda>c. c \<noteq> CHR ''/'')"] t assms by simp
  with e show "ns = ns' \<and> n = n'" by simp
qed simp

lemma key_valid: "valid_object tg \<Longrightarrow> MetaNamespaceKeyFunc tg = tg_Namespace tg @ ''/'' @ tg_Name tg"
  by (simp add: MetaNamespaceKeyFunc_def valid_object_def valid_part_def)

lemma key_eq_iff:
  assumes "valid_object tg" "valid_part ns"
  shows "MetaNamespaceKeyFunc tg = ns @ ''/'' @ name \<longleftrightarrow> tg_Namespace tg = ns \<and> tg_Name tg = name"
  using key_inj [of "tg_Namespace tg" ns "tg_Name tg" name] assms by (simp add: key_valid valid_object_def)

section \<open>The invariant of the indexer\<close>

definition objects :: "Indexer \<Rightarrow> TaskGroup set" where
  "objects ix = ran (map_of (ix_items ix))"

text \<open>Every object is stored under its key, and the namespace index has exactly the keys of its objects.\<close>

definition ix_ok :: "Indexer \<Rightarrow> bool" where
  "ix_ok ix \<longleftrightarrow> gomap_wf (ix_items ix) \<and> gomap_wf (ix_namespaces ix) \<and>
     (\<forall>k tg. map_of (ix_items ix) k = Some tg \<longrightarrow> valid_object tg \<and> k = MetaNamespaceKeyFunc tg) \<and>
     (\<forall>ns. distinct (index_keys (ix_namespaces ix) ns) \<and>
        set (index_keys (ix_namespaces ix) ns) =
          {k. \<exists>tg. map_of (ix_items ix) k = Some tg \<and> tg_Namespace tg = ns})"

lemma ix_ok_empty: "ix_ok empty_Indexer"
  by (simp add: ix_ok_def empty_Indexer_def index_keys_def)

lemma ix_okD:
  assumes "ix_ok ix"
  shows "gomap_wf (ix_items ix)" "gomap_wf (ix_namespaces ix)"
    "map_of (ix_items ix) k = Some tg \<Longrightarrow> valid_object tg"
    "map_of (ix_items ix) k = Some tg \<Longrightarrow> k = MetaNamespaceKeyFunc tg"
    "distinct (index_keys (ix_namespaces ix) ns)"
    "set (index_keys (ix_namespaces ix) ns) = {k. \<exists>tg. map_of (ix_items ix) k = Some tg \<and> tg_Namespace tg = ns}"
  using assms unfolding ix_ok_def by blast+

lemma index_keys_set [simp]:
  "index_keys (gomap_set ns ks m) ns' = (if ns' = ns then ks else index_keys m ns')"
  by (simp add: index_keys_def)

lemma ix_ok_delete_index:
  assumes ok: "ix_ok ix" and old: "map_of (ix_items ix) key = Some old"
  defines "ix' \<equiv> deleteFromIndices old key ix"
  shows "gomap_wf (ix_namespaces ix')" "ix_items ix' = ix_items ix"
    "distinct (index_keys (ix_namespaces ix') ns)"
    "set (index_keys (ix_namespaces ix') ns) =
       {k. k \<noteq> key \<and> (\<exists>tg. map_of (ix_items ix) k = Some tg \<and> tg_Namespace tg = ns)}"
proof -
  note d = ix_okD [OF ok]
  show "gomap_wf (ix_namespaces ix')" "ix_items ix' = ix_items ix"
    using d(2) by (simp_all add: ix'_def deleteFromIndices_def)
  show "distinct (index_keys (ix_namespaces ix') ns)"
    using d(5) by (simp add: ix'_def deleteFromIndices_def distinct_removeAll)
  show "set (index_keys (ix_namespaces ix') ns) =
       {k. k \<noteq> key \<and> (\<exists>tg. map_of (ix_items ix) k = Some tg \<and> tg_Namespace tg = ns)}"
    using old by (auto simp: ix'_def deleteFromIndices_def d(6))
qed

lemma ix_ok_Add:
  assumes ok: "ix_ok ix" and v: "valid_object obj"
  shows "ix_ok (ix_Add obj ix)"
    and "map_of (ix_items (ix_Add obj ix)) = (map_of (ix_items ix))(MetaNamespaceKeyFunc obj \<mapsto> obj)"
proof -
  let ?key = "MetaNamespaceKeyFunc obj"
  let ?ix = "ix\<lparr>ix_items := gomap_set ?key obj (ix_items ix)\<rparr>"
  note d = ix_okD [OF ok]
  define ix1 where "ix1 = (case map_of (ix_items ix) ?key of None \<Rightarrow> ix | Some old \<Rightarrow> deleteFromIndices old ?key ix)"
  have i: "gomap_wf (ix_namespaces ix1) \<and> (\<forall>ns. distinct (index_keys (ix_namespaces ix1) ns) \<and>
    set (index_keys (ix_namespaces ix1) ns) =
       {k. k \<noteq> ?key \<and> (\<exists>tg. map_of (ix_items ix) k = Some tg \<and> tg_Namespace tg = ns)})"
  proof (cases "map_of (ix_items ix) ?key")
    case None
    then have "ix1 = ix" by (simp add: ix1_def)
    then show ?thesis using d(2,5,6) None by auto
  next
    case (Some old)
    then have "ix1 = deleteFromIndices old ?key ix" by (simp add: ix1_def)
    then show ?thesis using ix_ok_delete_index [OF ok Some] by simp
  qed
  then have i1: "gomap_wf (ix_namespaces ix1)" "distinct (index_keys (ix_namespaces ix1) ns)"
    "set (index_keys (ix_namespaces ix1) ns) =
       {k. k \<noteq> ?key \<and> (\<exists>tg. map_of (ix_items ix) k = Some tg \<and> tg_Namespace tg = ns)}" for ns
    by blast+
  have del: "deleteFromIndices old ?key ?ix = (deleteFromIndices old ?key ix)\<lparr>ix_items := gomap_set ?key obj (ix_items ix)\<rparr>" for old
    by (simp add: deleteFromIndices_def)
  have add: "ix_Add obj ix = \<lparr>ix_items = gomap_set ?key obj (ix_items ix),
      ix_namespaces = gomap_set (tg_Namespace obj)
        (List.insert ?key (index_keys (ix_namespaces ix1) (tg_Namespace obj))) (ix_namespaces ix1)\<rparr>"
    by (cases "map_of (ix_items ix) ?key") (simp_all add: ix_Add_def updateIndices_def ix1_def Let_def del)
  show "map_of (ix_items (ix_Add obj ix)) = (map_of (ix_items ix))(?key \<mapsto> obj)"
    by (simp add: add)
  show "ix_ok (ix_Add obj ix)"
    unfolding ix_ok_def add
  proof (intro conjI allI impI)
    fix ns
    show "set (index_keys (ix_namespaces \<lparr>ix_items = gomap_set ?key obj (ix_items ix), ix_namespaces = gomap_set (tg_Namespace obj)
        (List.insert ?key (index_keys (ix_namespaces ix1) (tg_Namespace obj))) (ix_namespaces ix1)\<rparr>) ns) =
        {k. \<exists>tg. map_of (ix_items \<lparr>ix_items = gomap_set ?key obj (ix_items ix), ix_namespaces = gomap_set (tg_Namespace obj)
        (List.insert ?key (index_keys (ix_namespaces ix1) (tg_Namespace obj))) (ix_namespaces ix1)\<rparr>) k = Some tg \<and> tg_Namespace tg = ns}"
      by (auto simp: i1(3))
  qed (use d(1,3,4) v i1(1,2) in \<open>auto split: if_splits\<close>)
qed

lemma ix_ok_Delete:
  assumes ok: "ix_ok ix"
  shows "ix_ok (ix_Delete obj ix)"
    and "map_of (ix_items (ix_Delete obj ix)) = (map_of (ix_items ix))(MetaNamespaceKeyFunc obj := None)"
proof -
  let ?key = "MetaNamespaceKeyFunc obj"
  note d = ix_okD [OF ok]
  have "ix_ok (ix_Delete obj ix) \<and> map_of (ix_items (ix_Delete obj ix)) = (map_of (ix_items ix))(?key := None)"
  proof (cases "map_of (ix_items ix) ?key")
    case None
    then show ?thesis using ok by (auto simp: ix_Delete_def Let_def fun_eq_iff)
  next
    case (Some old)
    note i = ix_ok_delete_index [OF ok Some]
    have del: "ix_Delete obj ix = (deleteFromIndices old ?key ix)\<lparr>ix_items := AList.delete ?key (ix_items ix)\<rparr>"
      by (simp add: ix_Delete_def Let_def Some i(2))
    have "map_of (AList.delete ?key (ix_items ix)) = (map_of (ix_items ix))(?key := None)"
      by (simp add: delete_conv')
    then show ?thesis
      unfolding ix_ok_def del using i d(1,3,4) by (auto simp: distinct_delete split: if_splits)
  qed
  then show "ix_ok (ix_Delete obj ix)" "map_of (ix_items (ix_Delete obj ix)) = (map_of (ix_items ix))(?key := None)"
    by blast+
qed

section \<open>The contract of a lister\<close>

definition selected :: "Selector \<Rightarrow> TaskGroup \<Rightarrow> bool" where
  "selected sel tg \<longleftrightarrow> sel_Empty sel \<or> sel_Matches sel (tg_Labels tg)"

locale task_group_lister =
  fixes inv :: "'s \<Rightarrow> bool" and objs :: "'s \<Rightarrow> TaskGroup set"
    and get :: "'s \<Rightarrow> string \<Rightarrow> string \<Rightarrow> TaskGroup option go"
    and list :: "'s \<Rightarrow> string \<Rightarrow> Selector \<Rightarrow> TaskGroup list go"
    and sel_ok :: "'s \<Rightarrow> Selector \<Rightarrow> bool"
  assumes objs_valid: "inv s \<Longrightarrow> tg \<in> objs s \<Longrightarrow> valid_object tg"
    and objs_unique: "inv s \<Longrightarrow> tg \<in> objs s \<Longrightarrow> tg' \<in> objs s \<Longrightarrow>
      tg_Namespace tg = tg_Namespace tg' \<Longrightarrow> tg_Name tg = tg_Name tg' \<Longrightarrow> tg = tg'"
    and get_found: "inv s \<Longrightarrow> tg \<in> objs s \<Longrightarrow> outcome_of (get s (tg_Namespace tg) (tg_Name tg)) = Inr (Some tg)"
    and get_missing: "inv s \<Longrightarrow> valid_part ns \<Longrightarrow> \<not> (\<exists>tg \<in> objs s. tg_Namespace tg = ns \<and> tg_Name tg = name) \<Longrightarrow>
      \<exists>res. outcome_of (get s ns name) = Inl (NewNotFound res name)"
    and list_exact: "inv s \<Longrightarrow> sel_ok s sel \<Longrightarrow> ns = [] \<or> valid_part ns \<Longrightarrow>
      snd (list s ns sel) = None \<and> distinct (fst (list s ns sel)) \<and>
      set (fst (list s ns sel)) = {tg \<in> objs s. (ns = [] \<or> tg_Namespace tg = ns) \<and> selected sel tg}"
begin

lemma get_iff:
  assumes "inv s" "valid_part ns"
  shows "outcome_of (get s ns name) = Inr (Some tg) \<longleftrightarrow> tg \<in> objs s \<and> tg_Namespace tg = ns \<and> tg_Name tg = name"
proof (cases "\<exists>tg \<in> objs s. tg_Namespace tg = ns \<and> tg_Name tg = name")
  case True
  then obtain tg' where "tg' \<in> objs s" "tg_Namespace tg' = ns" "tg_Name tg' = name" by blast
  with get_found [OF assms(1)] objs_unique [OF assms(1)] show ?thesis by fastforce
next
  case False
  with get_missing [OF assms] show ?thesis by fastforce
qed

lemma get_listed:
  assumes "inv s" "valid_part ns" "sel_ok s sel" "sel_Empty sel" "outcome_of (get s ns name) = Inr (Some tg)"
  shows "tg \<in> set (fst (list s ns sel))"
  using list_exact [OF assms(1,3), of ns] assms(2,4,5) get_iff [OF assms(1,2)] by (simp add: selected_def)

end

text \<open>Two listers of the same objects.\<close>

locale lister_pair = a: task_group_lister inv objs get list sel_ok + b: task_group_lister inv' objs' get' list' sel_ok'
  for inv :: "'s \<Rightarrow> bool" and objs get list sel_ok and inv' :: "'t \<Rightarrow> bool" and objs' get' list' sel_ok'
begin

lemma agree:
  assumes "inv s" "inv' t" "objs s = objs' t" "sel_ok s sel" "sel_ok' t sel" "valid_part ns"
  shows "outcome_of (get s ns name) = Inr x \<longleftrightarrow> outcome_of (get' t ns name) = Inr x"
    and "set (fst (list s ns sel)) = set (fst (list' t ns sel))"
    and "length (fst (list s ns sel)) = length (fst (list' t ns sel))"
proof -
  show "outcome_of (get s ns name) = Inr x \<longleftrightarrow> outcome_of (get' t ns name) = Inr x"
  proof (cases "\<exists>tg \<in> objs s. tg_Namespace tg = ns \<and> tg_Name tg = name")
    case True
    then obtain tg where "tg \<in> objs s" "tg_Namespace tg = ns" "tg_Name tg = name" by blast
    then show ?thesis using a.get_found [OF assms(1)] b.get_found [OF assms(2)] assms(3) by metis
  next
    case False
    then show ?thesis using a.get_missing [OF assms(1,6)] b.get_missing [OF assms(2,6)] assms(3) by fastforce
  qed
  show l: "set (fst (list s ns sel)) = set (fst (list' t ns sel))"
    using a.list_exact [OF assms(1,4), of ns] b.list_exact [OF assms(2,5), of ns] assms(3,6) by simp
  show "length (fst (list s ns sel)) = length (fst (list' t ns sel))"
    using a.list_exact [OF assms(1,4), of ns] b.list_exact [OF assms(2,5), of ns] assms(6) l
    by (metis distinct_card)
qed

end

section \<open>The lister over the cache\<close>

record Cache =
  ca_order :: "string list \<Rightarrow> string list"
  ca_indexer :: Indexer

definition cache_ok :: "Cache \<Rightarrow> bool" where
  "cache_ok c \<longleftrightarrow> ix_ok (ca_indexer c) \<and>
     (\<forall>ks. distinct ks \<longrightarrow> distinct (ca_order c ks) \<and> set (ca_order c ks) = set ks)"

abbreviation cache_Get :: "Cache \<Rightarrow> string \<Rightarrow> string \<Rightarrow> TaskGroup option go" where
  "cache_Get c ns name \<equiv> namespaceLister_Get (taskGroupLister_TaskGroups (ca_indexer c) ns) name"

abbreviation cache_List :: "Cache \<Rightarrow> string \<Rightarrow> Selector \<Rightarrow> TaskGroup list go" where
  "cache_List c ns sel \<equiv> namespaceLister_List (ca_order c) (taskGroupLister_TaskGroups (ca_indexer c) ns) sel"

lemma objects_iff:
  assumes "ix_ok ix"
  shows "tg \<in> objects ix \<longleftrightarrow> map_of (ix_items ix) (MetaNamespaceKeyFunc tg) = Some tg"
  using ix_okD(4) [OF assms] by (auto simp: objects_def ran_def)

lemma lookup_iff:
  assumes "ix_ok ix" "valid_part ns"
  shows "map_of (ix_items ix) (ns @ ''/'' @ name) = Some tg \<longleftrightarrow>
    tg \<in> objects ix \<and> tg_Namespace tg = ns \<and> tg_Name tg = name"
  using ix_okD(3,4) [OF assms(1), of "ns @ ''/'' @ name" tg] key_eq_iff [of tg ns name] assms(2)
    objects_iff [OF assms(1)] key_valid
  by (metis ix_okD(3) [OF assms(1)])

lemma listed_keys:
  assumes "ix_ok ix" "distinct ks" "set ks \<subseteq> dom (map_of (ix_items ix))"
  shows "distinct (List.map_filter (GetByKey ix) ks)"
    and "set (List.map_filter (GetByKey ix) ks) = {tg. \<exists>k \<in> set ks. map_of (ix_items ix) k = Some tg}"
proof -
  have m: "List.map_filter (GetByKey ix) ks = map (\<lambda>k. the (GetByKey ix k)) ks"
  proof -
    have "filter (\<lambda>k. GetByKey ix k \<noteq> None) ks = ks"
      by (rule filter_True) (use assms(3) in \<open>auto simp: GetByKey_def\<close>)
    then show ?thesis by (simp add: map_filter_def)
  qed
  have "inj_on (\<lambda>k. the (GetByKey ix k)) (set ks)"
  proof (rule inj_onI)
    fix x y
    assume xy: "x \<in> set ks" "y \<in> set ks" "the (GetByKey ix x) = the (GetByKey ix y)"
    then obtain tg tg' where "map_of (ix_items ix) x = Some tg" "map_of (ix_items ix) y = Some tg'"
      using assms(3) by blast
    moreover from this xy(3) have "tg = tg'" by (simp add: GetByKey_def)
    ultimately show "x = y" using ix_okD(4) [OF assms(1)] by metis
  qed
  then show "distinct (List.map_filter (GetByKey ix) ks)"
    using assms(2) by (simp add: m distinct_map)
  show "set (List.map_filter (GetByKey ix) ks) = {tg. \<exists>k \<in> set ks. map_of (ix_items ix) k = Some tg}"
    unfolding m using assms(3) by (force simp: GetByKey_def)
qed

lemma select_set: "set (select sel l) = {tg \<in> set l. selected sel tg}" "distinct l \<Longrightarrow> distinct (select sel l)"
  by (auto simp: select_def selected_def)

interpretation cached: task_group_lister cache_ok "\<lambda>c. objects (ca_indexer c)" cache_Get cache_List "\<lambda>c sel. True"
proof
  fix c tg tg'
  assume "cache_ok c"
  then have ok: "ix_ok (ca_indexer c)" by (simp add: cache_ok_def)
  show valid: "valid_object tg" if "tg \<in> objects (ca_indexer c)" for tg
    using that ix_okD(3) [OF ok] by (auto simp: objects_iff [OF ok])
  show "tg = tg'" if "tg \<in> objects (ca_indexer c)" "tg' \<in> objects (ca_indexer c)"
      "tg_Namespace tg = tg_Namespace tg'" "tg_Name tg = tg_Name tg'"
  proof -
    have "MetaNamespaceKeyFunc tg = MetaNamespaceKeyFunc tg'" using that(3,4) by (simp add: MetaNamespaceKeyFunc_def)
    with that(1,2) show ?thesis by (simp add: objects_iff [OF ok])
  qed
  show "outcome_of (cache_Get c (tg_Namespace tg) (tg_Name tg)) = Inr (Some tg)" if "tg \<in> objects (ca_indexer c)"
    using that valid [OF that] lookup_iff [OF ok, of "tg_Namespace tg" "tg_Name tg" tg]
    by (simp add: namespaceLister_Get_def taskGroupLister_TaskGroups_def GetByKey_def outcome_of_def valid_object_def)
next
  fix c ns name
  assume c: "cache_ok c" and ns: "valid_part ns"
    and no: "\<not> (\<exists>tg \<in> objects (ca_indexer c). tg_Namespace tg = ns \<and> tg_Name tg = name)"
  have ok: "ix_ok (ca_indexer c)" using c by (simp add: cache_ok_def)
  have "map_of (ix_items (ca_indexer c)) (ns @ ''/'' @ name) = None"
    using lookup_iff [OF ok ns, of name] no by (metis not_None_eq)
  then show "\<exists>res. outcome_of (cache_Get c ns name) = Inl (NewNotFound res name)"
    by (auto simp: namespaceLister_Get_def taskGroupLister_TaskGroups_def GetByKey_def outcome_of_def)
next
  fix c sel ns
  assume c: "cache_ok c"
  let ?ix = "ca_indexer c"
  have ok: "ix_ok ?ix" and ord: "distinct ks \<Longrightarrow> distinct (ca_order c ks) \<and> set (ca_order c ks) = set ks" for ks
    using c by (simp_all add: cache_ok_def)
  note d = ix_okD [OF ok]
  show "snd (cache_List c ns sel) = None \<and> distinct (fst (cache_List c ns sel)) \<and>
      set (fst (cache_List c ns sel)) =
        {tg \<in> objects ?ix. (ns = [] \<or> tg_Namespace tg = ns) \<and> selected sel tg}"
  proof (cases "ns = []")
    case True
    let ?ks = "ca_order c (map fst (ix_items ?ix))"
    have ks: "distinct ?ks" "set ?ks = dom (map_of (ix_items ?ix))"
      using ord [OF d(1)] by (simp_all add: dom_map_of_conv_image_fst)
    have all: "set ?ks \<subseteq> dom (map_of (ix_items ?ix))" using ks(2) by auto
    note l = listed_keys [OF ok ks(1) all]
    have "distinct (ix_List (ca_order c) ?ix)" "set (ix_List (ca_order c) ?ix) = objects ?ix"
      unfolding ix_List_def using l ks(2) by (auto simp: objects_def ran_def)
    then show ?thesis
      using True by (auto simp: namespaceLister_List_def taskGroupLister_TaskGroups_def ListAllByNamespace_def select_set)
  next
    case False
    let ?ks = "ca_order c (index_keys (ix_namespaces ?ix) ns)"
    have ks: "distinct ?ks" "set ?ks = {k. \<exists>tg. map_of (ix_items ?ix) k = Some tg \<and> tg_Namespace tg = ns}"
      using ord [OF d(5)] d(6) by simp_all
    have all: "set ?ks \<subseteq> dom (map_of (ix_items ?ix))" using ks(2) by auto
    note l = listed_keys [OF ok ks(1) all]
    have "distinct (ix_Index (ca_order c) ?ix ns)"
      "set (ix_Index (ca_order c) ?ix ns) = {tg \<in> objects ?ix. tg_Namespace tg = ns}"
      unfolding ix_Index_def using l ks(2) by (auto simp: objects_def ran_def)
    then show ?thesis
      using False by (auto simp: namespaceLister_List_def taskGroupLister_TaskGroups_def ListAllByNamespace_def select_set)
  qed
qed

section \<open>The lister over the API server\<close>

text \<open>A server that stores TaskGroups, reached by the injection client. It understands the text of a
  selector as \<open>rm_matches\<close> says.\<close>

record 'b Remote =
  rm_codec :: "'b Codec"
  rm_objs :: "TaskGroup list"
  rm_matches :: "string \<Rightarrow> string gomap \<Rightarrow> bool"
  rm_version :: string

definition store_server :: "'b Remote \<Rightarrow> Server" where
  "store_server r =
     \<lparr>sv_Get = (\<lambda>ns name opts. case find (\<lambda>tg. tg_Namespace tg = ns \<and> tg_Name tg = name) (rm_objs r) of
        None \<Rightarrow> Inl (NewNotFound (Resource ''taskgroups'') name) | Some tg \<Rightarrow> Inr tg),
      sv_List = (\<lambda>ns opts. Inr (zero_TaskGroupList\<lparr>tl_Items :=
        filter (\<lambda>tg. (ns = [] \<or> tg_Namespace tg = ns) \<and> rm_matches r (lo_LabelSelector opts) (tg_Labels tg)) (rm_objs r)\<rparr>)),
      sv_Create = (\<lambda>ns tg opts. bad_request), sv_Update = (\<lambda>ns tg opts. bad_request),
      sv_Delete = (\<lambda>ns name opts. None), sv_Patch = (\<lambda>ns name pt data opts subs. bad_request)\<rparr>"

definition remote_client :: "'b Remote \<Rightarrow> ClientInterface" where
  "remote_client r =
     \<lparr>ci_Get = (\<lambda>ns. wrap_Get (wrap_TaskGroups (dynamic_of (rm_codec r) (store_server r)) (json_of (rm_codec r)) ns)),
      ci_List = (\<lambda>ns. wrap_List (wrap_TaskGroups (dynamic_of (rm_codec r) (store_server r)) (json_of (rm_codec r)) ns)),
      ci_Watch = (\<lambda>ns. wrap_Watch (wrap_TaskGroups (dynamic_of (rm_codec r) (store_server r)) (json_of (rm_codec r)) ns))\<rparr>"

definition remote_ok :: "'b Remote \<Rightarrow> bool" where
  "remote_ok r \<longleftrightarrow> codec_ok (rm_codec r) \<and> distinct (map MetaNamespaceKeyFunc (rm_objs r)) \<and> list_all valid_object (rm_objs r)"

definition remote_sel_ok :: "'b Remote \<Rightarrow> Selector \<Rightarrow> bool" where
  "remote_sel_ok r sel \<longleftrightarrow> (\<forall>labels. rm_matches r (sel_String sel) labels \<longleftrightarrow> sel_Empty sel \<or> sel_Matches sel labels)"

abbreviation remote_Get :: "'b Remote \<Rightarrow> string \<Rightarrow> string \<Rightarrow> TaskGroup option go" where
  "remote_Get r ns name \<equiv> wrapper_Get (wrapper_TaskGroups (withDynamicInformer (remote_client r) (rm_version r)) ns) name"

abbreviation remote_List :: "'b Remote \<Rightarrow> string \<Rightarrow> Selector \<Rightarrow> TaskGroup list go" where
  "remote_List r ns sel \<equiv> wrapper_List (wrapper_TaskGroups (withDynamicInformer (remote_client r) (rm_version r)) ns) sel"

lemmas wrapper_defs = wrapper_TaskGroups_def withDynamicInformer_def remote_client_def

lemma remote_Get_server:
  assumes "codec_ok (rm_codec r)"
  shows "outcome_of (remote_Get r ns name) =
    map_sum id Some (sv_Get (store_server r) ns name \<lparr>go_ResourceVersion = rm_version r, go_rest = []\<rparr>)"
  using wrap_serves(1) [OF assms] by (simp add: wrapper_Get_def wrapper_defs)

lemma remote_List_server:
  assumes "codec_ok (rm_codec r)"
  shows "remote_List r ns sel =
    (filter (\<lambda>tg. (ns = [] \<or> tg_Namespace tg = ns) \<and> rm_matches r (sel_String sel) (tg_Labels tg)) (rm_objs r), None)"
proof -
  let ?res = "wrap_List (wrap_TaskGroups (dynamic_of (rm_codec r) (store_server r)) (json_of (rm_codec r)) ns)
    (empty_ListOptions\<lparr>lo_LabelSelector := sel_String sel, lo_ResourceVersion := rm_version r\<rparr>)"
  have "outcome_of ?res = map_sum id Some (sv_List (store_server r) ns
      (empty_ListOptions\<lparr>lo_LabelSelector := sel_String sel, lo_ResourceVersion := rm_version r\<rparr>))"
    by (rule wrap_serves(2) [OF assms])
  then have "?res = (Some (zero_TaskGroupList\<lparr>tl_Items :=
      filter (\<lambda>tg. (ns = [] \<or> tg_Namespace tg = ns) \<and> rm_matches r (sel_String sel) (tg_Labels tg)) (rm_objs r)\<rparr>), None)"
    by (cases ?res) (auto simp: outcome_of_def store_server_def split: option.splits)
  then show ?thesis by (simp add: wrapper_List_def wrapper_defs items_of_def)
qed

lemma find_object:
  assumes "distinct (map MetaNamespaceKeyFunc l)" "tg \<in> set l"
  shows "find (\<lambda>x. tg_Namespace x = tg_Namespace tg \<and> tg_Name x = tg_Name tg) l = Some tg"
  using assms
proof (induction l)
  case (Cons a l)
  show ?case
  proof (cases "tg_Namespace a = tg_Namespace tg \<and> tg_Name a = tg_Name tg")
    case True
    then have "MetaNamespaceKeyFunc a = MetaNamespaceKeyFunc tg" by (simp add: MetaNamespaceKeyFunc_def)
    with Cons.prems have "a = tg" by (auto simp: image_iff)
    then show ?thesis by simp
  next
    case False
    with Cons show ?thesis by auto
  qed
qed simp

interpretation remote: task_group_lister remote_ok "\<lambda>r. set (rm_objs r)" remote_Get remote_List remote_sel_ok
proof
  fix r :: "'b Remote" and tg tg' :: TaskGroup
  assume "remote_ok r"
  then have ok: "codec_ok (rm_codec r)" "distinct (map MetaNamespaceKeyFunc (rm_objs r))" "list_all valid_object (rm_objs r)"
    by (simp_all add: remote_ok_def)
  show "valid_object tg" if "tg \<in> set (rm_objs r)"
    using that ok(3) by (simp add: list_all_iff)
  show "outcome_of (remote_Get r (tg_Namespace tg) (tg_Name tg)) = Inr (Some tg)" if "tg \<in> set (rm_objs r)"
    unfolding remote_Get_server [OF ok(1)] using find_object [OF ok(2) that] by (simp add: store_server_def)
  show "tg = tg'" if "tg \<in> set (rm_objs r)" "tg' \<in> set (rm_objs r)" "tg_Namespace tg = tg_Namespace tg'" "tg_Name tg = tg_Name tg'"
  proof -
    from find_object [OF ok(2) that(1)] have "find (\<lambda>x. tg_Namespace x = tg_Namespace tg' \<and> tg_Name x = tg_Name tg') (rm_objs r) = Some tg"
      unfolding that(3,4) .
    with find_object [OF ok(2) that(2)] show ?thesis by simp
  qed
next
  fix r :: "'b Remote" and ns name :: string
  assume "remote_ok r" and no: "\<not> (\<exists>tg \<in> set (rm_objs r). tg_Namespace tg = ns \<and> tg_Name tg = name)"
  then have ok: "codec_ok (rm_codec r)" by (simp add: remote_ok_def)
  have "find (\<lambda>tg. tg_Namespace tg = ns \<and> tg_Name tg = name) (rm_objs r) = None"
    using no by (auto simp: find_None_iff)
  then show "\<exists>res. outcome_of (remote_Get r ns name) = Inl (NewNotFound res name)"
    unfolding remote_Get_server [OF ok] by (auto simp: store_server_def)
next
  fix r :: "'b Remote" and ns :: string and sel
  assume "remote_ok r" and sel: "remote_sel_ok r sel"
  then have ok: "codec_ok (rm_codec r)" "distinct (rm_objs r)" by (simp_all add: remote_ok_def distinct_map)
  show "snd (remote_List r ns sel) = None \<and> distinct (fst (remote_List r ns sel)) \<and>
      set (fst (remote_List r ns sel)) = {tg \<in> set (rm_objs r). (ns = [] \<or> tg_Namespace tg = ns) \<and> selected sel tg}"
    unfolding remote_List_server [OF ok(1)] using ok(2) sel by (auto simp: remote_sel_ok_def selected_def)
qed

interpretation cached_remote: lister_pair
  cache_ok "\<lambda>c. objects (ca_indexer c)" cache_Get cache_List "\<lambda>c sel. True"
  remote_ok "\<lambda>r. set (rm_objs r)" remote_Get remote_List remote_sel_ok
  by unfold_locales

section \<open>Properties\<close>

definition Everything :: Selector where
  "Everything = \<lparr>sel_Empty = True, sel_Matches = (\<lambda>labels. True), sel_String = []\<rparr>"

definition ex_cache :: Cache where
  "ex_cache = \<lparr>ca_order = rev, ca_indexer = ix_Add ex_object empty_Indexer\<rparr>"

definition ex_remote :: "(TaskGroup + TaskGroupList) Remote" where
  "ex_remote = \<lparr>rm_codec = ex_codec, rm_objs = [ex_object], rm_matches = (\<lambda>s labels. s = []), rm_version = []\<rparr>"

lemma ex_object_valid: "valid_object ex_object"
  by code_simp

lemma ex_cache_ok: "cache_ok ex_cache"
  using ix_ok_Add(1) [OF ix_ok_empty ex_object_valid] by (simp add: cache_ok_def ex_cache_def)

lemma ex_cache_objects: "objects (ca_indexer ex_cache) = {ex_object}"
  using ix_ok_Add(2) [OF ix_ok_empty ex_object_valid]
  by (auto simp: objects_def ex_cache_def empty_Indexer_def ran_def split: if_splits)

lemma ex_remote_ok: "remote_ok ex_remote" "remote_sel_ok ex_remote Everything"
  using ex_codec_ok ex_object_valid by (simp_all add: remote_ok_def ex_remote_def remote_sel_ok_def Everything_def)

text \<open>Insert and lookup: after an object is added to the indexer, Get in its namespace finds it under its
  name, after it is deleted Get reports it as not found, and in both cases every other lookup gives what
  it gave before; the invariant that ties objects, keys and the namespace index is kept.\<close>

theorem lister_Get_after_update:
  assumes "ix_ok ix" "valid_object tg" "valid_part ns"
  shows "ix_ok (ix_Add tg ix) \<and> ix_ok (ix_Delete tg ix) \<and>
    namespaceLister_Get (taskGroupLister_TaskGroups (ix_Add tg ix) ns) name =
      (if ns = tg_Namespace tg \<and> name = tg_Name tg then (Some tg, None)
       else namespaceLister_Get (taskGroupLister_TaskGroups ix ns) name) \<and>
    namespaceLister_Get (taskGroupLister_TaskGroups (ix_Delete tg ix) ns) name =
      (if ns = tg_Namespace tg \<and> name = tg_Name tg then (None, Some (NewNotFound (Resource ''taskgroup'') name))
       else namespaceLister_Get (taskGroupLister_TaskGroups ix ns) name)"
  using ix_ok_Add [OF assms(1,2)] ix_ok_Delete [OF assms(1), of tg] key_eq_iff [OF assms(2,3), of name]
  by (auto simp: namespaceLister_Get_def taskGroupLister_TaskGroups_def GetByKey_def)

theorem lister_Get_after_update_witness:
  "namespaceLister_Get (taskGroupLister_TaskGroups (ix_Add ex_object empty_Indexer) ''ns'') ''group'' = (Some ex_object, None)"
proof -
  have "valid_part ''ns''" "tg_Namespace ex_object = ''ns''" "tg_Name ex_object = ''group''"
    by (simp_all add: valid_part_def ex_object_def)
  with lister_Get_after_update [OF ix_ok_empty ex_object_valid, of "''ns''" "''group''"] show ?thesis by simp
qed

text \<open>List of the cached lister is exact: whatever order the indexer's maps are iterated in, it gives
  every cached TaskGroup of the namespace (of all namespaces for the empty one) that the selector
  matches, once, and no other, and reports no error.\<close>

theorem lister_List_exact:
  assumes "cache_ok c" "ns = [] \<or> valid_part ns"
  shows "snd (namespaceLister_List (ca_order c) (taskGroupLister_TaskGroups (ca_indexer c) ns) sel) = None \<and>
    distinct (fst (namespaceLister_List (ca_order c) (taskGroupLister_TaskGroups (ca_indexer c) ns) sel)) \<and>
    set (fst (namespaceLister_List (ca_order c) (taskGroupLister_TaskGroups (ca_indexer c) ns) sel)) =
      {tg \<in> objects (ca_indexer c). (ns = [] \<or> tg_Namespace tg = ns) \<and> selected sel tg}"
  using cached.list_exact [OF assms(1) _ assms(2)] by simp

theorem lister_List_exact_witness:
  "set (fst (namespaceLister_List (ca_order ex_cache) (taskGroupLister_TaskGroups (ca_indexer ex_cache) []) Everything)) =
     {ex_object}"
  using lister_List_exact [OF ex_cache_ok, of "[]" Everything] by (simp add: ex_cache_objects selected_def Everything_def)

text \<open>C25. The two listers behind the same interface agree: if the API server holds the objects of the cache,
  the lister over the cache and the lister that goes through the injection client to the server return the
  same object for a name, or both none, and the same objects for a selector.\<close>

theorem listers_agree:
  assumes "cache_ok c" "remote_ok r" "objects (ca_indexer c) = set (rm_objs r)" "remote_sel_ok r sel" "valid_part ns"
  shows "(outcome_of (namespaceLister_Get (taskGroupLister_TaskGroups (ca_indexer c) ns) name) = Inr x \<longleftrightarrow>
      outcome_of (wrapper_Get (wrapper_TaskGroups (withDynamicInformer (remote_client r) (rm_version r)) ns) name) = Inr x) \<and>
    set (fst (namespaceLister_List (ca_order c) (taskGroupLister_TaskGroups (ca_indexer c) ns) sel)) =
      set (fst (wrapper_List (wrapper_TaskGroups (withDynamicInformer (remote_client r) (rm_version r)) ns) sel)) \<and>
    length (fst (namespaceLister_List (ca_order c) (taskGroupLister_TaskGroups (ca_indexer c) ns) sel)) =
      length (fst (wrapper_List (wrapper_TaskGroups (withDynamicInformer (remote_client r) (rm_version r)) ns) sel))"
  using cached_remote.agree [OF assms(1,2,3) _ assms(4,5)] by simp

theorem listers_agree_witness:
  "length (fst (namespaceLister_List (ca_order ex_cache) (taskGroupLister_TaskGroups (ca_indexer ex_cache) ''ns'') Everything)) =
     length (fst (wrapper_List (wrapper_TaskGroups (withDynamicInformer (remote_client ex_remote) (rm_version ex_remote)) ''ns'') Everything))"
proof -
  have "objects (ca_indexer ex_cache) = set (rm_objs ex_remote)" "valid_part ''ns''"
    by (simp add: ex_cache_objects ex_remote_def, simp add: valid_part_def)
  with listers_agree [OF ex_cache_ok ex_remote_ok(1) _ ex_remote_ok(2)] show ?thesis by blast
qed

end
