(* ===== verification/Informers.thy ===== *)
theory Informers
  imports Listers
begin

text \<open>
  \<open>pkg/client/informers/externalversions\<close>: the shared informer factory (\<open>factory.go\<close>), the TaskGroup
  informer (\<open>taskgroup/v1alpha1/taskgroup.go\<close>) and \<open>ForResource\<close> (\<open>generic.go\<close>). A \<open>reflect.Type\<close> is its
  name. The calls of the factory hold its lock, so each of them is one step of the relation \<open>call\<close>; the
  lemmas are about the states reachable by such calls.

  The informers themselves are library code: an informer is known by a number and by what the factory
  gave it. \<open>fa_runs\<close> logs the statements \<open>go informer.Run(stopCh)\<close> and \<open>fa_created\<close> counts the calls of
  \<open>newFunc\<close>.
\<close>

section \<open>The factory\<close>

type_synonym Duration = int

type_synonym TweakListOptionsFunc = "(ListOptions \<Rightarrow> ListOptions) option"

record Informer =
  in_id :: nat
  in_resync :: Duration
  in_ListFunc :: "ListOptions \<Rightarrow> TaskGroupList option go"
  in_WatchFunc :: "ListOptions \<Rightarrow> string option go"
  in_indexers :: "string list"

record sharedInformerFactory =
  fa_client :: ClientInterface
  fa_namespace :: string
  fa_tweakListOptions :: TweakListOptionsFunc
  fa_defaultResync :: Duration
  fa_customResync :: "Duration gomap"
  fa_informers :: "Informer gomap"
  fa_startedInformers :: "bool gomap"
  fa_created :: nat
  fa_runs :: "nat list"

type_synonym SharedInformerOption = "sharedInformerFactory \<Rightarrow> sharedInformerFactory"

definition WithCustomResyncConfig :: "Duration gomap \<Rightarrow> SharedInformerOption" where
  "WithCustomResyncConfig resyncConfig factory =
     factory\<lparr>fa_customResync := gomap_copy (fa_customResync factory) resyncConfig\<rparr>"

definition WithTweakListOptions :: "TweakListOptionsFunc \<Rightarrow> SharedInformerOption" where
  "WithTweakListOptions tweakListOptions factory = factory\<lparr>fa_tweakListOptions := tweakListOptions\<rparr>"

definition WithNamespace :: "string \<Rightarrow> SharedInformerOption" where
  "WithNamespace namespace factory = factory\<lparr>fa_namespace := namespace\<rparr>"

definition NewSharedInformerFactoryWithOptions ::
    "ClientInterface \<Rightarrow> Duration \<Rightarrow> SharedInformerOption list \<Rightarrow> sharedInformerFactory" where
  "NewSharedInformerFactoryWithOptions client defaultResync options =
     foldl (\<lambda>factory opt. opt factory)
       \<lparr>fa_client = client, fa_namespace = [], fa_tweakListOptions = None, fa_defaultResync = defaultResync,
        fa_customResync = [], fa_informers = [], fa_startedInformers = [], fa_created = 0, fa_runs = []\<rparr>
       options"

definition NewSharedInformerFactory :: "ClientInterface \<Rightarrow> Duration \<Rightarrow> sharedInformerFactory" where
  "NewSharedInformerFactory client defaultResync = NewSharedInformerFactoryWithOptions client defaultResync []"

definition NewFilteredSharedInformerFactory ::
    "ClientInterface \<Rightarrow> Duration \<Rightarrow> string \<Rightarrow> TweakListOptionsFunc \<Rightarrow> sharedInformerFactory" where
  "NewFilteredSharedInformerFactory client defaultResync namespace tweakListOptions =
     NewSharedInformerFactoryWithOptions client defaultResync
       [WithNamespace namespace, WithTweakListOptions tweakListOptions]"

text \<open>The loop of \<open>Start\<close> over the map of informers, in the order it is iterated.\<close>

fun Start_loop :: "(string \<times> Informer) list \<Rightarrow> sharedInformerFactory \<Rightarrow> sharedInformerFactory" where
  "Start_loop [] f = f"
| "Start_loop ((informerType, informer) # rest) f =
     (if map_of (fa_startedInformers f) informerType \<noteq> Some True
      then Start_loop rest (f\<lparr>fa_runs := fa_runs f @ [in_id informer],
             fa_startedInformers := gomap_set informerType True (fa_startedInformers f)\<rparr>)
      else Start_loop rest f)"

definition Start :: "(Informer gomap \<Rightarrow> Informer gomap) \<Rightarrow> sharedInformerFactory \<Rightarrow> sharedInformerFactory" where
  "Start ord f = Start_loop (ord (fa_informers f)) f"

definition WaitForCacheSync :: "(Informer \<Rightarrow> bool) \<Rightarrow> sharedInformerFactory \<Rightarrow> bool gomap" where
  "WaitForCacheSync sync f =
     (let informers = filter (\<lambda>(informerType, informer). map_of (fa_startedInformers f) informerType = Some True)
            (fa_informers f)
      in map (\<lambda>(informType, informer). (informType, sync informer)) informers)"

text \<open>\<open>newFunc\<close> gets the number of the informer it creates beside the client and the resync period.\<close>

definition InformerFor ::
    "string \<Rightarrow> (ClientInterface \<Rightarrow> nat \<Rightarrow> Duration \<Rightarrow> Informer) \<Rightarrow> sharedInformerFactory \<Rightarrow> Informer \<times> sharedInformerFactory" where
  "InformerFor informerType newFunc f =
     (case map_of (fa_informers f) informerType of
        Some informer \<Rightarrow> (informer, f)
      | None \<Rightarrow>
          let resyncPeriod = (case map_of (fa_customResync f) informerType of Some d \<Rightarrow> d | None \<Rightarrow> fa_defaultResync f);
              informer = newFunc (fa_client f) (fa_created f) resyncPeriod
          in (informer, f\<lparr>fa_created := Suc (fa_created f),
                fa_informers := gomap_set informerType informer (fa_informers f)\<rparr>))"

section \<open>The TaskGroup informer\<close>

definition NewFilteredTaskGroupInformer ::
    "ClientInterface \<Rightarrow> nat \<Rightarrow> string \<Rightarrow> Duration \<Rightarrow> string list \<Rightarrow> TweakListOptionsFunc \<Rightarrow> Informer" where
  "NewFilteredTaskGroupInformer client n namespace resyncPeriod indexers tweakListOptions =
     \<lparr>in_id = n, in_resync = resyncPeriod,
      in_ListFunc = (\<lambda>options.
        let options = (case tweakListOptions of Some tweak \<Rightarrow> tweak options | None \<Rightarrow> options)
        in ci_List client namespace options),
      in_WatchFunc = (\<lambda>options.
        let options = (case tweakListOptions of Some tweak \<Rightarrow> tweak options | None \<Rightarrow> options)
        in ci_Watch client namespace options),
      in_indexers = indexers\<rparr>"

definition NewTaskGroupInformer :: "ClientInterface \<Rightarrow> nat \<Rightarrow> string \<Rightarrow> Duration \<Rightarrow> string list \<Rightarrow> Informer" where
  "NewTaskGroupInformer client n namespace resyncPeriod indexers =
     NewFilteredTaskGroupInformer client n namespace resyncPeriod indexers None"

text \<open>\<open>f.Custom()\<close>, then \<open>V1alpha1()\<close> of the group and \<open>TaskGroups()\<close> of the version. Each of them hands on the
  factory, which is the state, with its namespace and its tweak.\<close>

record informer_group =
  ig_namespace :: string
  ig_tweakListOptions :: TweakListOptionsFunc

record informer_version =
  iv_namespace :: string
  iv_tweakListOptions :: TweakListOptionsFunc

record taskGroupInformer =
  ti_tweakListOptions :: TweakListOptionsFunc
  ti_namespace :: string

definition group_New :: "string \<Rightarrow> TweakListOptionsFunc \<Rightarrow> informer_group" where
  "group_New namespace tweakListOptions = \<lparr>ig_namespace = namespace, ig_tweakListOptions = tweakListOptions\<rparr>"

definition version_New :: "string \<Rightarrow> TweakListOptionsFunc \<Rightarrow> informer_version" where
  "version_New namespace tweakListOptions = \<lparr>iv_namespace = namespace, iv_tweakListOptions = tweakListOptions\<rparr>"

definition factory_Custom :: "sharedInformerFactory \<Rightarrow> informer_group" where
  "factory_Custom f = group_New (fa_namespace f) (fa_tweakListOptions f)"

definition group_V1alpha1 :: "informer_group \<Rightarrow> informer_version" where
  "group_V1alpha1 g = version_New (ig_namespace g) (ig_tweakListOptions g)"

definition version_TaskGroups :: "informer_version \<Rightarrow> taskGroupInformer" where
  "version_TaskGroups v = \<lparr>ti_tweakListOptions = iv_tweakListOptions v, ti_namespace = iv_namespace v\<rparr>"

definition Custom_V1alpha1_TaskGroups :: "sharedInformerFactory \<Rightarrow> taskGroupInformer" where
  "Custom_V1alpha1_TaskGroups f = version_TaskGroups (group_V1alpha1 (factory_Custom f))"

lemma Custom_V1alpha1_TaskGroups_eq:
  "Custom_V1alpha1_TaskGroups f = \<lparr>ti_tweakListOptions = fa_tweakListOptions f, ti_namespace = fa_namespace f\<rparr>"
  by (simp add: Custom_V1alpha1_TaskGroups_def version_TaskGroups_def group_V1alpha1_def factory_Custom_def group_New_def
      version_New_def)

definition defaultInformer :: "taskGroupInformer \<Rightarrow> ClientInterface \<Rightarrow> nat \<Rightarrow> Duration \<Rightarrow> Informer" where
  "defaultInformer i client n resyncPeriod =
     NewFilteredTaskGroupInformer client n (ti_namespace i) resyncPeriod [''namespace''] (ti_tweakListOptions i)"

definition TaskGroup_type :: string where "TaskGroup_type = ''*v1alpha1.TaskGroup''"

definition taskGroupInformer_Informer :: "taskGroupInformer \<Rightarrow> sharedInformerFactory \<Rightarrow> Informer \<times> sharedInformerFactory" where
  "taskGroupInformer_Informer i f = InformerFor TaskGroup_type (defaultInformer i) f"

text \<open>\<open>Lister()\<close> asks for the informer as well; the lister reads the indexer of the informer with the number.\<close>

definition taskGroupInformer_Lister :: "taskGroupInformer \<Rightarrow> sharedInformerFactory \<Rightarrow> nat \<times> sharedInformerFactory" where
  "taskGroupInformer_Lister i f = (case taskGroupInformer_Informer i f of (informer, f) \<Rightarrow> (in_id informer, f))"

record genericInformer =
  gi_informer :: Informer
  gi_resource :: GroupResource

definition ForResource ::
    "GroupVersionResource \<Rightarrow> (GroupVersionResource \<Rightarrow> string) \<Rightarrow> sharedInformerFactory \<Rightarrow>
       (goerror + genericInformer) \<times> sharedInformerFactory" where
  "ForResource resource gvr_String f =
     (if resource = \<lparr>gvr_Group = gv_Group SchemeGroupVersion, gvr_Version = gv_Version SchemeGroupVersion,
          gvr_Resource = ''taskgroups''\<rparr>
      then (let (informer, f) = taskGroupInformer_Informer (Custom_V1alpha1_TaskGroups f) f
            in (Inr \<lparr>gi_informer = informer,
                  gi_resource = \<lparr>gr_Group = gvr_Group resource, gr_Resource = gvr_Resource resource\<rparr>\<rparr>, f))
      else (Inl (Errorf (''no informer found for '' @ gvr_String resource)), f))"

section \<open>Calls\<close>

text \<open>The calls that change a factory, with any \<open>newFunc\<close> that creates the informer it is asked for.\<close>

definition creates :: "(ClientInterface \<Rightarrow> nat \<Rightarrow> Duration \<Rightarrow> Informer) \<Rightarrow> bool" where
  "creates newFunc \<longleftrightarrow> (\<forall>client n d. in_id (newFunc client n d) = n \<and> in_resync (newFunc client n d) = d)"

inductive call :: "sharedInformerFactory \<Rightarrow> sharedInformerFactory \<Rightarrow> bool" where
  InformerFor_call: "creates newFunc \<Longrightarrow> call f (snd (InformerFor ty newFunc f))"
| Start_call: "mset (ord (fa_informers f)) = mset (fa_informers f) \<Longrightarrow> call f (Start ord f)"

inductive reachable :: "sharedInformerFactory \<Rightarrow> bool" where
  new: "fa_informers f = [] \<Longrightarrow> fa_startedInformers f = [] \<Longrightarrow> fa_created f = 0 \<Longrightarrow> fa_runs f = [] \<Longrightarrow> reachable f"
| call: "reachable f \<Longrightarrow> call f f' \<Longrightarrow> reachable f'"

inductive_cases callE: "call f f'"

section \<open>The invariant\<close>

definition requested :: "sharedInformerFactory \<Rightarrow> string \<Rightarrow> Informer option" where
  "requested f = map_of (fa_informers f)"

definition started :: "sharedInformerFactory \<Rightarrow> string \<Rightarrow> bool" where
  "started f ty \<longleftrightarrow> map_of (fa_startedInformers f) ty = Some True"

text \<open>One informer per type, numbered in the order of creation, and one run per started type.\<close>

definition factory_ok :: "sharedInformerFactory \<Rightarrow> bool" where
  "factory_ok f \<longleftrightarrow>
     gomap_wf (fa_informers f) \<and>
     (\<forall>ty i. requested f ty = Some i \<longrightarrow> in_id i < fa_created f) \<and>
     (\<forall>ty ty' i i'. requested f ty = Some i \<longrightarrow> requested f ty' = Some i' \<longrightarrow> in_id i = in_id i' \<longrightarrow> ty = ty') \<and>
     length (fa_informers f) = fa_created f \<and>
     (\<forall>ty. started f ty \<longrightarrow> requested f ty \<noteq> None) \<and>
     distinct (fa_runs f) \<and>
     set (fa_runs f) = {in_id i |i. \<exists>ty. requested f ty = Some i \<and> started f ty}"

lemma factory_okD:
  assumes "factory_ok f"
  shows "gomap_wf (fa_informers f)" "requested f ty = Some i \<Longrightarrow> in_id i < fa_created f"
    "requested f ty = Some i \<Longrightarrow> requested f ty' = Some i' \<Longrightarrow> in_id i = in_id i' \<Longrightarrow> ty = ty'"
    "length (fa_informers f) = fa_created f" "started f ty \<Longrightarrow> requested f ty \<noteq> None" "distinct (fa_runs f)"
    "set (fa_runs f) = {in_id i |i. \<exists>ty. requested f ty = Some i \<and> started f ty}"
proof -
  note a = assms [unfolded factory_ok_def]
  show "gomap_wf (fa_informers f)" using a by (elim conjE)
  show "length (fa_informers f) = fa_created f" using a by (elim conjE)
  show "distinct (fa_runs f)" using a by (elim conjE)
  show "set (fa_runs f) = {in_id i |i. \<exists>ty. requested f ty = Some i \<and> started f ty}" using a by (elim conjE)
  show "in_id i < fa_created f" if "requested f ty = Some i" using a that by (elim conjE) metis
  show "ty = ty'" if "requested f ty = Some i" "requested f ty' = Some i'" "in_id i = in_id i'"
    using a that by (elim conjE) metis
  show "requested f ty \<noteq> None" if "started f ty" using a that by (elim conjE) metis
qed

lemma factory_okI:
  assumes "gomap_wf (fa_informers f)" "\<And>ty i. requested f ty = Some i \<Longrightarrow> in_id i < fa_created f"
    "\<And>ty ty' i i'. requested f ty = Some i \<Longrightarrow> requested f ty' = Some i' \<Longrightarrow> in_id i = in_id i' \<Longrightarrow> ty = ty'"
    "length (fa_informers f) = fa_created f" "\<And>ty. started f ty \<Longrightarrow> requested f ty \<noteq> None" "distinct (fa_runs f)"
    "set (fa_runs f) = {in_id i |i. \<exists>ty. requested f ty = Some i \<and> started f ty}"
  shows "factory_ok f"
  unfolding factory_ok_def
proof (intro conjI allI impI)
  show "gomap_wf (fa_informers f)" "length (fa_informers f) = fa_created f" "distinct (fa_runs f)"
    "set (fa_runs f) = {in_id i |i. \<exists>ty. requested f ty = Some i \<and> started f ty}"
    by (fact assms)+
qed (fact assms | rule assms(2,3,5), assumption+)+

lemma start_one:
  assumes ok: "factory_ok f" and i: "requested f ty = Some i" and n: "\<not> started f ty"
  defines "f' \<equiv> f\<lparr>fa_runs := fa_runs f @ [in_id i], fa_startedInformers := gomap_set ty True (fa_startedInformers f)\<rparr>"
  shows "factory_ok f'" "requested f' = requested f" "started f' ty' \<longleftrightarrow> started f ty' \<or> ty' = ty"
proof -
  note d = factory_okD [OF ok]
  show r: "requested f' = requested f" by (simp add: requested_def f'_def)
  have s: "started f' ty' \<longleftrightarrow> started f ty' \<or> ty' = ty" for ty'
    by (auto simp: started_def f'_def)
  show "started f' ty' \<longleftrightarrow> started f ty' \<or> ty' = ty" by (rule s)
  have "in_id i \<notin> set (fa_runs f)"
  proof
    assume "in_id i \<in> set (fa_runs f)"
    then obtain ty' i' where "in_id i = in_id i'" "requested f ty' = Some i'" "started f ty'"
      unfolding d(7) by blast
    with d(3) [OF i] n show False by blast
  qed
  then have runs: "distinct (fa_runs f')" using d(6) by (simp add: f'_def)
  have "set (fa_runs f') = {in_id i |i. \<exists>ty. requested f' ty = Some i \<and> started f' ty}"
  proof -
    have "set (fa_runs f') = insert (in_id i) {in_id i |i. \<exists>ty. requested f ty = Some i \<and> started f ty}"
      by (simp add: f'_def d(7))
    moreover have "(\<exists>t. requested f' t = Some j \<and> started f' t) \<longleftrightarrow>
        (\<exists>t. requested f t = Some j \<and> started f t) \<or> j = i" for j
      unfolding r s using i by auto
    ultimately show ?thesis by auto
  qed
  then show "factory_ok f'"
  proof (intro factory_okI)
    show "gomap_wf (fa_informers f')" "length (fa_informers f') = fa_created f'" using d(1,4) by (simp_all add: f'_def)
    show "in_id j < fa_created f'" if "requested f' t = Some j" for t j
      using that d(2) by (simp add: r) (simp add: f'_def)
    show "t = t'" if "requested f' t = Some j" "requested f' t' = Some j'" "in_id j = in_id j'" for t t' j j'
      using d(3) [of t j t' j'] that unfolding r .
    show "requested f' t \<noteq> None" if "started f' t" for t
      using that d(5) [of t] i unfolding r s by auto
  qed (use runs in assumption)+
qed

lemma Start_loop_ok:
  assumes "factory_ok f" "\<And>ty i. (ty, i) \<in> set l \<Longrightarrow> requested f ty = Some i"
  shows "factory_ok (Start_loop l f) \<and> requested (Start_loop l f) = requested f \<and>
    (\<forall>ty. started (Start_loop l f) ty \<longleftrightarrow> started f ty \<or> ty \<in> fst ` set l)"
  using assms
proof (induction l f rule: Start_loop.induct)
  case (2 ty i rest f)
  show ?case
  proof (cases "started f ty")
    case True
    with 2(2-) show ?thesis by (auto simp: started_def)
  next
    case False
    let ?f = "f\<lparr>fa_runs := fa_runs f @ [in_id i], fa_startedInformers := gomap_set ty True (fa_startedInformers f)\<rparr>"
    have i: "requested f ty = Some i" using 2(4) by simp
    note o = start_one [OF 2(3) i False]
    have "factory_ok (Start_loop rest ?f) \<and> requested (Start_loop rest ?f) = requested ?f \<and>
        (\<forall>ty. started (Start_loop rest ?f) ty \<longleftrightarrow> started ?f ty \<or> ty \<in> fst ` set rest)"
      by (rule 2(1)) (use False o(1,2) 2(4) in \<open>auto simp: started_def\<close>)
    then show ?thesis using False o(2,3) by (auto simp: started_def)
  qed
qed simp

lemma Start_ok:
  assumes "factory_ok f" "mset (ord (fa_informers f)) = mset (fa_informers f)"
  shows "factory_ok (Start ord f)" "requested (Start ord f) = requested f"
    "started (Start ord f) ty \<longleftrightarrow> requested f ty \<noteq> None"
proof -
  have s: "set (ord (fa_informers f)) = set (fa_informers f)" using mset_eq_setD [OF assms(2)] .
  then have "(ty, i) \<in> set (ord (fa_informers f)) \<Longrightarrow> requested f ty = Some i" for ty i
    using factory_okD(1) [OF assms(1)] by (simp add: requested_def)
  note l = Start_loop_ok [where l = "ord (fa_informers f)", OF assms(1) this]
  show "factory_ok (Start ord f)" "requested (Start ord f) = requested f"
    using l unfolding Start_def by blast+
  have "started (Start ord f) ty \<longleftrightarrow> started f ty \<or> ty \<in> fst ` set (fa_informers f)"
    using l unfolding Start_def s by blast
  also have "ty \<in> fst ` set (fa_informers f) \<longleftrightarrow> requested f ty \<noteq> None"
    by (auto simp: requested_def map_of_eq_None_iff)
  finally show "started (Start ord f) ty \<longleftrightarrow> requested f ty \<noteq> None"
    using factory_okD(5) [OF assms(1)] by blast
qed

lemma InformerFor_ok:
  fixes ty :: string
  assumes ok: "factory_ok f" and c: "creates newFunc"
  defines "f' \<equiv> snd (InformerFor ty newFunc f)"
  shows "factory_ok f'" "requested f' ty = Some (fst (InformerFor ty newFunc f))"
    "requested f ty' = Some i \<Longrightarrow> requested f' ty' = Some i"
proof -
  note d = factory_okD [OF ok]
  have "factory_ok f' \<and> requested f' ty = Some (fst (InformerFor ty newFunc f)) \<and>
      (\<forall>ty' i. requested f ty' = Some i \<longrightarrow> requested f' ty' = Some i)"
  proof (cases "requested f ty")
    case (Some i)
    then show ?thesis using ok by (simp add: f'_def InformerFor_def requested_def)
  next
    case None
    let ?d = "case map_of (fa_customResync f) ty of Some d \<Rightarrow> d | None \<Rightarrow> fa_defaultResync f"
    let ?i = "newFunc (fa_client f) (fa_created f) ?d"
    have f': "f' = f\<lparr>fa_created := Suc (fa_created f), fa_informers := gomap_set ty ?i (fa_informers f)\<rparr>"
      and r: "fst (InformerFor ty newFunc f) = ?i"
      using None by (simp_all add: f'_def InformerFor_def requested_def Let_def)
    have cr: "fa_created f' = Suc (fa_created f)" by (simp add: f')
    have id: "in_id ?i = fa_created f" using c by (simp add: creates_def)
    have req: "requested f' ty' = (if ty' = ty then Some ?i else requested f ty')" for ty'
      by (simp add: requested_def f')
    have st: "started f' ty' = started f ty'" for ty' by (simp add: started_def f')
    have "ty \<notin> fst ` set (fa_informers f)"
      using None by (simp add: requested_def map_of_eq_None_iff)
    then have len: "length (fa_informers f') = fa_created f'"
      using d(4) by (simp add: f' gomap_set_fresh)
    have "set (fa_runs f') = {in_id i |i. \<exists>ty. requested f' ty = Some i \<and> started f' ty}"
    proof -
      have "fa_runs f' = fa_runs f" by (simp add: f')
      moreover have "requested f' t = Some j \<and> started f' t \<longleftrightarrow> requested f t = Some j \<and> started f t" for t j
        using d(5) [of t] None by (cases "t = ty") (auto simp: req st)
      ultimately show ?thesis by (simp only: d(7))
    qed
    moreover have "requested f' t = Some i \<Longrightarrow> in_id i < fa_created f'" for t i
      using d(2) [of t i] id by (auto simp: req cr split: if_splits)
    moreover have "requested f' t = Some i \<Longrightarrow> requested f' t' = Some i' \<Longrightarrow> in_id i = in_id i' \<Longrightarrow> t = t'" for t t' i i'
      using d(2) [of t i] d(2) [of t' i'] d(3) [of t i t' i'] id by (auto simp: req split: if_splits)
    moreover have "started f' t \<Longrightarrow> requested f' t \<noteq> None" for t
      using d(5) by (simp add: req st)
    moreover have "gomap_wf (fa_informers f')" "distinct (fa_runs f')"
      using d(1,6) by (simp_all add: f')
    ultimately have "factory_ok f'" using len by (intro factory_okI)
    then show ?thesis using None by (simp add: r req)
  qed
  then show "factory_ok f'" "requested f' ty = Some (fst (InformerFor ty newFunc f))"
    "requested f ty' = Some i \<Longrightarrow> requested f' ty' = Some i"
    by blast+
qed

lemma call_ok:
  assumes "call f f'" "factory_ok f"
  shows "factory_ok f'" "requested f ty = Some i \<Longrightarrow> requested f' ty = Some i"
  using assms by (auto elim!: callE simp: InformerFor_ok Start_ok)

lemma reachable_ok: "reachable f \<Longrightarrow> factory_ok f"
proof (induction rule: reachable.induct)
  case (new f)
  then show ?case by (simp add: factory_ok_def requested_def started_def)
qed (rule call_ok)

lemma calls_keep:
  assumes "call\<^sup>*\<^sup>* f f'" "reachable f" "requested f ty = Some i"
  shows "reachable f' \<and> requested f' ty = Some i"
  using assms
proof (induction rule: rtranclp_induct)
  case (step g h)
  then show ?case using call_ok(2) [OF step(2) reachable_ok] reachable.call [OF _ step(2)] by blast
qed simp

lemma new_reachable:
  "reachable (NewSharedInformerFactory c d)" "reachable (NewFilteredSharedInformerFactory c d ns tweak)"
  by (simp_all add: NewSharedInformerFactory_def NewFilteredSharedInformerFactory_def
      NewSharedInformerFactoryWithOptions_def WithNamespace_def WithTweakListOptions_def reachable.new)

lemma defaultInformer_creates: "creates (defaultInformer i)"
  by (simp add: creates_def defaultInformer_def NewFilteredTaskGroupInformer_def)

lemma Start_loop_idle: "(\<And>ty i. (ty, i) \<in> set l \<Longrightarrow> started f ty) \<Longrightarrow> Start_loop l f = f"
  by (induction l f rule: Start_loop.induct) (auto simp: started_def)

lemma requested_mem: "(ty, i) \<in> set (fa_informers f) \<Longrightarrow> requested f ty \<noteq> None"
  unfolding requested_def map_of_eq_None_iff by (force simp: image_iff)

section \<open>Properties\<close>

text \<open>C31. In every state of a factory that calls of \<open>InformerFor\<close> and \<open>Start\<close> lead to, in whatever order,
  there is one informer per requested type and none was created twice, and the informers that were run
  are exactly those of the started types, each once.\<close>

theorem factory_runs_once:
  assumes "reachable f"
  shows "fa_created f = card (dom (requested f)) \<and> inj_on (\<lambda>ty. in_id (the (requested f ty))) (dom (requested f)) \<and>
    distinct (fa_runs f) \<and>
    set (fa_runs f) = {in_id i |i. \<exists>ty. requested f ty = Some i \<and> started f ty}"
proof -
  note d = factory_okD [OF reachable_ok [OF assms]]
  have "dom (requested f) = fst ` set (fa_informers f)"
    by (simp add: requested_def dom_map_of_conv_image_fst)
  moreover have "card (fst ` set (fa_informers f)) = length (fa_informers f)"
    using d(1) by (metis distinct_card length_map list.set_map)
  ultimately have "fa_created f = card (dom (requested f))" using d(4) by simp
  moreover have "inj_on (\<lambda>ty. in_id (the (requested f ty))) (dom (requested f))"
    by (rule inj_onI) (use d(3) in force)
  ultimately show ?thesis using d(6,7) by blast
qed

definition ex_factory :: sharedInformerFactory where
  "ex_factory = NewFilteredSharedInformerFactory (remote_client ex_remote) 600 ''ns'' None"

definition ex_started :: sharedInformerFactory where
  "ex_started = Start id (snd (taskGroupInformer_Informer (Custom_V1alpha1_TaskGroups ex_factory) ex_factory))"

lemma ex_reachable: "reachable ex_factory" "reachable ex_started"
proof -
  show f: "reachable ex_factory" by (simp add: ex_factory_def new_reachable)
  show "reachable ex_started"
    unfolding ex_started_def taskGroupInformer_Informer_def
    by (rule reachable.call [OF reachable.call [OF f InformerFor_call [OF defaultInformer_creates]] Start_call]) simp
qed

theorem factory_runs_once_witness: "distinct (fa_runs ex_started) \<and> fa_runs ex_started = [0]"
proof -
  have "fa_runs ex_started = [0]" by code_simp
  then show ?thesis using factory_runs_once [OF ex_reachable(2)] by blast
qed

text \<open>The TaskGroup informer is shared: what the first request of it gives is given to every later
  request, by whatever calls in between, and to \<open>ForResource\<close>, which do not change the factory any more.\<close>

theorem informer_is_shared:
  assumes "reachable f" "taskGroupInformer_Informer ti f = (i, f1)" "call\<^sup>*\<^sup>* f1 f'"
  shows "taskGroupInformer_Informer ti' f' = (i, f') \<and>
    ForResource \<lparr>gvr_Group = ''custom.tekton.dev'', gvr_Version = ''v1alpha1'', gvr_Resource = ''taskgroups''\<rparr> show_gvr f' =
      (Inr \<lparr>gi_informer = i, gi_resource = \<lparr>gr_Group = ''custom.tekton.dev'', gr_Resource = ''taskgroups''\<rparr>\<rparr>, f')"
proof -
  have f1: "f1 = snd (InformerFor TaskGroup_type (defaultInformer ti) f)"
    and i: "i = fst (InformerFor TaskGroup_type (defaultInformer ti) f)"
    using assms(2) by (simp_all add: taskGroupInformer_Informer_def)
  have "reachable f1"
    unfolding f1 by (rule reachable.call [OF assms(1) InformerFor_call [OF defaultInformer_creates]])
  moreover have "requested f1 TaskGroup_type = Some i"
    unfolding f1 i by (rule InformerFor_ok(2) [OF reachable_ok [OF assms(1)] defaultInformer_creates])
  ultimately have "requested f' TaskGroup_type = Some i"
    using calls_keep [OF assms(3)] by blast
  then have "taskGroupInformer_Informer t f' = (i, f')" for t
    by (simp add: taskGroupInformer_Informer_def InformerFor_def requested_def)
  then show ?thesis by (simp add: ForResource_def SchemeGroupVersion_def GroupName_def)
qed

theorem informer_is_shared_witness:
  "fst (taskGroupInformer_Informer \<lparr>ti_tweakListOptions = None, ti_namespace = ''other''\<rparr> ex_started) =
     fst (taskGroupInformer_Informer (Custom_V1alpha1_TaskGroups ex_factory) ex_factory)"
proof -
  let ?ti = "Custom_V1alpha1_TaskGroups ex_factory"
  have "call (snd (taskGroupInformer_Informer ?ti ex_factory)) ex_started"
    unfolding ex_started_def by (rule Start_call) simp
  then have "call\<^sup>*\<^sup>* (snd (taskGroupInformer_Informer ?ti ex_factory)) ex_started" by (rule r_into_rtranclp)
  from informer_is_shared [OF ex_reachable(1) prod.collapse [symmetric] this]
  show ?thesis by simp
qed

text \<open>\<open>Start\<close> starts every informer that was requested before it, a second \<open>Start\<close> changes nothing, and
  \<open>WaitForCacheSync\<close> after it reports on exactly the requested types.\<close>

theorem Start_starts_all:
  assumes "reachable f" "mset (ord (fa_informers f)) = mset (fa_informers f)" "mset (ord' (fa_informers f)) = mset (fa_informers f)"
  shows "{ty. started (Start ord f) ty} = dom (requested f) \<and>
    Start ord' (Start ord f) = Start ord f \<and>
    WaitForCacheSync sync (Start ord f) = map (\<lambda>(ty, i). (ty, sync i)) (fa_informers f)"
proof -
  note o = Start_ok [where ord = ord, OF reachable_ok [OF assms(1)] assms(2)]
  have inf: "fa_informers (Start_loop l g) = fa_informers g" for l g
    by (induction l g rule: Start_loop.induct) auto
  have s: "started (Start ord f) ty" if "(ty, i) \<in> set (fa_informers f)" for ty i
    using requested_mem [OF that] o(3) by blast
  have "Start ord' (Start ord f) = Start ord f"
    unfolding Start_def [of ord'] inf [of "ord (fa_informers f)" f, folded Start_def]
    by (rule Start_loop_idle) (use s mset_eq_setD [OF assms(3)] in blast)
  moreover have "filter (\<lambda>(ty, i). map_of (fa_startedInformers (Start ord f)) ty = Some True) (fa_informers f) = fa_informers f"
    by (rule filter_True) (use s in \<open>auto simp: started_def\<close>)
  then have "WaitForCacheSync sync (Start ord f) = map (\<lambda>(ty, i). (ty, sync i)) (fa_informers f)"
    by (simp add: WaitForCacheSync_def inf [of "ord (fa_informers f)" f, folded Start_def])
  moreover have "{ty. started (Start ord f) ty} = dom (requested f)" using o(3) by auto
  ultimately show ?thesis by blast
qed

theorem Start_starts_all_witness: "Start rev ex_started = ex_started"
proof -
  let ?f = "snd (taskGroupInformer_Informer (Custom_V1alpha1_TaskGroups ex_factory) ex_factory)"
  have "reachable ?f"
    unfolding taskGroupInformer_Informer_def
    by (rule reachable.call [OF ex_reachable(1) InformerFor_call [OF defaultInformer_creates]])
  from Start_starts_all [OF this, of id rev] show ?thesis by (simp add: ex_started_def)
qed

end
