(* ===== verification/Injection.thy ===== *)
theory Injection
  imports Informers
begin

text \<open>
  Dependency injection: how client, factories and informers get into the context of the controller.
  \<open>pkg/client/injection\<close> with its packages \<open>client\<close>, \<open>informers/factory\<close>, \<open>informers/factory/filtered\<close>,
  \<open>informers/taskgroup/v1alpha1/taskgroup\<close> and its \<open>filtered\<close>, and \<open>SetupInformers\<close> and \<open>SetupDynamic\<close> of
  \<open>knative.dev/pkg/injection\<close>, which run what those packages register.

  A context is the list of its values, the last one first. A factory is shared by everyone who holds its
  pointer: factories live in a list, the heap, and a pointer is an index. A function that may panic returns
  the message (\<open>Inl\<close>) or its result (\<open>Inr\<close>).
\<close>

section \<open>Contexts\<close>

text \<open>One constructor per key type; the two \<open>Key\<close>s with a selector are compared with it. A client is a
  \<open>versioned.Interface\<close>: a clientset that does not change (\<open>Client_val\<close>), or a pointer to a fake clientset with the
  way it answers as such an interface (\<open>Fake_val\<close>).\<close>

datatype ctx_key =
    client_Key
  | factory_Key
  | filteredfactory_Key string
  | LabelKey
  | informer_Key
  | filteredinformer_Key string
  | dynamicclient_Key
  | nsKey
  | cfgKey
  | rvKey
  | resyncPeriodKey

datatype TaskGroupInformer =
    Factory_informer nat taskGroupInformer
  | Wrapper_informer wrapper
  | Filtered_informer filtered_wrapper

datatype ('cfg, 'u, 'ul) ctx_value =
    Client_val ClientInterface
  | Fake_val nat ClientInterface
  | Factory_val nat
  | Selectors_val "string list"
  | Informer_val TaskGroupInformer
  | Dynamic_val "('u, 'ul) Dynamic"
  | Config_val 'cfg
  | String_val string
  | Duration_val Duration

type_synonym ('cfg, 'u, 'ul) ctx = "(ctx_key \<times> ('cfg, 'u, 'ul) ctx_value) list"

type_synonym 'a may_panic = "string + 'a"

definition WithValue :: "('cfg, 'u, 'ul) ctx \<Rightarrow> ctx_key \<Rightarrow> ('cfg, 'u, 'ul) ctx_value \<Rightarrow> ('cfg, 'u, 'ul) ctx" where
  "WithValue ctx k v = (k, v) # ctx"

definition Value :: "('cfg, 'u, 'ul) ctx \<Rightarrow> ctx_key \<Rightarrow> ('cfg, 'u, 'ul) ctx_value option" where
  "Value ctx k = map_of ctx k"

lemma Value_WithValue [simp]: "Value (WithValue ctx k v) k' = (if k' = k then Some v else Value ctx k')"
  by (simp add: Value_def WithValue_def)

definition bad_type :: "'a may_panic" where "bad_type = Inl ''interface conversion''"

text \<open>What knative's packages keep in a context.\<close>

definition GetNamespaceScope :: "('cfg, 'u, 'ul) ctx \<Rightarrow> string" where
  "GetNamespaceScope ctx = (case Value ctx nsKey of Some (String_val ns) \<Rightarrow> ns | _ \<Rightarrow> [])"

definition HasNamespaceScope :: "('cfg, 'u, 'ul) ctx \<Rightarrow> bool" where
  "HasNamespaceScope ctx \<longleftrightarrow> GetNamespaceScope ctx \<noteq> []"

definition GetConfig :: "('cfg, 'u, 'ul) ctx \<Rightarrow> 'cfg option" where
  "GetConfig ctx = (case Value ctx cfgKey of Some (Config_val cfg) \<Rightarrow> Some cfg | _ \<Rightarrow> None)"

definition GetResourceVersion :: "('cfg, 'u, 'ul) ctx \<Rightarrow> string" where
  "GetResourceVersion ctx = (case Value ctx rvKey of Some (String_val rv) \<Rightarrow> rv | _ \<Rightarrow> [])"

definition DefaultResyncPeriod :: Duration where
  "DefaultResyncPeriod = 10 * 3600 * 1000000000"

definition GetResyncPeriod :: "('cfg, 'u, 'ul) ctx \<Rightarrow> Duration" where
  "GetResyncPeriod ctx = (case Value ctx resyncPeriodKey of Some (Duration_val d) \<Rightarrow> d | _ \<Rightarrow> DefaultResyncPeriod)"

section \<open>The client\<close>

text \<open>The client over the dynamic one, as \<open>versioned.Interface\<close>.\<close>

definition wrap_interface :: "('u, 'ul) Dynamic \<Rightarrow> ('b, 'u, 'ul) Json \<Rightarrow> ClientInterface" where
  "wrap_interface dyn json =
     \<lparr>ci_Get = (\<lambda>ns. wrap_Get (wrap_TaskGroups dyn json ns)),
      ci_List = (\<lambda>ns. wrap_List (wrap_TaskGroups dyn json ns)),
      ci_Watch = (\<lambda>ns. wrap_Watch (wrap_TaskGroups dyn json ns))\<rparr>"

definition withClientFromConfig ::
    "('cfg \<Rightarrow> ClientInterface may_panic) \<Rightarrow> ('cfg, 'u, 'ul) ctx \<Rightarrow> 'cfg \<Rightarrow> ('cfg, 'u, 'ul) ctx may_panic" where
  "withClientFromConfig NewForConfigOrDie ctx cfg =
     (case NewForConfigOrDie cfg of
        Inl p \<Rightarrow> Inl p
      | Inr c \<Rightarrow> Inr (WithValue ctx client_Key (Client_val c)))"

definition dynamicclient_Get :: "('cfg, 'u, 'ul) ctx \<Rightarrow> ('u, 'ul) Dynamic may_panic" where
  "dynamicclient_Get ctx =
     (case Value ctx dynamicclient_Key of
        None \<Rightarrow> Inl ''Unable to fetch dynamic.Interface from context.''
      | Some (Dynamic_val d) \<Rightarrow> Inr d
      | _ \<Rightarrow> bad_type)"

definition withClientFromDynamic ::
    "('b, 'u, 'ul) Json \<Rightarrow> ('cfg, 'u, 'ul) ctx \<Rightarrow> ('cfg, 'u, 'ul) ctx may_panic" where
  "withClientFromDynamic json ctx =
     (case dynamicclient_Get ctx of
        Inl p \<Rightarrow> Inl p
      | Inr dyn \<Rightarrow> Inr (WithValue ctx client_Key (Client_val (wrap_interface dyn json))))"

definition no_client :: string where
  "no_client = ''Unable to fetch github.com/openshift-pipelines/tekton-task-group/pkg/client/clientset/versioned.Interface from context.''"

definition client_Get :: "('cfg, 'u, 'ul) ctx \<Rightarrow> ClientInterface may_panic" where
  "client_Get ctx =
     (case Value ctx client_Key of
        None \<Rightarrow>
          (if GetConfig ctx = None
           then Inl (no_client @ '' This context is not the application context (which is typically given to constructors via sharedmain).'')
           else Inl no_client)
      | Some (Client_val c) \<Rightarrow> Inr c
      | Some (Fake_val p c) \<Rightarrow> Inr c
      | _ \<Rightarrow> bad_type)"

section \<open>The factories\<close>

type_synonym heap = "sharedInformerFactory list"

definition factory_withInformerFactory ::
    "('cfg, 'u, 'ul) ctx \<Rightarrow> heap \<Rightarrow> (('cfg, 'u, 'ul) ctx \<times> heap) may_panic" where
  "factory_withInformerFactory ctx h =
     (case client_Get ctx of
        Inl p \<Rightarrow> Inl p
      | Inr c \<Rightarrow>
          let opts = (if HasNamespaceScope ctx then [WithNamespace (GetNamespaceScope ctx)] else []);
              f = NewSharedInformerFactoryWithOptions c (GetResyncPeriod ctx) opts
          in Inr (WithValue ctx factory_Key (Factory_val (length h)), h @ [f]))"

definition factory_Get :: "('cfg, 'u, 'ul) ctx \<Rightarrow> nat may_panic" where
  "factory_Get ctx =
     (case Value ctx factory_Key of
        None \<Rightarrow> Inl ''Unable to fetch github.com/openshift-pipelines/tekton-task-group/pkg/client/informers/externalversions.SharedInformerFactory from context.''
      | Some (Factory_val f) \<Rightarrow> Inr f
      | _ \<Rightarrow> bad_type)"

definition WithSelectors :: "('cfg, 'u, 'ul) ctx \<Rightarrow> string list \<Rightarrow> ('cfg, 'u, 'ul) ctx" where
  "WithSelectors ctx selector = WithValue ctx LabelKey (Selectors_val selector)"

definition labels_of :: "('cfg, 'u, 'ul) ctx \<Rightarrow> string list may_panic" where
  "labels_of ctx =
     (case Value ctx LabelKey of
        None \<Rightarrow> Inl ''Unable to fetch labelkey from context.''
      | Some (Selectors_val l) \<Rightarrow> Inr l
      | _ \<Rightarrow> bad_type)"

text \<open>The loop \<open>for _, selector := range labelSelectors\<close>. The module is of Go 1.16, where the loop has one
  variable \<open>selector\<close> for all its iterations: the closure given to \<open>WithTweakListOptions\<close> captures that
  variable, and when an informer calls it the loop has ended. The value it then has is the argument
  \<open>captured\<close>; the key of the context is made from the value of the iteration.\<close>

fun filteredfactory_loop ::
    "ClientInterface \<Rightarrow> string \<Rightarrow> string list \<Rightarrow> ('cfg, 'u, 'ul) ctx \<Rightarrow> heap \<Rightarrow> ('cfg, 'u, 'ul) ctx \<times> heap" where
  "filteredfactory_loop c captured [] ctx h = (ctx, h)"
| "filteredfactory_loop c captured (selector # selectors) ctx h =
     (let opts = [];
          opts = (if HasNamespaceScope ctx then opts @ [WithNamespace (GetNamespaceScope ctx)] else opts);
          opts = opts @ [WithTweakListOptions (Some (\<lambda>l. l\<lparr>lo_LabelSelector := captured\<rparr>))];
          f = NewSharedInformerFactoryWithOptions c (GetResyncPeriod ctx) opts
      in filteredfactory_loop c captured selectors
           (WithValue ctx (filteredfactory_Key selector) (Factory_val (length h))) (h @ [f]))"

definition filteredfactory_withInformerFactory ::
    "('cfg, 'u, 'ul) ctx \<Rightarrow> heap \<Rightarrow> (('cfg, 'u, 'ul) ctx \<times> heap) may_panic" where
  "filteredfactory_withInformerFactory ctx h =
     (case client_Get ctx of
        Inl p \<Rightarrow> Inl p
      | Inr c \<Rightarrow>
          (case labels_of ctx of
             Inl p \<Rightarrow> Inl p
           | Inr labelSelectors \<Rightarrow>
               Inr (filteredfactory_loop c (last labelSelectors) labelSelectors ctx h)))"

definition filteredfactory_Get :: "('cfg, 'u, 'ul) ctx \<Rightarrow> string \<Rightarrow> nat may_panic" where
  "filteredfactory_Get ctx selector =
     (case Value ctx (filteredfactory_Key selector) of
        None \<Rightarrow> Inl (''Unable to fetch github.com/openshift-pipelines/tekton-task-group/pkg/client/informers/externalversions.SharedInformerFactory with selector '' @ selector @ '' from context.'')
      | Some (Factory_val f) \<Rightarrow> Inr f
      | _ \<Rightarrow> bad_type)"

section \<open>The informers\<close>

text \<open>\<open>inf.Informer()\<close> on each implementation; the informer of a wrapper is a fresh one that never lists.\<close>

definition never :: Informer where
  "never = \<lparr>in_id = 0, in_resync = 0, in_ListFunc = (\<lambda>opts. (None, None)), in_WatchFunc = (\<lambda>opts. (None, None)),
     in_indexers = []\<rparr>"

definition informer_of :: "TaskGroupInformer \<Rightarrow> heap \<Rightarrow> Informer \<times> heap" where
  "informer_of tginf h =
     (case tginf of
        Factory_informer p i \<Rightarrow> (case taskGroupInformer_Informer i (h ! p) of (informer, f) \<Rightarrow> (informer, h[p := f]))
      | Wrapper_informer w \<Rightarrow> (never, h)
      | Filtered_informer w \<Rightarrow> (never, h))"

definition informer_withInformer ::
    "('cfg, 'u, 'ul) ctx \<Rightarrow> heap \<Rightarrow> (('cfg, 'u, 'ul) ctx \<times> Informer \<times> heap) may_panic" where
  "informer_withInformer ctx h =
     (case factory_Get ctx of
        Inl p \<Rightarrow> Inl p
      | Inr f \<Rightarrow>
          let tginf = Factory_informer f (Custom_V1alpha1_TaskGroups (h ! f));
              (informer, h) = informer_of tginf h
          in Inr (WithValue ctx informer_Key (Informer_val tginf), informer, h))"

definition informer_withDynamicInformer :: "('cfg, 'u, 'ul) ctx \<Rightarrow> ('cfg, 'u, 'ul) ctx may_panic" where
  "informer_withDynamicInformer ctx =
     (case client_Get ctx of
        Inl p \<Rightarrow> Inl p
      | Inr c \<Rightarrow>
          let tginf = Wrapper_informer (withDynamicInformer c (GetResourceVersion ctx))
          in Inr (WithValue ctx informer_Key (Informer_val tginf)))"

definition informer_Get :: "('cfg, 'u, 'ul) ctx \<Rightarrow> TaskGroupInformer may_panic" where
  "informer_Get ctx =
     (case Value ctx informer_Key of
        None \<Rightarrow> Inl ''Unable to fetch github.com/openshift-pipelines/tekton-task-group/pkg/client/informers/externalversions/taskgroup/v1alpha1.TaskGroupInformer from context.''
      | Some (Informer_val tginf) \<Rightarrow> Inr tginf
      | _ \<Rightarrow> bad_type)"

fun filteredinformer_loop ::
    "string list \<Rightarrow> ('cfg, 'u, 'ul) ctx \<Rightarrow> Informer list \<Rightarrow> heap \<Rightarrow>
       (('cfg, 'u, 'ul) ctx \<times> Informer list \<times> heap) may_panic" where
  "filteredinformer_loop [] ctx infs h = Inr (ctx, infs, h)"
| "filteredinformer_loop (selector # selectors) ctx infs h =
     (case filteredfactory_Get ctx selector of
        Inl p \<Rightarrow> Inl p
      | Inr f \<Rightarrow>
          let tginf = Factory_informer f (Custom_V1alpha1_TaskGroups (h ! f));
              ctx = WithValue ctx (filteredinformer_Key selector) (Informer_val tginf);
              (informer, h) = informer_of tginf h
          in filteredinformer_loop selectors ctx (infs @ [informer]) h)"

definition filteredinformer_withInformer ::
    "('cfg, 'u, 'ul) ctx \<Rightarrow> heap \<Rightarrow> (('cfg, 'u, 'ul) ctx \<times> Informer list \<times> heap) may_panic" where
  "filteredinformer_withInformer ctx h =
     (case labels_of ctx of Inl p \<Rightarrow> Inl p | Inr labelSelectors \<Rightarrow> filteredinformer_loop labelSelectors ctx [] h)"

fun filtereddynamic_loop :: "string list \<Rightarrow> ('cfg, 'u, 'ul) ctx \<Rightarrow> ('cfg, 'u, 'ul) ctx may_panic" where
  "filtereddynamic_loop [] ctx = Inr ctx"
| "filtereddynamic_loop (selector # selectors) ctx =
     (case client_Get ctx of
        Inl p \<Rightarrow> Inl p
      | Inr c \<Rightarrow>
          let tginf = Filtered_informer \<lparr>fw_client = c, fw_namespace = [], fw_selector = selector\<rparr>
          in filtereddynamic_loop selectors (WithValue ctx (filteredinformer_Key selector) (Informer_val tginf)))"

definition filteredinformer_withDynamicInformer :: "('cfg, 'u, 'ul) ctx \<Rightarrow> ('cfg, 'u, 'ul) ctx may_panic" where
  "filteredinformer_withDynamicInformer ctx =
     (case labels_of ctx of Inl p \<Rightarrow> Inl p | Inr labelSelectors \<Rightarrow> filtereddynamic_loop labelSelectors ctx)"

definition filteredinformer_Get :: "('cfg, 'u, 'ul) ctx \<Rightarrow> string \<Rightarrow> TaskGroupInformer may_panic" where
  "filteredinformer_Get ctx selector =
     (case Value ctx (filteredinformer_Key selector) of
        None \<Rightarrow> Inl (''Unable to fetch github.com/openshift-pipelines/tekton-task-group/pkg/client/informers/externalversions/taskgroup/v1alpha1.TaskGroupInformer with selector '' @ selector @ '' from context.'')
      | Some (Informer_val tginf) \<Rightarrow> Inr tginf
      | _ \<Rightarrow> bad_type)"

section \<open>Running the injectors\<close>

text \<open>\<open>injection.impl\<close>: what the \<open>init\<close> functions of the linked packages register. No ducks are registered.\<close>

record ('cfg, 'u, 'ul) impl =
  im_clients :: "(('cfg, 'u, 'ul) ctx \<Rightarrow> 'cfg \<Rightarrow> ('cfg, 'u, 'ul) ctx may_panic) list"
  im_factories :: "(('cfg, 'u, 'ul) ctx \<Rightarrow> heap \<Rightarrow> (('cfg, 'u, 'ul) ctx \<times> heap) may_panic) list"
  im_informers :: "(('cfg, 'u, 'ul) ctx \<Rightarrow> heap \<Rightarrow> (('cfg, 'u, 'ul) ctx \<times> Informer \<times> heap) may_panic) list"
  im_filteredInformers :: "(('cfg, 'u, 'ul) ctx \<Rightarrow> heap \<Rightarrow> (('cfg, 'u, 'ul) ctx \<times> Informer list \<times> heap) may_panic) list"

fun setup_clients ::
    "(('cfg, 'u, 'ul) ctx \<Rightarrow> 'cfg \<Rightarrow> ('cfg, 'u, 'ul) ctx may_panic) list \<Rightarrow> 'cfg \<Rightarrow> ('cfg, 'u, 'ul) ctx \<Rightarrow>
       ('cfg, 'u, 'ul) ctx may_panic" where
  "setup_clients [] cfg ctx = Inr ctx"
| "setup_clients (ci # cis) cfg ctx = (case ci ctx cfg of Inl p \<Rightarrow> Inl p | Inr ctx \<Rightarrow> setup_clients cis cfg ctx)"

fun setup_factories ::
    "(('cfg, 'u, 'ul) ctx \<Rightarrow> heap \<Rightarrow> (('cfg, 'u, 'ul) ctx \<times> heap) may_panic) list \<Rightarrow> ('cfg, 'u, 'ul) ctx \<Rightarrow> heap \<Rightarrow>
       (('cfg, 'u, 'ul) ctx \<times> heap) may_panic" where
  "setup_factories [] ctx h = Inr (ctx, h)"
| "setup_factories (ifi # ifis) ctx h =
     (case ifi ctx h of Inl p \<Rightarrow> Inl p | Inr (ctx, h) \<Rightarrow> setup_factories ifis ctx h)"

fun setup_informers ::
    "(('cfg, 'u, 'ul) ctx \<Rightarrow> heap \<Rightarrow> (('cfg, 'u, 'ul) ctx \<times> Informer \<times> heap) may_panic) list \<Rightarrow> ('cfg, 'u, 'ul) ctx \<Rightarrow>
       Informer list \<Rightarrow> heap \<Rightarrow> (('cfg, 'u, 'ul) ctx \<times> Informer list \<times> heap) may_panic" where
  "setup_informers [] ctx informers h = Inr (ctx, informers, h)"
| "setup_informers (ii # iis) ctx informers h =
     (case ii ctx h of Inl p \<Rightarrow> Inl p | Inr (ctx, tginf, h) \<Rightarrow> setup_informers iis ctx (informers @ [tginf]) h)"

fun setup_filtered ::
    "(('cfg, 'u, 'ul) ctx \<Rightarrow> heap \<Rightarrow> (('cfg, 'u, 'ul) ctx \<times> Informer list \<times> heap) may_panic) list \<Rightarrow> ('cfg, 'u, 'ul) ctx \<Rightarrow>
       Informer list \<Rightarrow> heap \<Rightarrow> (('cfg, 'u, 'ul) ctx \<times> Informer list \<times> heap) may_panic" where
  "setup_filtered [] ctx informers h = Inr (ctx, informers, h)"
| "setup_filtered (fii # fiis) ctx informers h =
     (case fii ctx h of Inl p \<Rightarrow> Inl p | Inr (ctx, infs, h) \<Rightarrow> setup_filtered fiis ctx (informers @ infs) h)"

definition SetupInformers ::
    "('cfg, 'u, 'ul) impl \<Rightarrow> ('cfg, 'u, 'ul) ctx \<Rightarrow> 'cfg \<Rightarrow> heap \<Rightarrow>
       (('cfg, 'u, 'ul) ctx \<times> Informer list \<times> heap) may_panic" where
  "SetupInformers i ctx cfg h =
     (case setup_clients (im_clients i) cfg ctx of
        Inl p \<Rightarrow> Inl p
      | Inr ctx \<Rightarrow>
          (case setup_factories (im_factories i) ctx h of
             Inl p \<Rightarrow> Inl p
           | Inr (ctx, h) \<Rightarrow>
               (case setup_informers (im_informers i) ctx [] h of
                  Inl p \<Rightarrow> Inl p
                | Inr (ctx, informers, h) \<Rightarrow> setup_filtered (im_filteredInformers i) ctx informers h)))"

text \<open>What the \<open>init\<close> functions of this repository register with \<open>injection.Default\<close>, in a binary that links
  the filtered packages (\<open>filtered\<close>) or not.\<close>

definition Default :: "('cfg \<Rightarrow> ClientInterface may_panic) \<Rightarrow> bool \<Rightarrow> ('cfg, 'u, 'ul) impl" where
  "Default NewForConfigOrDie filtered =
     \<lparr>im_clients = [withClientFromConfig NewForConfigOrDie],
      im_factories = factory_withInformerFactory # (if filtered then [filteredfactory_withInformerFactory] else []),
      im_informers = [informer_withInformer],
      im_filteredInformers = (if filtered then [filteredinformer_withInformer] else [])\<rparr>"

section \<open>What the injectors leave in a context\<close>

lemma GetConfig_frame [simp]: "k \<noteq> cfgKey \<Longrightarrow> GetConfig (WithValue ctx k v) = GetConfig ctx"
  by (simp add: GetConfig_def)

lemma ctx_frame [simp]:
  "k \<noteq> nsKey \<Longrightarrow> GetNamespaceScope (WithValue ctx k v) = GetNamespaceScope ctx"
  "k \<noteq> resyncPeriodKey \<Longrightarrow> GetResyncPeriod (WithValue ctx k v) = GetResyncPeriod ctx"
  "k \<noteq> LabelKey \<Longrightarrow> labels_of (WithValue ctx k v) = labels_of ctx"
  "k \<noteq> client_Key \<Longrightarrow> k \<noteq> cfgKey \<Longrightarrow> client_Get (WithValue ctx k v) = client_Get ctx"
  "client_Get (WithValue ctx client_Key (Client_val c)) = Inr c"
  "client_Get (WithValue ctx client_Key (Fake_val p c)) = Inr c"
  by (auto simp: GetNamespaceScope_def GetResyncPeriod_def labels_of_def client_Get_def)

lemma client_Get_cong:
  "Value ctx' client_Key = Value ctx client_Key \<Longrightarrow> Value ctx' cfgKey = Value ctx cfgKey \<Longrightarrow> client_Get ctx' = client_Get ctx"
  by (simp only: client_Get_def GetConfig_def)

text \<open>A factory that lists the TaskGroups of a namespace through a client, with a tweak.\<close>

abbreviation tweaked :: "TweakListOptionsFunc \<Rightarrow> ListOptions \<Rightarrow> ListOptions" where
  "tweaked tweak \<equiv> (\<lambda>opts. case tweak of Some t \<Rightarrow> t opts | None \<Rightarrow> opts)"

definition listing :: "ClientInterface \<Rightarrow> string \<Rightarrow> TweakListOptionsFunc \<Rightarrow> sharedInformerFactory \<Rightarrow> bool" where
  "listing c ns tweak f \<longleftrightarrow>
     fa_client f = c \<and> fa_namespace f = ns \<and> fa_tweakListOptions f = tweak \<and>
     (\<forall>i. requested f TaskGroup_type = Some i \<longrightarrow> in_ListFunc i = (\<lambda>opts. ci_List c ns (tweaked tweak opts)))"

abbreviation lists :: "TaskGroupInformer \<Rightarrow> heap \<Rightarrow> ListOptions \<Rightarrow> TaskGroupList option go" where
  "lists tginf h \<equiv> in_ListFunc (fst (informer_of tginf h))"

definition ns_opts :: "('cfg, 'u, 'ul) ctx \<Rightarrow> SharedInformerOption list" where
  "ns_opts ctx = (if HasNamespaceScope ctx then [WithNamespace (GetNamespaceScope ctx)] else [])"

definition last_opts :: "string \<Rightarrow> SharedInformerOption list" where
  "last_opts captured = [WithTweakListOptions (Some (\<lambda>l. l\<lparr>lo_LabelSelector := captured\<rparr>))]"

lemma new_factory_lists:
  "listing c (GetNamespaceScope ctx) None (NewSharedInformerFactoryWithOptions c d (ns_opts ctx))"
  "listing c (GetNamespaceScope ctx) (Some (\<lambda>l. l\<lparr>lo_LabelSelector := captured\<rparr>))
     (NewSharedInformerFactoryWithOptions c d (ns_opts ctx @ last_opts captured))"
  by (simp_all add: listing_def NewSharedInformerFactoryWithOptions_def ns_opts_def last_opts_def WithNamespace_def
      WithTweakListOptions_def requested_def HasNamespaceScope_def)

lemma informer_lists:
  assumes "listing c ns tweak f" "taskGroupInformer_Informer (Custom_V1alpha1_TaskGroups f) f = (i, f')"
  shows "listing c ns tweak f'" "in_ListFunc i = (\<lambda>opts. ci_List c ns (tweaked tweak opts))"
  using assms
  by (auto simp: listing_def requested_def taskGroupInformer_Informer_def InformerFor_def Custom_V1alpha1_TaskGroups_eq
      defaultInformer_def NewFilteredTaskGroupInformer_def Let_def split: option.splits if_splits)

lemma informer_of_lists:
  assumes "listing c ns tweak (h ! p)" "p < length h"
    and "informer_of (Factory_informer p (Custom_V1alpha1_TaskGroups (h ! p))) h = (i, h')"
  shows "in_ListFunc i = (\<lambda>opts. ci_List c ns (tweaked tweak opts))"
    "listing c' ns' tweak' (h ! q) \<Longrightarrow> q < length h \<Longrightarrow> listing c' ns' tweak' (h' ! q)" "length h' = length h"
proof -
  obtain f' where f: "taskGroupInformer_Informer (Custom_V1alpha1_TaskGroups (h ! p)) (h ! p) = (i, f')" "h' = h[p := f']"
    using assms(3) by (auto simp: informer_of_def split: prod.splits)
  show "in_ListFunc i = (\<lambda>opts. ci_List c ns (tweaked tweak opts))" by (rule informer_lists(2) [OF assms(1) f(1)])
  show "length h' = length h" by (simp add: f(2))
  show "listing c' ns' tweak' (h' ! q)" if "listing c' ns' tweak' (h ! q)" "q < length h"
  proof (cases "q = p")
    case True
    with that informer_lists(1) [OF _ f(1), of c' ns' tweak'] assms(2) show ?thesis by (simp add: f(2))
  next
    case False
    with that show ?thesis by (simp add: f(2))
  qed
qed

lemma filteredfactory_loop_result:
  assumes "filteredfactory_loop c captured sels ctx h = (ctx', h')"
  defines "F \<equiv> NewSharedInformerFactoryWithOptions c (GetResyncPeriod ctx) (ns_opts ctx @ last_opts captured)"
  shows "h' = h @ replicate (length sels) F \<and>
    (\<forall>k. (\<forall>s. k \<noteq> filteredfactory_Key s) \<longrightarrow> Value ctx' k = Value ctx k) \<and>
    (\<forall>s \<in> set sels. \<exists>p. filteredfactory_Get ctx' s = Inr p \<and> length h \<le> p \<and> p < length h') \<and>
    (\<forall>s. s \<notin> set sels \<longrightarrow> filteredfactory_Get ctx' s = filteredfactory_Get ctx s)"
  using assms(1) unfolding F_def
proof (induction c captured sels ctx h rule: filteredfactory_loop.induct)
  case (2 c captured sel sels ctx h)
  let ?F = "NewSharedInformerFactoryWithOptions c (GetResyncPeriod ctx) (ns_opts ctx @ last_opts captured)"
  let ?ctx = "WithValue ctx (filteredfactory_Key sel) (Factory_val (length h))"
  have o: "ns_opts ?ctx = ns_opts ctx" by (simp add: ns_opts_def HasNamespaceScope_def)
  have e: "filteredfactory_loop c captured sels ?ctx (h @ [?F]) = (ctx', h')"
    using "2.prems" by (simp add: Let_def ns_opts_def last_opts_def split: if_splits)
  have g: "filteredfactory_Get ?ctx s = (if s = sel then Inr (length h) else filteredfactory_Get ctx s)" for s
    by (simp add: filteredfactory_Get_def)
  have IH: "h' = (h @ [?F]) @ replicate (length sels) ?F \<and>
    (\<forall>k. (\<forall>s. k \<noteq> filteredfactory_Key s) \<longrightarrow> Value ctx' k = Value ?ctx k) \<and>
    (\<forall>s \<in> set sels. \<exists>p. filteredfactory_Get ctx' s = Inr p \<and> length (h @ [?F]) \<le> p \<and> p < length h') \<and>
    (\<forall>s. s \<notin> set sels \<longrightarrow> filteredfactory_Get ctx' s = filteredfactory_Get ?ctx s)"
    using "2.IH" [OF refl refl refl] e o by (simp add: ns_opts_def last_opts_def split: if_splits)
  then have l: "length h' = length h + Suc (length sels)" and h': "h' = h @ replicate (length (sel # sels)) ?F" by simp_all
  have "\<exists>p. filteredfactory_Get ctx' s = Inr p \<and> length h \<le> p \<and> p < length h'" if "s \<in> set (sel # sels)" for s
  proof (cases "s \<in> set sels")
    case True
    with IH obtain p where "filteredfactory_Get ctx' s = Inr p" "length (h @ [?F]) \<le> p" "p < length h'" by blast
    then show ?thesis by (intro exI [of _ p]) simp
  next
    case False
    with that IH g have "filteredfactory_Get ctx' s = Inr (length h)" by simp
    then show ?thesis using l by simp
  qed
  with h' IH g show ?case by simp
qed simp

text \<open>The key of an informer holds one whose factory lists.\<close>

definition serves ::
    "ClientInterface \<Rightarrow> string \<Rightarrow> TweakListOptionsFunc \<Rightarrow> heap \<Rightarrow> TaskGroupInformer may_panic \<Rightarrow> bool" where
  "serves c ns tweak h r \<longleftrightarrow>
     (\<exists>p. r = Inr (Factory_informer p \<lparr>ti_tweakListOptions = tweak, ti_namespace = ns\<rparr>) \<and> p < length h \<and>
       listing c ns tweak (h ! p))"

lemma listing_group: "listing c ns tweak f \<Longrightarrow> Custom_V1alpha1_TaskGroups f = \<lparr>ti_tweakListOptions = tweak, ti_namespace = ns\<rparr>"
  by (simp add: listing_def Custom_V1alpha1_TaskGroups_eq)

lemma serves_lists:
  assumes "serves c ns tweak h r"
  shows "\<exists>tginf. r = Inr tginf \<and> lists tginf h = (\<lambda>opts. ci_List c ns (tweaked tweak opts))"
proof -
  from assms obtain p where p: "r = Inr (Factory_informer p \<lparr>ti_tweakListOptions = tweak, ti_namespace = ns\<rparr>)"
    "p < length h" "listing c ns tweak (h ! p)"
    unfolding serves_def by blast
  obtain i h' where i: "informer_of (Factory_informer p (Custom_V1alpha1_TaskGroups (h ! p))) h = (i, h')" by fastforce
  from informer_of_lists(1) [OF p(3,2) i] i p(1) show ?thesis unfolding listing_group [OF p(3)] by simp
qed

text \<open>Asking for one more informer keeps what the others list.\<close>

lemma serves_keep:
  assumes "serves c ns tweak h r" "listing c' ns' tweak' (h ! p)" "p < length h"
    and "informer_of (Factory_informer p (Custom_V1alpha1_TaskGroups (h ! p))) h = (i, h')"
  shows "serves c ns tweak h' r"
  using assms(1) informer_of_lists(2,3) [OF assms(2-4)] unfolding serves_def by metis

lemma filteredinformer_loop_result:
  assumes "\<And>s. s \<in> set sels \<Longrightarrow> \<exists>p. filteredfactory_Get ctx s = Inr p \<and> p < length h \<and> listing c ns tweak (h ! p)"
  shows "\<exists>ctx' infs' h'. filteredinformer_loop sels ctx infs h = Inr (ctx', infs', h') \<and>
    (\<forall>k. (\<forall>s. k \<noteq> filteredinformer_Key s) \<longrightarrow> Value ctx' k = Value ctx k) \<and>
    (\<forall>c' ns' tweak' r. serves c' ns' tweak' h r \<longrightarrow> serves c' ns' tweak' h' r) \<and>
    (\<forall>s. s \<in> set sels \<or> serves c ns tweak h (filteredinformer_Get ctx s) \<longrightarrow>
      serves c ns tweak h' (filteredinformer_Get ctx' s))"
  using assms
proof (induction sels arbitrary: ctx infs h)
  case (Cons sel sels)
  from Cons.prems [of sel] obtain p where p: "filteredfactory_Get ctx sel = Inr p" "p < length h" "listing c ns tweak (h ! p)"
    by auto
  let ?ti = "Factory_informer p (Custom_V1alpha1_TaskGroups (h ! p))"
  let ?ctx = "WithValue ctx (filteredinformer_Key sel) (Informer_val ?ti)"
  obtain i h1 where i: "informer_of ?ti h = (i, h1)" by fastforce
  note o = informer_of_lists [OF p(3,2) i]
  have g: "filteredfactory_Get ?ctx s = filteredfactory_Get ctx s" for s by (simp add: filteredfactory_Get_def)
  have "\<exists>q. filteredfactory_Get ?ctx s = Inr q \<and> q < length h1 \<and> listing c ns tweak (h1 ! q)" if "s \<in> set sels" for s
    using Cons.prems [of s] that o(2,3) unfolding g by auto
  from Cons.IH [OF this] obtain ctx' infs' h' where
    l: "filteredinformer_loop sels ?ctx (infs @ [i]) h1 = Inr (ctx', infs', h')"
    and v: "\<And>k. (\<And>s. k \<noteq> filteredinformer_Key s) \<Longrightarrow> Value ctx' k = Value ?ctx k"
    and k: "\<And>c' ns' tweak' r. serves c' ns' tweak' h1 r \<Longrightarrow> serves c' ns' tweak' h' r"
    and t: "\<And>s. s \<in> set sels \<or> serves c ns tweak h1 (filteredinformer_Get ?ctx s) \<Longrightarrow> serves c ns tweak h' (filteredinformer_Get ctx' s)"
    by blast
  have keep: "serves c' ns' tweak' h1 r" if "serves c' ns' tweak' h r" for c' ns' tweak' r
    by (rule serves_keep [OF that p(3,2) i])
  have g': "filteredinformer_Get ?ctx s = (if s = sel then Inr ?ti else filteredinformer_Get ctx s)" for s
    by (simp add: filteredinformer_Get_def)
  have n: "serves c ns tweak h1 (Inr ?ti)"
    unfolding listing_group [OF p(3)] serves_def using p(2) o(2) [OF p(3,2)] o(3) by auto
  have "serves c ns tweak h' (filteredinformer_Get ctx' s)"
    if "s \<in> set (sel # sels) \<or> serves c ns tweak h (filteredinformer_Get ctx s)" for s
    by (rule t) (use that n keep in \<open>auto simp: g'\<close>)
  moreover have "Value ctx' k = Value ctx k" if "\<And>s. k \<noteq> filteredinformer_Key s" for k
    using v [OF that] that by simp
  moreover have "filteredinformer_loop (sel # sels) ctx infs h = Inr (ctx', infs', h')"
    using p(1) i l by (simp add: Let_def)
  ultimately show ?case using k keep by blast
qed simp

lemma filtereddynamic_loop_result:
  assumes "client_Get ctx = Inr c"
  shows "\<exists>ctx'. filtereddynamic_loop sels ctx = Inr ctx' \<and>
    (\<forall>s. filteredinformer_Get ctx' s =
      (if s \<in> set sels then Inr (Filtered_informer \<lparr>fw_client = c, fw_namespace = [], fw_selector = s\<rparr>)
       else filteredinformer_Get ctx s))"
  using assms
proof (induction sels arbitrary: ctx)
  case (Cons sel sels)
  let ?ctx = "WithValue ctx (filteredinformer_Key sel)
    (Informer_val (Filtered_informer \<lparr>fw_client = c, fw_namespace = [], fw_selector = sel\<rparr>))"
  have "client_Get ?ctx = Inr c" using Cons.prems by simp
  from Cons.IH [OF this] obtain ctx' where c: "filtereddynamic_loop sels ?ctx = Inr ctx'"
    "\<And>s. filteredinformer_Get ctx' s =
      (if s \<in> set sels then Inr (Filtered_informer \<lparr>fw_client = c, fw_namespace = [], fw_selector = s\<rparr>)
       else filteredinformer_Get ?ctx s)" by blast
  have "filteredinformer_Get ?ctx s =
      (if s = sel then Inr (Filtered_informer \<lparr>fw_client = c, fw_namespace = [], fw_selector = sel\<rparr>)
       else filteredinformer_Get ctx s)" for s
    by (simp add: filteredinformer_Get_def)
  with c Cons.prems show ?case by (intro exI [of _ ctx']) (simp add: Let_def)
qed simp

lemma labels_panic: "labels_of ctx = Inl p \<Longrightarrow> \<nexists>l. labels_of ctx = Inr l"
  by simp

lemma setup_plain:
  assumes "client_Get ctx = Inr c"
  shows "\<exists>ctx' h'. factory_withInformerFactory ctx h = Inr (ctx', h') \<and>
    client_Get ctx' = Inr c \<and> labels_of ctx' = labels_of ctx \<and> GetNamespaceScope ctx' = GetNamespaceScope ctx \<and>
    (\<exists>p. factory_Get ctx' = Inr p \<and> p < length h' \<and> listing c (GetNamespaceScope ctx) None (h' ! p))"
  using assms new_factory_lists(1) [of c ctx "GetResyncPeriod ctx"]
  by (auto simp: factory_withInformerFactory_def factory_Get_def Let_def ns_opts_def split: if_splits)

lemma setup_filtered_factory:
  assumes "client_Get ctx = Inr c" "labels_of ctx = Inr sels"
  shows "\<exists>ctx' h'. filteredfactory_withInformerFactory ctx h = Inr (ctx', h') \<and>
    client_Get ctx' = Inr c \<and> labels_of ctx' = Inr sels \<and> GetNamespaceScope ctx' = GetNamespaceScope ctx \<and>
    factory_Get ctx' = factory_Get ctx \<and>
    (\<exists>g. h' = h @ g) \<and>
    (\<forall>s \<in> set sels. \<exists>p. filteredfactory_Get ctx' s = Inr p \<and> p < length h' \<and>
      listing c (GetNamespaceScope ctx) (Some (\<lambda>l. l\<lparr>lo_LabelSelector := last sels\<rparr>)) (h' ! p))"
proof -
  obtain ctx' h' where l: "filteredfactory_loop c (last sels) sels ctx h = (ctx', h')" by fastforce
  let ?F = "NewSharedInformerFactoryWithOptions c (GetResyncPeriod ctx) (ns_opts ctx @ last_opts (last sels))"
  note r = filteredfactory_loop_result [OF l]
  have h': "h' = h @ replicate (length sels) ?F" using r by blast
  have v: "Value ctx' k = Value ctx k" if "\<And>s. k \<noteq> filteredfactory_Key s" for k using r that by blast
  have "listing c (GetNamespaceScope ctx) (Some (\<lambda>l. l\<lparr>lo_LabelSelector := last sels\<rparr>)) (h' ! p)"
    if "length h \<le> p" "p < length h'" for p
    using new_factory_lists(2) [of c ctx "last sels" "GetResyncPeriod ctx"] that by (simp add: h' nth_append)
  then have "\<exists>p. filteredfactory_Get ctx' s = Inr p \<and> p < length h' \<and>
      listing c (GetNamespaceScope ctx) (Some (\<lambda>l. l\<lparr>lo_LabelSelector := last sels\<rparr>)) (h' ! p)" if "s \<in> set sels" for s
    using r that by blast
  moreover have "client_Get ctx' = client_Get ctx" "labels_of ctx' = labels_of ctx" "factory_Get ctx' = factory_Get ctx"
    "GetNamespaceScope ctx' = GetNamespaceScope ctx"
    by (rule client_Get_cong) (simp_all add: labels_of_def factory_Get_def GetNamespaceScope_def v)
  ultimately show ?thesis using l assms h' by (simp add: filteredfactory_withInformerFactory_def)
qed

lemma setup_informer:
  assumes "factory_Get ctx = Inr p" "p < length h" "listing c ns None (h ! p)"
  shows "\<exists>ctx' i h'. informer_withInformer ctx h = Inr (ctx', i, h') \<and>
    client_Get ctx' = client_Get ctx \<and> labels_of ctx' = labels_of ctx \<and> filteredfactory_Get ctx' = filteredfactory_Get ctx \<and>
    serves c ns None h' (informer_Get ctx') \<and>
    length h' = length h \<and>
    (\<forall>q c' ns' tweak'. q < length h \<and> listing c' ns' tweak' (h ! q) \<longrightarrow> listing c' ns' tweak' (h' ! q))"
proof -
  let ?ti = "Factory_informer p (Custom_V1alpha1_TaskGroups (h ! p))"
  obtain i h' where i: "informer_of ?ti h = (i, h')" by fastforce
  note o = informer_of_lists [OF assms(3,2) i]
  have "serves c ns None h' (Inr ?ti)"
    unfolding listing_group [OF assms(3)] serves_def using assms(2) o(2) [OF assms(3,2)] o(3) by auto
  moreover have "filteredfactory_Get (WithValue ctx informer_Key v) = filteredfactory_Get ctx"
    "informer_Get (WithValue ctx informer_Key (Informer_val ?ti)) = Inr ?ti" for v
    by (rule ext) (simp_all add: filteredfactory_Get_def informer_Get_def)
  ultimately show ?thesis
    using assms(1) i o(2,3) by (simp add: informer_withInformer_def Let_def)
qed

text \<open>Once the clients are in the context, the rest of the run does not depend on how they got there.\<close>

lemma SetupInformers_clients:
  "setup_clients (im_clients i) cfg ctx = Inr ctx0 \<Longrightarrow>
    SetupInformers i ctx cfg h = SetupInformers (i\<lparr>im_clients := []\<rparr>) ctx0 cfg h"
  by (simp add: SetupInformers_def cong: sum.case_cong prod.case_cong)

text \<open>What that rest leaves when nothing panics, and the whole of \<open>SetupInformers\<close>.\<close>

lemma SetupInformers_rest:
  assumes c0: "client_Get ctx = Inr c" and f: "filtered \<Longrightarrow> labels_of ctx = Inr sels"
  shows "\<exists>ctx' infs h'. SetupInformers (Default N filtered\<lparr>im_clients := []\<rparr>) ctx cfg h = Inr (ctx', infs, h') \<and>
    client_Get ctx' = Inr c \<and> serves c (GetNamespaceScope ctx) None h' (informer_Get ctx') \<and>
    (filtered \<longrightarrow> (\<forall>s \<in> set sels. serves c (GetNamespaceScope ctx)
      (Some (\<lambda>l. l\<lparr>lo_LabelSelector := last sels\<rparr>)) h' (filteredinformer_Get ctx' s)))"
proof -
  let ?ns = "GetNamespaceScope ctx" and ?t = "Some (\<lambda>l. l\<lparr>lo_LabelSelector := last sels\<rparr>)"
  from setup_plain [OF c0, of h] obtain ctx1 h1 p where
    1: "factory_withInformerFactory ctx h = Inr (ctx1, h1)" "client_Get ctx1 = Inr c" "labels_of ctx1 = labels_of ctx"
      "GetNamespaceScope ctx1 = ?ns" "factory_Get ctx1 = Inr p" "p < length h1" "listing c ?ns None (h1 ! p)"
    by auto
  show ?thesis
  proof (cases filtered)
    case False
    from setup_informer [OF 1(5-7)] 1(2) obtain ctx2 i h2 where
      "informer_withInformer ctx1 h1 = Inr (ctx2, i, h2)" "client_Get ctx2 = Inr c" "serves c ?ns None h2 (informer_Get ctx2)"
      by auto
    then show ?thesis using False 1(1) by (simp add: SetupInformers_def Default_def)
  next
    case True
    then have l1: "labels_of ctx1 = Inr sels" using f 1(3) by simp
    from setup_filtered_factory [OF 1(2) l1, of h1] obtain ctx2 g h2 where
      2: "filteredfactory_withInformerFactory ctx1 h1 = Inr (ctx2, h2)" "client_Get ctx2 = Inr c" "labels_of ctx2 = Inr sels"
        "factory_Get ctx2 = factory_Get ctx1" "h2 = h1 @ g"
        "\<And>s. s \<in> set sels \<Longrightarrow> \<exists>p. filteredfactory_Get ctx2 s = Inr p \<and> p < length h2 \<and> listing c ?ns ?t (h2 ! p)"
      unfolding 1(4) by blast
    have "factory_Get ctx2 = Inr p" "p < length h2" "listing c ?ns None (h2 ! p)"
      using 1(5-7) 2(4,5) by (simp_all add: nth_append)
    from setup_informer [OF this] obtain ctx3 i h3 where
      3: "informer_withInformer ctx2 h2 = Inr (ctx3, i, h3)" "client_Get ctx3 = Inr c" "labels_of ctx3 = Inr sels"
        "filteredfactory_Get ctx3 = filteredfactory_Get ctx2" "serves c ?ns None h3 (informer_Get ctx3)" "length h3 = length h2"
        "\<And>q c' ns' tweak'. q < length h2 \<Longrightarrow> listing c' ns' tweak' (h2 ! q) \<Longrightarrow> listing c' ns' tweak' (h3 ! q)"
      unfolding 2(2,3) by blast
    have "\<exists>p. filteredfactory_Get ctx3 s = Inr p \<and> p < length h3 \<and> listing c ?ns ?t (h3 ! p)" if "s \<in> set sels" for s
      using 2(6) [OF that] 3(7) unfolding 3(4,6) by blast
    from filteredinformer_loop_result [of sels ctx3 h3 c ?ns ?t "[]", OF this] obtain ctx4 infs h4 where
      4: "filteredinformer_loop sels ctx3 [] h3 = Inr (ctx4, infs, h4)"
        "\<And>k. (\<And>s. k \<noteq> filteredinformer_Key s) \<Longrightarrow> Value ctx4 k = Value ctx3 k"
        "\<And>c' ns' tweak' r. serves c' ns' tweak' h3 r \<Longrightarrow> serves c' ns' tweak' h4 r"
        "\<And>s. s \<in> set sels \<Longrightarrow> serves c ?ns ?t h4 (filteredinformer_Get ctx4 s)"
      by blast
    have "client_Get ctx4 = Inr c" "informer_Get ctx4 = informer_Get ctx3"
      using 3(2) client_Get_cong [OF 4(2) 4(2)] by (simp_all add: informer_Get_def 4(2))
    then have "client_Get ctx4 = Inr c" "serves c ?ns None h4 (informer_Get ctx4)"
      using 4(3) [OF 3(5)] by simp_all
    then show ?thesis using True 1(1) 2(1) 3(1,3) 4(1,4)
      by (simp add: SetupInformers_def Default_def filteredinformer_withInformer_def)
  qed
qed

lemma SetupInformers_result:
  assumes "N cfg = Inr c" and f: "filtered \<Longrightarrow> labels_of ctx = Inr sels"
  shows "\<exists>ctx' infs h'. SetupInformers (Default N filtered) ctx cfg h = Inr (ctx', infs, h') \<and>
    client_Get ctx' = Inr c \<and> serves c (GetNamespaceScope ctx) None h' (informer_Get ctx') \<and>
    (filtered \<longrightarrow> (\<forall>s \<in> set sels. serves c (GetNamespaceScope ctx)
      (Some (\<lambda>l. l\<lparr>lo_LabelSelector := last sels\<rparr>)) h' (filteredinformer_Get ctx' s)))"
proof -
  let ?ctx = "WithValue ctx client_Key (Client_val c)"
  have c: "client_Get ?ctx = Inr c" "labels_of ?ctx = labels_of ctx" "GetNamespaceScope ?ctx = GetNamespaceScope ctx" by simp_all
  have i: "setup_clients (im_clients (Default N filtered)) cfg ctx = Inr ?ctx"
    using assms(1) by (simp add: Default_def withClientFromConfig_def)
  from SetupInformers_rest [where N = N and cfg = cfg and h = h and filtered = filtered and sels = sels, OF c(1)] f
  show ?thesis unfolding SetupInformers_clients [OF i] c(2,3) by blast
qed

lemma SetupInformers_no_client: "N cfg = Inl p \<Longrightarrow> SetupInformers (Default N filtered) ctx cfg h = Inl p"
  by (simp add: SetupInformers_def Default_def withClientFromConfig_def)

lemma SetupInformers_no_labels:
  assumes "N cfg = Inr c" "labels_of ctx = Inl p"
  shows "SetupInformers (Default N True) ctx cfg h = Inl p"
proof -
  let ?ctx = "WithValue ctx client_Key (Client_val c)"
  from setup_plain [of ?ctx c h] obtain ctx1 h1 where
    "factory_withInformerFactory ?ctx h = Inr (ctx1, h1)" "client_Get ctx1 = Inr c" "labels_of ctx1 = Inl p"
    using assms(2) by auto
  then show ?thesis
    using assms(1)
    by (simp add: SetupInformers_def Default_def withClientFromConfig_def filteredfactory_withInformerFactory_def)
qed

section \<open>Properties\<close>

text \<open>C33. The filtered informers do not use their selectors. In a binary that links the filtered packages,
  \<open>SetupInformers\<close> puts an informer for every requested selector into the context, and each of them lists the
  TaskGroups of the last requested selector, in the namespace the context is scoped to: the closure that
  should set the selector of its factory captures the loop variable.\<close>

theorem filtered_informers_list_last_selector:
  assumes "NewForConfigOrDie cfg = Inr c" "labels_of ctx = Inr selectors" "s \<in> set selectors"
  shows "\<exists>ctx' infs h' tginf.
    SetupInformers (Default NewForConfigOrDie True) ctx cfg h = Inr (ctx', infs, h') \<and>
    filteredinformer_Get ctx' s = Inr tginf \<and>
    lists tginf h' = (\<lambda>opts. ci_List c (GetNamespaceScope ctx) (opts\<lparr>lo_LabelSelector := last selectors\<rparr>))"
proof -
  from SetupInformers_result [where N = NewForConfigOrDie and filtered = True, OF assms(1,2)] obtain ctx' infs h' where
    r: "SetupInformers (Default NewForConfigOrDie True) ctx cfg h = Inr (ctx', infs, h')"
      "serves c (GetNamespaceScope ctx) (Some (\<lambda>l. l\<lparr>lo_LabelSelector := last selectors\<rparr>)) h' (filteredinformer_Get ctx' s)"
    using assms(3) by blast
  from serves_lists [OF r(2)] r(1) show ?thesis by auto
qed

definition ex_client :: ClientInterface where
  "ex_client = remote_client ex_remote"

definition ex_ctx :: "(unit, unit, unit) ctx" where
  "ex_ctx = WithSelectors (WithValue [] nsKey (String_val ''ns'')) [''team=a'', ''team=b'']"

lemma ex_ctx_facts: "labels_of ex_ctx = Inr [''team=a'', ''team=b'']" "GetNamespaceScope ex_ctx = ''ns''"
  by (simp_all add: ex_ctx_def WithSelectors_def labels_of_def GetNamespaceScope_def)

theorem filtered_informers_list_last_selector_witness:
  "\<exists>ctx' infs h' tginf.
    SetupInformers (Default (\<lambda>_. Inr ex_client) True) ex_ctx () [] = Inr (ctx', infs, h') \<and>
    filteredinformer_Get ctx' ''team=a'' = Inr tginf \<and>
    lists tginf h' = (\<lambda>opts. ci_List ex_client ''ns'' (opts\<lparr>lo_LabelSelector := ''team=b''\<rparr>))"
  using filtered_informers_list_last_selector [where NewForConfigOrDie = "\<lambda>_. Inr ex_client" and s = "''team=a''"
      and cfg = "()" and h = "[]", OF refl ex_ctx_facts(1)]
  by (simp add: ex_ctx_facts)

text \<open>The wrappers of the dynamic client do use theirs: after \<open>withClientFromDynamic\<close>, the filtered informer
  of a selector is a lister whose requests carry the requirements of that selector added to the one it is
  called with, over the TaskGroups of all namespaces, whatever namespace the context is scoped to.\<close>

theorem dynamic_filtered_informers_use_their_selector:
  assumes "dynamicclient_Get ctx = Inr dyn" "labels_of ctx = Inr selectors" "s \<in> set selectors"
    and "ParseToRequirements s = Inr reqs"
  shows "\<exists>ctx1 ctx' w.
    withClientFromDynamic json ctx = Inr ctx1 \<and> filteredinformer_withDynamicInformer ctx1 = Inr ctx' \<and>
    filteredinformer_Get ctx' s = Inr (Filtered_informer w) \<and>
    filtered_List ParseToRequirements selector_Add w sel =
      items_of (wrap_List (wrap_TaskGroups dyn json [])
        (empty_ListOptions\<lparr>lo_LabelSelector := sel_String (selector_Add sel reqs)\<rparr>))"
proof -
  let ?c = "wrap_interface dyn json"
  let ?ctx = "WithValue ctx client_Key (Client_val ?c)"
  have "client_Get ?ctx = Inr ?c" "labels_of ?ctx = Inr selectors" using assms(2) by simp_all
  with filtereddynamic_loop_result [of ?ctx ?c selectors] assms(3) obtain ctx' where
    "filteredinformer_withDynamicInformer ?ctx = Inr ctx'"
    "filteredinformer_Get ctx' s = Inr (Filtered_informer \<lparr>fw_client = ?c, fw_namespace = [], fw_selector = s\<rparr>)"
    by (auto simp: filteredinformer_withDynamicInformer_def)
  then show ?thesis
    using assms(1,4) by (auto simp: withClientFromDynamic_def filtered_List_def wrap_interface_def)
qed

theorem dynamic_filtered_informers_use_their_selector_witness:
  "\<exists>ctx1 ctx' w.
    withClientFromDynamic (json_of ex_codec)
      (WithSelectors (WithValue ([] :: (unit, _, _) ctx) dynamicclient_Key (Dynamic_val (dynamic_of ex_codec (store_server ex_remote))))
        [''team=a'', ''team=b'']) = Inr ctx1 \<and>
    filteredinformer_withDynamicInformer ctx1 = Inr ctx' \<and>
    filteredinformer_Get ctx' ''team=a'' = Inr (Filtered_informer w) \<and>
    filtered_List (\<lambda>s. Inr [s]) (\<lambda>sel reqs. sel\<lparr>sel_String := concat reqs\<rparr>) w Everything =
      items_of (wrap_List (wrap_TaskGroups (dynamic_of ex_codec (store_server ex_remote)) (json_of ex_codec) [])
        (empty_ListOptions\<lparr>lo_LabelSelector := ''team=a''\<rparr>))"
proof -
  let ?ctx = "WithSelectors (WithValue ([] :: (unit, _, _) ctx) dynamicclient_Key (Dynamic_val (dynamic_of ex_codec (store_server ex_remote))))
      [''team=a'', ''team=b'']"
  have "dynamicclient_Get ?ctx = Inr (dynamic_of ex_codec (store_server ex_remote))"
    "labels_of ?ctx = Inr [''team=a'', ''team=b'']"
    by (simp_all add: dynamicclient_Get_def labels_of_def WithSelectors_def)
  from dynamic_filtered_informers_use_their_selector [where s = "''team=a''" and ParseToRequirements = "\<lambda>s. Inr [s]"
      and selector_Add = "\<lambda>sel reqs. sel\<lparr>sel_String := concat reqs\<rparr>" and sel = Everything and json = "json_of ex_codec",
      OF this _ refl]
  show ?thesis by simp
qed

text \<open>Injection succeeds exactly when it can: \<open>SetupInformers\<close> ends without a panic, with the client in the
  context and a TaskGroup informer that lists the TaskGroups of the scoped namespace through it, if and
  only if the client could be made from the configuration and, where the filtered packages are linked, the
  context names the selectors.\<close>

theorem SetupInformers_completes_iff:
  "(\<exists>ctx' infs h' tginf.
      SetupInformers (Default NewForConfigOrDie filtered) ctx cfg h = Inr (ctx', infs, h') \<and>
      client_Get ctx' = Inr c \<and> informer_Get ctx' = Inr tginf \<and> lists tginf h' = ci_List c (GetNamespaceScope ctx)) \<longleftrightarrow>
   NewForConfigOrDie cfg = Inr c \<and> (if filtered then \<exists>selectors. labels_of ctx = Inr selectors else True)"
  (is "?L \<longleftrightarrow> ?R")
proof
  assume ?R
  then obtain selectors where "filtered \<Longrightarrow> labels_of ctx = Inr selectors" by (auto split: if_splits)
  from SetupInformers_result [where N = NewForConfigOrDie and cfg = cfg and h = h and filtered = filtered, OF conjunct1 [OF \<open>?R\<close>] this] obtain ctx' infs h' where
    r: "SetupInformers (Default NewForConfigOrDie filtered) ctx cfg h = Inr (ctx', infs, h')" "client_Get ctx' = Inr c"
      "serves c (GetNamespaceScope ctx) None h' (informer_Get ctx')" by blast
  from serves_lists [OF r(3)] r(1,2) show ?L by auto
next
  assume ?L
  then obtain ctx' infs h' where r: "SetupInformers (Default NewForConfigOrDie filtered) ctx cfg h = Inr (ctx', infs, h')"
    "client_Get ctx' = Inr c" by blast
  obtain d where d: "NewForConfigOrDie cfg = Inr d"
    using r(1) by (auto simp: SetupInformers_def Default_def withClientFromConfig_def split: sum.splits)
  show ?R
  proof (cases "filtered \<and> \<not> (\<exists>selectors. labels_of ctx = Inr selectors)")
    case True
    then obtain p where "labels_of ctx = Inl p" by (cases "labels_of ctx") auto
    from SetupInformers_no_labels [where N = NewForConfigOrDie and h = h, OF d this] True
    have "SetupInformers (Default NewForConfigOrDie filtered) ctx cfg h = Inl p" by simp
    with r(1) show ?thesis by simp
  next
    case False
    then obtain selectors where s: "filtered \<Longrightarrow> labels_of ctx = Inr selectors" by auto
    from SetupInformers_result [where N = NewForConfigOrDie and cfg = cfg and h = h and filtered = filtered, OF d s] r have "d = c" by auto
    with d False show ?thesis by auto
  qed
qed

end
