(* ===== verification/Clientset.thy ===== *)
theory Clientset
  imports Complex_Main Injection
begin

text \<open>
  \<open>pkg/client/clientset/versioned/clientset.go\<close> and \<open>typed/taskgroup/v1alpha1/taskgroup_client.go\<close>: how the
  clients of the group and of the discovery API are made from a \<open>rest.Config\<close>, with \<open>RESTClientFor\<close> and
  \<open>NewDiscoveryClientForConfig\<close> of client-go as far as they treat the fields of the configuration.

  Rate limiters are shared by pointer: they live in a list, and a pointer is an index. A limiter made by
  \<open>NewTokenBucketRateLimiter\<close> is its rate and burst. The \<open>float32\<close> rate is a rational number; the code only
  compares it. What depends on the rest of the configuration (the server's URL, TLS, the transport) is the
  parameter \<open>cl_connect\<close>.
\<close>

section \<open>Configurations and REST clients\<close>

record Config =
  cf_RateLimiter :: "nat option"
  cf_QPS :: rat
  cf_Burst :: int
  cf_GroupVersion :: "GroupVersion option"
  cf_APIPath :: string
  cf_NegotiatedSerializer :: "string option"
  cf_UserAgent :: string
  cf_Timeout :: int
  cf_rest :: string

record 'b ConfigLib =
  cl_connect :: "Config \<Rightarrow> goerror + ('b, string) RestClient"
  cl_DefaultKubernetesUserAgent :: string

type_synonym limiters = "(rat \<times> int) list"

definition NewTokenBucketRateLimiter :: "rat \<Rightarrow> int \<Rightarrow> limiters \<Rightarrow> nat \<times> limiters" where
  "NewTokenBucketRateLimiter qps burst ls = (length ls, ls @ [(qps, burst)])"

record 'b RESTClient =
  rst_client :: "('b, string) RestClient"
  rst_rateLimiter :: "nat option"
  rst_GroupVersion :: GroupVersion

definition DefaultQPS :: rat where "DefaultQPS = 5"
definition DefaultBurst :: int where "DefaultBurst = 10"

text \<open>The block of \<open>RESTClientFor\<close> that picks the rate limiter.\<close>

definition pick_limiter :: "Config \<Rightarrow> limiters \<Rightarrow> nat option \<times> limiters" where
  "pick_limiter config ls =
     (case cf_RateLimiter config of
        Some l \<Rightarrow> (Some l, ls)
      | None \<Rightarrow>
          let qps = (if cf_QPS config = 0 then DefaultQPS else cf_QPS config);
              burst = (if cf_Burst config = 0 then DefaultBurst else cf_Burst config)
          in if qps > 0 then (case NewTokenBucketRateLimiter qps burst ls of (l, ls) \<Rightarrow> (Some l, ls))
             else (None, ls))"

definition meta_SchemeGroupVersion :: GroupVersion where
  "meta_SchemeGroupVersion = \<lparr>gv_Group = ''meta.k8s.io'', gv_Version = ''v1''\<rparr>"

definition UnversionedRESTClientFor ::
    "'b ConfigLib \<Rightarrow> Config \<Rightarrow> limiters \<Rightarrow> (goerror + 'b RESTClient) \<times> limiters" where
  "UnversionedRESTClientFor L config ls =
     (if cf_NegotiatedSerializer config = None
      then (Inl (Errorf ''NegotiatedSerializer is required when initializing a RESTClient''), ls)
      else (case cl_connect L config of
              Inl err \<Rightarrow> (Inl err, ls)
            | Inr c \<Rightarrow>
                (case pick_limiter config ls of
                   (limiter, ls) \<Rightarrow>
                     let gv = (case cf_GroupVersion config of None \<Rightarrow> meta_SchemeGroupVersion | Some gv \<Rightarrow> gv)
                     in (Inr \<lparr>rst_client = c, rst_rateLimiter = limiter, rst_GroupVersion = gv\<rparr>, ls))))"

definition RESTClientFor :: "'b ConfigLib \<Rightarrow> Config \<Rightarrow> limiters \<Rightarrow> (goerror + 'b RESTClient) \<times> limiters" where
  "RESTClientFor L config ls =
     (if cf_GroupVersion config = None
      then (Inl (Errorf ''GroupVersion is required when initializing a RESTClient''), ls)
      else UnversionedRESTClientFor L config ls)"

section \<open>The client of the group\<close>

record 'b CustomV1alpha1Client =
  cc_restClient :: "'b RESTClient"

definition setConfigDefaults :: "'b ConfigLib \<Rightarrow> Config \<Rightarrow> Config \<times> goerror option" where
  "setConfigDefaults L config =
     (let gv = SchemeGroupVersion;
          config = config\<lparr>cf_GroupVersion := Some gv\<rparr>;
          config = config\<lparr>cf_APIPath := ''/apis''\<rparr>;
          config = config\<lparr>cf_NegotiatedSerializer := Some ''WithoutConversion''\<rparr>;
          config = (if cf_UserAgent config = [] then config\<lparr>cf_UserAgent := cl_DefaultKubernetesUserAgent L\<rparr> else config)
      in (config, None))"

definition custom_NewForConfig ::
    "'b ConfigLib \<Rightarrow> Config \<Rightarrow> limiters \<Rightarrow> (goerror + 'b CustomV1alpha1Client) \<times> limiters" where
  "custom_NewForConfig L c ls =
     (case setConfigDefaults L c of
        (config, Some err) \<Rightarrow> (Inl err, ls)
      | (config, None) \<Rightarrow>
          (case RESTClientFor L config ls of
             (Inl err, ls) \<Rightarrow> (Inl err, ls)
           | (Inr client, ls) \<Rightarrow> (Inr \<lparr>cc_restClient = client\<rparr>, ls)))"

text \<open>The functions that panic give the message of the error.\<close>

definition custom_NewForConfigOrDie ::
    "'b ConfigLib \<Rightarrow> Config \<Rightarrow> limiters \<Rightarrow> 'b CustomV1alpha1Client may_panic \<times> limiters" where
  "custom_NewForConfigOrDie L c ls =
     (case custom_NewForConfig L c ls of
        (Inl err, ls) \<Rightarrow> (Inl (error_string err), ls)
      | (Inr client, ls) \<Rightarrow> (Inr client, ls))"

definition custom_New :: "'b RESTClient \<Rightarrow> 'b CustomV1alpha1Client" where
  "custom_New c = \<lparr>cc_restClient = c\<rparr>"

definition custom_TaskGroups :: "'b CustomV1alpha1Client \<Rightarrow> string \<Rightarrow> ('b, string) taskGroups" where
  "custom_TaskGroups c namespace = newTaskGroups (rst_client (cc_restClient c)) namespace"

text \<open>\<open>RESTClient()\<close> of a pointer that may be nil.\<close>

definition custom_RESTClient :: "'b CustomV1alpha1Client option \<Rightarrow> 'b RESTClient option" where
  "custom_RESTClient c = (case c of None \<Rightarrow> None | Some c \<Rightarrow> Some (cc_restClient c))"

section \<open>The discovery client\<close>

definition setDiscoveryDefaults :: "'b ConfigLib \<Rightarrow> Config \<Rightarrow> Config" where
  "setDiscoveryDefaults L config =
     (let config = config\<lparr>cf_APIPath := []\<rparr>;
          config = config\<lparr>cf_GroupVersion := None\<rparr>;
          config = (if cf_Timeout config = 0 then config\<lparr>cf_Timeout := 32 * 1000000000\<rparr> else config);
          config = (if cf_Burst config = 0 \<and> cf_QPS config < 100 then config\<lparr>cf_Burst := 100\<rparr> else config);
          config = config\<lparr>cf_NegotiatedSerializer := Some ''NoopEncoder''\<rparr>;
          config = (if length (cf_UserAgent config) = 0 then config\<lparr>cf_UserAgent := cl_DefaultKubernetesUserAgent L\<rparr> else config)
      in config)"

definition NewDiscoveryClientForConfig ::
    "'b ConfigLib \<Rightarrow> Config \<Rightarrow> limiters \<Rightarrow> (goerror + 'b RESTClient) \<times> limiters" where
  "NewDiscoveryClientForConfig L c ls = UnversionedRESTClientFor L (setDiscoveryDefaults L c) ls"

definition NewDiscoveryClientForConfigOrDie ::
    "'b ConfigLib \<Rightarrow> Config \<Rightarrow> limiters \<Rightarrow> 'b RESTClient may_panic \<times> limiters" where
  "NewDiscoveryClientForConfigOrDie L c ls =
     (case NewDiscoveryClientForConfig L c ls of
        (Inl err, ls) \<Rightarrow> (Inl (error_string err), ls)
      | (Inr client, ls) \<Rightarrow> (Inr client, ls))"

section \<open>The clientset\<close>

record 'b Clientset =
  cs_DiscoveryClient :: "'b RESTClient"
  cs_customV1alpha1 :: "'b CustomV1alpha1Client"

definition Clientset_CustomV1alpha1 :: "'b Clientset \<Rightarrow> 'b CustomV1alpha1Client" where
  "Clientset_CustomV1alpha1 c = cs_customV1alpha1 c"

definition Clientset_Discovery :: "'b Clientset option \<Rightarrow> 'b RESTClient option" where
  "Clientset_Discovery c = (case c of None \<Rightarrow> None | Some c \<Rightarrow> Some (cs_DiscoveryClient c))"

definition clientset_NewForConfig :: "'b ConfigLib \<Rightarrow> Config \<Rightarrow> limiters \<Rightarrow> (goerror + 'b Clientset) \<times> limiters" where
  "clientset_NewForConfig L c ls =
     (let configShallowCopy = c in
      if cf_RateLimiter configShallowCopy = None \<and> cf_QPS configShallowCopy > 0 \<and> cf_Burst configShallowCopy \<le> 0
      then (Inl (Errorf ''burst is required to be greater than 0 when RateLimiter is not set and QPS is set to greater than 0''), ls)
      else
        let (configShallowCopy, ls) =
              (if cf_RateLimiter configShallowCopy = None \<and> cf_QPS configShallowCopy > 0
               then (case NewTokenBucketRateLimiter (cf_QPS configShallowCopy) (cf_Burst configShallowCopy) ls of
                       (l, ls) \<Rightarrow> (configShallowCopy\<lparr>cf_RateLimiter := Some l\<rparr>, ls))
               else (configShallowCopy, ls))
        in case custom_NewForConfig L configShallowCopy ls of
             (Inl err, ls) \<Rightarrow> (Inl err, ls)
           | (Inr custom, ls) \<Rightarrow>
               (case NewDiscoveryClientForConfig L configShallowCopy ls of
                  (Inl err, ls) \<Rightarrow> (Inl err, ls)
                | (Inr discovery, ls) \<Rightarrow> (Inr \<lparr>cs_DiscoveryClient = discovery, cs_customV1alpha1 = custom\<rparr>, ls)))"

definition clientset_NewForConfigOrDie :: "'b ConfigLib \<Rightarrow> Config \<Rightarrow> limiters \<Rightarrow> 'b Clientset may_panic \<times> limiters" where
  "clientset_NewForConfigOrDie L c ls =
     (case custom_NewForConfigOrDie L c ls of
        (Inl p, ls) \<Rightarrow> (Inl p, ls)
      | (Inr custom, ls) \<Rightarrow>
          (case NewDiscoveryClientForConfigOrDie L c ls of
             (Inl p, ls) \<Rightarrow> (Inl p, ls)
           | (Inr discovery, ls) \<Rightarrow> (Inr \<lparr>cs_DiscoveryClient = discovery, cs_customV1alpha1 = custom\<rparr>, ls)))"

definition clientset_New :: "'b RESTClient \<Rightarrow> 'b Clientset" where
  "clientset_New c = \<lparr>cs_DiscoveryClient = c, cs_customV1alpha1 = custom_New c\<rparr>"

text \<open>The clientset as the interface that informers and wrappers use.\<close>

definition clientset_interface :: "'b Clientset \<Rightarrow> ClientInterface" where
  "clientset_interface cs =
     \<lparr>ci_Get = (\<lambda>ns. taskGroups_Get (custom_TaskGroups (Clientset_CustomV1alpha1 cs) ns)),
      ci_List = (\<lambda>ns. taskGroups_List (custom_TaskGroups (Clientset_CustomV1alpha1 cs) ns)),
      ci_Watch = (\<lambda>ns. taskGroups_Watch (custom_TaskGroups (Clientset_CustomV1alpha1 cs) ns))\<rparr>"

section \<open>What the constructors make\<close>

lemma pick_limiter_cong:
  "cf_RateLimiter c = cf_RateLimiter c' \<Longrightarrow> cf_QPS c = cf_QPS c' \<Longrightarrow> cf_Burst c = cf_Burst c' \<Longrightarrow>
   pick_limiter c ls = pick_limiter c' ls"
  by (simp only: pick_limiter_def)

lemma custom_NewForConfig_ok:
  assumes "cl_connect L (fst (setConfigDefaults L c)) = Inr rc"
  shows "custom_NewForConfig L c ls =
    (Inr \<lparr>cc_restClient = \<lparr>rst_client = rc, rst_rateLimiter = fst (pick_limiter c ls), rst_GroupVersion = SchemeGroupVersion\<rparr>\<rparr>,
     snd (pick_limiter c ls))"
proof -
  let ?c = "fst (setConfigDefaults L c)"
  have "snd (setConfigDefaults L c) = None" "cf_GroupVersion ?c = Some SchemeGroupVersion" "cf_NegotiatedSerializer ?c \<noteq> None"
    by (simp_all add: setConfigDefaults_def Let_def)
  moreover have "pick_limiter ?c ls = pick_limiter c ls"
    by (rule pick_limiter_cong) (simp_all add: setConfigDefaults_def Let_def)
  ultimately show ?thesis
    using assms by (cases "setConfigDefaults L c"; cases "pick_limiter c ls")
      (simp add: custom_NewForConfig_def RESTClientFor_def UnversionedRESTClientFor_def)
qed

definition discovery_burst :: "Config \<Rightarrow> int" where
  "discovery_burst c = (if cf_Burst c = 0 \<and> cf_QPS c < 100 then 100 else cf_Burst c)"

lemma discovery_ok:
  assumes "cl_connect L (setDiscoveryDefaults L c) = Inr rd"
  shows "NewDiscoveryClientForConfig L c ls =
    (Inr \<lparr>rst_client = rd, rst_rateLimiter = fst (pick_limiter (c\<lparr>cf_Burst := discovery_burst c\<rparr>) ls), rst_GroupVersion = meta_SchemeGroupVersion\<rparr>,
     snd (pick_limiter (c\<lparr>cf_Burst := discovery_burst c\<rparr>) ls))"
proof -
  let ?c = "setDiscoveryDefaults L c"
  have "cf_GroupVersion ?c = None" "cf_NegotiatedSerializer ?c \<noteq> None"
    by (simp_all add: setDiscoveryDefaults_def Let_def)
  moreover have "pick_limiter ?c ls = pick_limiter (c\<lparr>cf_Burst := discovery_burst c\<rparr>) ls"
    by (rule pick_limiter_cong) (simp_all add: setDiscoveryDefaults_def Let_def discovery_burst_def)
  ultimately show ?thesis
    using assms by (cases "pick_limiter (c\<lparr>cf_Burst := discovery_burst c\<rparr>) ls")
      (simp add: NewDiscoveryClientForConfig_def UnversionedRESTClientFor_def)
qed

lemma NewForConfigOrDie_ok:
  assumes "cl_connect L (fst (setConfigDefaults L c)) = Inr rc" "cl_connect L (setDiscoveryDefaults L c) = Inr rd"
  shows "\<exists>cs ls'. clientset_NewForConfigOrDie L c ls = (Inr cs, ls') \<and> rst_client (cc_restClient (cs_customV1alpha1 cs)) = rc"
  by (simp add: clientset_NewForConfigOrDie_def custom_NewForConfigOrDie_def NewDiscoveryClientForConfigOrDie_def
      custom_NewForConfig_ok [OF assms(1)] discovery_ok [OF assms(2)])

section \<open>Properties\<close>

text \<open>Where the transport does not depend on the fields that the constructors set, connecting succeeds.\<close>

definition connects :: "'b ConfigLib \<Rightarrow> Config \<Rightarrow> bool" where
  "connects L c \<longleftrightarrow> (\<forall>config. cf_rest config = cf_rest c \<longrightarrow> (\<exists>r. cl_connect L config = Inr r))"

lemma connectsD:
  assumes "connects L c"
  shows "\<exists>r. cl_connect L (fst (setConfigDefaults L (c\<lparr>cf_RateLimiter := l\<rparr>))) = Inr r"
    "\<exists>r. cl_connect L (setDiscoveryDefaults L (c\<lparr>cf_RateLimiter := l\<rparr>)) = Inr r"
  using assms by (simp_all add: connects_def setConfigDefaults_def setDiscoveryDefaults_def Let_def)

text \<open>C36. A configuration with a rate and without a limiter is treated differently by the two constructors.
  \<open>NewForConfig\<close> makes one token bucket that the group's client and the discovery client share, and refuses a
  burst that is not positive. \<open>NewForConfigOrDie\<close> refuses nothing and makes two buckets, one for each client,
  the second with a burst of 100 where none is given and the rate is below 100; so the process may send
  twice the configured rate.\<close>

theorem clientset_limiters:
  assumes "connects L c" "cf_RateLimiter c = None" "cf_QPS c > 0"
  shows "(if cf_Burst c > 0
      then \<exists>cs. clientset_NewForConfig L c ls = (Inr cs, ls @ [(cf_QPS c, cf_Burst c)]) \<and>
        rst_rateLimiter (cc_restClient (cs_customV1alpha1 cs)) = Some (length ls) \<and>
        rst_rateLimiter (cs_DiscoveryClient cs) = Some (length ls)
      else \<exists>err. clientset_NewForConfig L c ls = (Inl err, ls)) \<and>
    (\<exists>cs. clientset_NewForConfigOrDie L c ls =
        (Inr cs, ls @ [(cf_QPS c, if cf_Burst c = 0 then 10 else cf_Burst c),
           (cf_QPS c, if cf_Burst c = 0 then (if cf_QPS c < 100 then 100 else 10) else cf_Burst c)]) \<and>
      rst_rateLimiter (cc_restClient (cs_customV1alpha1 cs)) = Some (length ls) \<and>
      rst_rateLimiter (cs_DiscoveryClient cs) = Some (Suc (length ls)))"
proof -
  let ?c = "c\<lparr>cf_RateLimiter := Some (length ls)\<rparr>"
  have q: "cf_QPS c \<noteq> 0" using assms(3) by simp
  have p: "pick_limiter ?c ls' = (Some (length ls), ls')" "pick_limiter (?c\<lparr>cf_Burst := b\<rparr>) ls' = (Some (length ls), ls')" for b ls'
    by (simp_all add: pick_limiter_def)
  have n: "pick_limiter (c\<lparr>cf_Burst := b\<rparr>) ls' = (Some (length ls'), ls' @ [(cf_QPS c, if b = 0 then 10 else b)])" for b ls'
    using assms(2,3) q by (simp add: pick_limiter_def NewTokenBucketRateLimiter_def DefaultBurst_def Let_def)
  have n': "pick_limiter c ls' = (Some (length ls'), ls' @ [(cf_QPS c, if cf_Burst c = 0 then 10 else cf_Burst c)])" for ls'
    using n [of "cf_Burst c" ls'] by simp
  have id: "c\<lparr>cf_RateLimiter := None\<rparr> = c" using assms(2) by simp
  obtain rc rd where r: "cl_connect L (fst (setConfigDefaults L ?c)) = Inr rc" "cl_connect L (setDiscoveryDefaults L ?c) = Inr rd"
    using connectsD [OF assms(1)] by blast
  obtain rc' rd' where r': "cl_connect L (fst (setConfigDefaults L c)) = Inr rc'" "cl_connect L (setDiscoveryDefaults L c) = Inr rd'"
    using connectsD [OF assms(1), of None] unfolding id by blast
  have "if cf_Burst c > 0
      then \<exists>cs. clientset_NewForConfig L c ls = (Inr cs, ls @ [(cf_QPS c, cf_Burst c)]) \<and>
        rst_rateLimiter (cc_restClient (cs_customV1alpha1 cs)) = Some (length ls) \<and>
        rst_rateLimiter (cs_DiscoveryClient cs) = Some (length ls)
      else \<exists>err. clientset_NewForConfig L c ls = (Inl err, ls)"
    using assms(2,3)
    by (simp add: clientset_NewForConfig_def NewTokenBucketRateLimiter_def custom_NewForConfig_ok [OF r(1)]
        discovery_ok [OF r(2)] p)
  moreover have "\<exists>cs. clientset_NewForConfigOrDie L c ls =
        (Inr cs, ls @ [(cf_QPS c, if cf_Burst c = 0 then 10 else cf_Burst c),
           (cf_QPS c, if cf_Burst c = 0 then (if cf_QPS c < 100 then 100 else 10) else cf_Burst c)]) \<and>
      rst_rateLimiter (cc_restClient (cs_customV1alpha1 cs)) = Some (length ls) \<and>
      rst_rateLimiter (cs_DiscoveryClient cs) = Some (Suc (length ls))"
    by (simp add: clientset_NewForConfigOrDie_def custom_NewForConfigOrDie_def NewDiscoveryClientForConfigOrDie_def
        custom_NewForConfig_ok [OF r'(1)] discovery_ok [OF r'(2)] n n' discovery_burst_def)
  ultimately show ?thesis by blast
qed

definition ex_config :: Config where
  "ex_config = \<lparr>cf_RateLimiter = None, cf_QPS = 50, cf_Burst = 0, cf_GroupVersion = None, cf_APIPath = [],
     cf_NegotiatedSerializer = None, cf_UserAgent = [], cf_Timeout = 0, cf_rest = ''https://10.0.0.1''\<rparr>"

definition ex_rest_client :: "(string, string) RestClient" where
  "ex_rest_client = \<lparr>rc_send = (\<lambda>r. Inr (join_with ''/'' (url_segments r))),
     rc_TaskGroup = (\<lambda>body. Inr zero_TaskGroup),
     rc_TaskGroupList = (\<lambda>body. Inr (zero_TaskGroupList\<lparr>tl_ListMeta := body\<rparr>)), rc_watch = (\<lambda>r. Inr [])\<rparr>"

definition ex_config_lib :: "string ConfigLib" where
  "ex_config_lib = \<lparr>cl_connect = (\<lambda>c. if cf_rest c = [] then Inl (Errorf ''no host'') else Inr ex_rest_client),
     cl_DefaultKubernetesUserAgent = ''controller''\<rparr>"

lemma ex_connects: "connects ex_config_lib ex_config"
  by (simp add: connects_def ex_config_lib_def ex_config_def)

theorem clientset_limiters_witness:
  "(\<exists>err. clientset_NewForConfig ex_config_lib ex_config [] = (Inl err, [])) \<and>
   (\<exists>cs. clientset_NewForConfigOrDie ex_config_lib ex_config [] = (Inr cs, [(50, 10), (50, 100)]) \<and>
     rst_rateLimiter (cc_restClient (cs_customV1alpha1 cs)) = Some 0 \<and> rst_rateLimiter (cs_DiscoveryClient cs) = Some 1)"
proof -
  have "cf_RateLimiter ex_config = None" "cf_QPS ex_config = 50" "cf_Burst ex_config = 0" by (simp_all add: ex_config_def)
  then show ?thesis using clientset_limiters [OF ex_connects, of "[]"] by simp
qed

text \<open>The clients that \<open>withClientFromConfig\<close> puts into a context.\<close>

definition default_clients :: "'b ConfigLib \<Rightarrow> limiters \<Rightarrow> Config \<Rightarrow> ClientInterface may_panic" where
  "default_clients L ls cfg = map_sum id clientset_interface (fst (clientset_NewForConfigOrDie L cfg ls))"

text \<open>From the configuration to the requests: where the API server can be reached, the default injection
  gives the controller a TaskGroup informer, and what this informer lists is what the typed client of the
  scoped namespace gets from that server.\<close>

theorem controller_informer_lists_over_rest:
  assumes "cl_connect L (fst (setConfigDefaults L cfg)) = Inr rc" "cl_connect L (setDiscoveryDefaults L cfg) = Inr rd"
  shows "\<exists>ctx' infs h' tginf.
    SetupInformers (Default (default_clients L ls) False) ctx cfg h = Inr (ctx', infs, h') \<and>
    informer_Get ctx' = Inr tginf \<and> lists tginf h' = taskGroups_List (newTaskGroups rc (GetNamespaceScope ctx))"
proof -
  from NewForConfigOrDie_ok [OF assms, of ls] obtain cs ls' where cs: "clientset_NewForConfigOrDie L cfg ls = (Inr cs, ls')"
    "rst_client (cc_restClient (cs_customV1alpha1 cs)) = rc" by blast
  have "default_clients L ls cfg = Inr (clientset_interface cs)" by (simp add: default_clients_def cs(1))
  from SetupInformers_result [where N = "default_clients L ls" and filtered = False and sels = "[]", OF this]
  obtain ctx' infs h' where s: "SetupInformers (Default (default_clients L ls) False) ctx cfg h = Inr (ctx', infs, h')"
    "serves (clientset_interface cs) (GetNamespaceScope ctx) None h' (informer_Get ctx')"
    by blast
  have "(\<lambda>opts. ci_List (clientset_interface cs) ns opts) = taskGroups_List (newTaskGroups rc ns)" for ns
    by (simp add: clientset_interface_def custom_TaskGroups_def Clientset_CustomV1alpha1_def cs(2))
  with serves_lists [OF s(2)] s(1) show ?thesis by auto
qed

theorem controller_informer_lists_over_rest_witness:
  "\<exists>ctx' infs h' tginf.
    SetupInformers (Default (default_clients ex_config_lib []) False) (WithValue ([] :: (Config, unit, unit) ctx) nsKey (String_val ''ns''))
      ex_config [] = Inr (ctx', infs, h') \<and>
    informer_Get ctx' = Inr tginf \<and> lists tginf h' = taskGroups_List (newTaskGroups ex_rest_client ''ns'')"
proof -
  have "cl_connect ex_config_lib (fst (setConfigDefaults ex_config_lib ex_config)) = Inr ex_rest_client"
    "cl_connect ex_config_lib (setDiscoveryDefaults ex_config_lib ex_config) = Inr ex_rest_client"
    by (simp_all add: ex_config_lib_def ex_config_def setConfigDefaults_def setDiscoveryDefaults_def Let_def)
  from controller_informer_lists_over_rest [OF this, of "[]" "WithValue ([] :: (Config, unit, unit) ctx) nsKey (String_val ''ns'')" "[]"]
  show ?thesis by (simp add: GetNamespaceScope_def)
qed

end
