(* ===== verification/Injection_Types.thy ===== *)
theory Injection_Types
  imports Injection
begin

text \<open>
  The types behind \<open>ctx.Value\<close>. A Go context is untyped: every \<open>Get\<close> of the injection packages asserts the type
  of what it finds, and a wrong type or a pointer to nothing is a panic at run time. A typing discipline for
  contexts, its preservation by every injector of the repository, and that well-typed contexts lead to no failed
  type assertion; \<open>SetupDynamic\<close> of \<open>knative.dev/pkg/injection\<close> beside \<open>SetupInformers\<close>.
\<close>

section \<open>SetupDynamic\<close>

record ('cfg, 'u, 'ul) dynamic_impl =
  im_dynamicClients :: "(('cfg, 'u, 'ul) ctx \<Rightarrow> ('cfg, 'u, 'ul) ctx may_panic) list"
  im_dynamicInformers :: "(('cfg, 'u, 'ul) ctx \<Rightarrow> ('cfg, 'u, 'ul) ctx may_panic) list"

fun setup_all :: "('c \<Rightarrow> 'c may_panic) list \<Rightarrow> 'c \<Rightarrow> 'c may_panic" where
  "setup_all [] ctx = Inr ctx"
| "setup_all (ci # cis) ctx = (case ci ctx of Inl p \<Rightarrow> Inl p | Inr ctx \<Rightarrow> setup_all cis ctx)"

definition SetupDynamic :: "('cfg, 'u, 'ul) dynamic_impl \<Rightarrow> ('cfg, 'u, 'ul) ctx \<Rightarrow> ('cfg, 'u, 'ul) ctx may_panic" where
  "SetupDynamic i ctx =
     (case setup_all (im_dynamicClients i) ctx of
        Inl p \<Rightarrow> Inl p
      | Inr ctx \<Rightarrow> setup_all (im_dynamicInformers i) ctx)"

text \<open>What the packages of this repository register with \<open>injection.Dynamic\<close>.\<close>

definition Dynamic_injection :: "('b, 'u, 'ul) Json \<Rightarrow> bool \<Rightarrow> ('cfg, 'u, 'ul) dynamic_impl" where
  "Dynamic_injection json filtered =
     \<lparr>im_dynamicClients = [withClientFromDynamic json],
      im_dynamicInformers = informer_withDynamicInformer # (if filtered then [filteredinformer_withDynamicInformer] else [])\<rparr>"

section \<open>Well-typed contexts\<close>

text \<open>A pointer to a factory is one into the heap, which has \<open>n\<close> cells.\<close>

fun informer_ok :: "nat \<Rightarrow> TaskGroupInformer \<Rightarrow> bool" where
  "informer_ok n (Factory_informer p i) \<longleftrightarrow> p < n"
| "informer_ok n (Wrapper_informer w) \<longleftrightarrow> True"
| "informer_ok n (Filtered_informer w) \<longleftrightarrow> True"

inductive val_ok :: "nat \<Rightarrow> ctx_key \<Rightarrow> ('cfg, 'u, 'ul) ctx_value \<Rightarrow> bool" for n where
  client: "val_ok n client_Key (Client_val c)"
| fake: "val_ok n client_Key (Fake_val p c)"
| factory: "p < n \<Longrightarrow> val_ok n factory_Key (Factory_val p)"
| filteredfactory: "p < n \<Longrightarrow> val_ok n (filteredfactory_Key s) (Factory_val p)"
| labels: "val_ok n LabelKey (Selectors_val l)"
| informer: "informer_ok n tginf \<Longrightarrow> val_ok n informer_Key (Informer_val tginf)"
| filteredinformer: "informer_ok n tginf \<Longrightarrow> val_ok n (filteredinformer_Key s) (Informer_val tginf)"
| dynamicclient: "val_ok n dynamicclient_Key (Dynamic_val d)"
| ns: "val_ok n nsKey (String_val s)"
| rv: "val_ok n rvKey (String_val s)"
| cfg: "val_ok n cfgKey (Config_val c)"
| resync: "val_ok n resyncPeriodKey (Duration_val d)"

declare val_ok.intros [intro!]

inductive_cases val_ok_cases [elim!]:
  "val_ok n client_Key v" "val_ok n factory_Key v" "val_ok n (filteredfactory_Key s) v" "val_ok n LabelKey v"
  "val_ok n informer_Key v" "val_ok n (filteredinformer_Key s) v" "val_ok n dynamicclient_Key v"

definition ctx_ok :: "nat \<Rightarrow> ('cfg, 'u, 'ul) ctx \<Rightarrow> bool" where
  "ctx_ok n ctx \<longleftrightarrow> (\<forall>(k, v) \<in> set ctx. val_ok n k v)"

lemma ctx_ok_Nil [simp]: "ctx_ok n []"
  by (simp add: ctx_ok_def)

lemma ctx_ok_WithValue [simp]: "ctx_ok n (WithValue ctx k v) \<longleftrightarrow> val_ok n k v \<and> ctx_ok n ctx"
  by (simp add: ctx_ok_def WithValue_def)

lemma ctx_ok_Value: "ctx_ok n ctx \<Longrightarrow> Value ctx k = Some v \<Longrightarrow> val_ok n k v"
  by (auto simp: ctx_ok_def Value_def dest: map_of_SomeD)

text \<open>Weakening: what is well typed stays so when the heap grows.\<close>

lemma informer_ok_mono: "informer_ok n i \<Longrightarrow> n \<le> m \<Longrightarrow> informer_ok m i"
  by (cases i) auto

lemma val_ok_mono: "val_ok n k v \<Longrightarrow> n \<le> m \<Longrightarrow> val_ok m k v"
  by (induction rule: val_ok.induct) (auto intro: informer_ok_mono)

lemma ctx_ok_Suc: "ctx_ok n ctx \<Longrightarrow> ctx_ok (Suc n) ctx"
  by (auto simp: ctx_ok_def intro: val_ok_mono [of n])

section \<open>Getters do not fail on a type\<close>

lemma client_Get_ok: "ctx_ok n ctx \<Longrightarrow> client_Get ctx = bad_type \<Longrightarrow> Value ctx client_Key = None"
  by (cases "Value ctx client_Key") (auto simp: client_Get_def bad_type_def dest: ctx_ok_Value)

lemma factory_Get_ok: "ctx_ok n ctx \<Longrightarrow> factory_Get ctx = Inr p \<Longrightarrow> p < n"
  by (cases "Value ctx factory_Key") (auto simp: factory_Get_def dest: ctx_ok_Value)

lemma filteredfactory_Get_ok: "ctx_ok n ctx \<Longrightarrow> filteredfactory_Get ctx s = Inr p \<Longrightarrow> p < n"
  by (cases "Value ctx (filteredfactory_Key s)") (auto simp: filteredfactory_Get_def dest: ctx_ok_Value)

lemma labels_of_ok:
  assumes "ctx_ok n ctx" "labels_of ctx = Inl p"
  shows "Value ctx LabelKey = None" "p = ''Unable to fetch labelkey from context.''"
  using assms by (cases "Value ctx LabelKey"; auto simp: labels_of_def dest: ctx_ok_Value)+

lemma dynamicclient_Get_ok:
  assumes "ctx_ok n ctx" "dynamicclient_Get ctx = Inl p"
  shows "Value ctx dynamicclient_Key = None" "p = ''Unable to fetch dynamic.Interface from context.''"
  using assms by (cases "Value ctx dynamicclient_Key"; auto simp: dynamicclient_Get_def dest: ctx_ok_Value)+

section \<open>Injectors preserve types\<close>

lemma factory_withInformerFactory_ok:
  "ctx_ok (length h) ctx \<Longrightarrow> factory_withInformerFactory ctx h = Inr (ctx', h') \<Longrightarrow> ctx_ok (length h') ctx'"
  by (auto simp: factory_withInformerFactory_def Let_def intro: ctx_ok_Suc split: sum.splits)

lemma filteredfactory_loop_ok:
  "ctx_ok (length h) ctx \<Longrightarrow> filteredfactory_loop c captured sels ctx h = (ctx', h') \<Longrightarrow> ctx_ok (length h') ctx'"
proof (induction c captured sels ctx h rule: filteredfactory_loop.induct)
  case (2 c captured sel sels ctx h)
  have "ctx_ok (Suc (length h)) (WithValue ctx (filteredfactory_Key sel) (Factory_val (length h)))"
    using "2.prems"(1) ctx_ok_Suc by auto
  then show ?case using "2.IH" "2.prems"(2) by (simp add: Let_def)
qed simp

lemma filteredfactory_withInformerFactory_ok:
  "ctx_ok (length h) ctx \<Longrightarrow> filteredfactory_withInformerFactory ctx h = Inr (ctx', h') \<Longrightarrow> ctx_ok (length h') ctx'"
  by (auto simp: filteredfactory_withInformerFactory_def intro: filteredfactory_loop_ok split: sum.splits)

lemma informer_of_length [simp]: "informer_of tginf h = (i, h') \<Longrightarrow> length h' = length h"
  by (auto simp: informer_of_def split: TaskGroupInformer.splits prod.splits)

lemma informer_withInformer_ok:
  assumes "ctx_ok (length h) ctx" "informer_withInformer ctx h = Inr (ctx', i, h')"
  shows "ctx_ok (length h') ctx'"
proof -
  from assms(2) obtain p where p: "factory_Get ctx = Inr p" by (auto simp: informer_withInformer_def split: sum.splits)
  from factory_Get_ok [OF assms(1) p] have "val_ok (length h) informer_Key
      (Informer_val (Factory_informer p (Custom_V1alpha1_TaskGroups (h ! p))))" by auto
  with assms p show ?thesis by (auto simp: informer_withInformer_def Let_def split: prod.splits)
qed

lemma filteredinformer_loop_ok:
  "ctx_ok (length h) ctx \<Longrightarrow> filteredinformer_loop sels ctx infs h = Inr (ctx', infs', h') \<Longrightarrow> ctx_ok (length h') ctx'"
proof (induction sels ctx infs h rule: filteredinformer_loop.induct)
  case (2 sel sels ctx infs h)
  then obtain p where p: "filteredfactory_Get ctx sel = Inr p" by (auto split: sum.splits)
  obtain i h1 where i: "informer_of (Factory_informer p (Custom_V1alpha1_TaskGroups (h ! p))) h = (i, h1)" by fastforce
  have "p < length h" by (rule filteredfactory_Get_ok [OF "2.prems"(1) p])
  with "2.prems"(1) have "ctx_ok (length h1) (WithValue ctx (filteredinformer_Key sel)
      (Informer_val (Factory_informer p (Custom_V1alpha1_TaskGroups (h ! p)))))"
    using i by auto
  from "2.IH" [OF p refl refl i [symmetric] refl this] "2.prems"(2) p i show ?case by (simp add: Let_def)
qed simp

lemma filteredinformer_withInformer_ok:
  "ctx_ok (length h) ctx \<Longrightarrow> filteredinformer_withInformer ctx h = Inr (ctx', infs, h') \<Longrightarrow> ctx_ok (length h') ctx'"
  by (auto simp: filteredinformer_withInformer_def intro: filteredinformer_loop_ok split: sum.splits)

lemma filtereddynamic_loop_ok:
  "ctx_ok n ctx \<Longrightarrow> filtereddynamic_loop sels ctx = Inr ctx' \<Longrightarrow> ctx_ok n ctx'"
proof (induction sels ctx rule: filtereddynamic_loop.induct)
  case (2 sel sels ctx)
  then obtain c where c: "client_Get ctx = Inr c" by (auto split: sum.splits)
  have "ctx_ok n (WithValue ctx (filteredinformer_Key sel)
      (Informer_val (Filtered_informer \<lparr>fw_client = c, fw_namespace = [], fw_selector = sel\<rparr>)))"
    using "2.prems"(1) by auto
  from "2.IH" [OF c refl this] "2.prems"(2) c show ?case by (simp add: Let_def)
qed simp

lemma SetupInformers_ok:
  assumes "ctx_ok (length h) ctx" "SetupInformers (Default N filtered) ctx cfg h = Inr (ctx', infs, h')"
  shows "ctx_ok (length h') ctx'"
proof -
  from assms(2) obtain c where c: "N cfg = Inr c"
    by (auto simp: SetupInformers_def Default_def withClientFromConfig_def split: sum.splits)
  let ?ctx = "WithValue ctx client_Key (Client_val c)"
  from assms(2) c obtain ctx1 h1 where 1: "factory_withInformerFactory ?ctx h = Inr (ctx1, h1)"
    by (auto simp: SetupInformers_def Default_def withClientFromConfig_def split: sum.splits)
  have "ctx_ok (length h) ?ctx" using assms(1) by auto
  from factory_withInformerFactory_ok [OF this 1] have ok1: "ctx_ok (length h1) ctx1" .
  show ?thesis
  proof (cases filtered)
    case False
    with assms(2) c 1 show ?thesis
      by (auto simp: SetupInformers_def Default_def withClientFromConfig_def split: sum.splits
          intro: informer_withInformer_ok [OF ok1])
  next
    case True
    with assms(2) c 1 obtain ctx2 h2 ctx3 i h3 where
      2: "filteredfactory_withInformerFactory ctx1 h1 = Inr (ctx2, h2)"
      and 3: "informer_withInformer ctx2 h2 = Inr (ctx3, i, h3)"
      and 4: "\<exists>infs'. filteredinformer_withInformer ctx3 h3 = Inr (ctx', infs', h')"
      by (auto simp: SetupInformers_def Default_def withClientFromConfig_def split: sum.splits)
    from filteredinformer_withInformer_ok informer_withInformer_ok [OF filteredfactory_withInformerFactory_ok [OF ok1 2] 3] 4
    show ?thesis by blast
  qed
qed

text \<open>The run for dynamic clients ends when its context has the dynamic client and, where needed, the selectors;
  then the context is well typed, has the wrapping client and a TaskGroup informer over it.\<close>

lemma SetupDynamic_result:
  assumes "dynamicclient_Get ctx = Inr dyn" "filtered \<Longrightarrow> labels_of ctx = Inr sels"
  shows "\<exists>ctx'. SetupDynamic (Dynamic_injection json filtered) ctx = Inr ctx' \<and>
    (ctx_ok n ctx \<longrightarrow> ctx_ok n ctx') \<and>
    (\<forall>s. filtered \<and> s \<in> set sels \<longrightarrow> filteredinformer_Get ctx' s =
       Inr (Filtered_informer \<lparr>fw_client = wrap_interface dyn json, fw_namespace = [], fw_selector = s\<rparr>))"
proof -
  let ?c = "wrap_interface dyn json"
  let ?w = "Wrapper_informer (withDynamicInformer ?c (GetResourceVersion (WithValue ctx client_Key (Client_val ?c))))"
  let ?ctx = "WithValue (WithValue ctx client_Key (Client_val ?c)) informer_Key (Informer_val ?w)"
  have ok: "ctx_ok n ctx \<longrightarrow> ctx_ok n ?ctx" by auto
  have c: "client_Get ?ctx = Inr ?c" by simp
  have run: "SetupDynamic (Dynamic_injection json filtered) ctx =
      (if filtered then filteredinformer_withDynamicInformer ?ctx else Inr ?ctx)"
    using assms(1) c
    by (simp add: SetupDynamic_def Dynamic_injection_def withClientFromDynamic_def informer_withDynamicInformer_def Let_def
        split: sum.splits)
  show ?thesis
  proof (cases filtered)
    case True
    from filtereddynamic_loop_result [OF c, of sels] obtain ctx' where l: "filtereddynamic_loop sels ?ctx = Inr ctx'"
      "\<And>s. s \<in> set sels \<Longrightarrow> filteredinformer_Get ctx' s =
         Inr (Filtered_informer \<lparr>fw_client = ?c, fw_namespace = [], fw_selector = s\<rparr>)" by auto
    have "SetupDynamic (Dynamic_injection json filtered) ctx = Inr ctx'"
      using run True l(1) assms(2) by (simp add: filteredinformer_withDynamicInformer_def)
    then show ?thesis using ok filtereddynamic_loop_ok [OF _ l(1)] l(2) by blast
  qed (use run ok in auto)
qed

lemma SetupDynamic_no_client: "dynamicclient_Get ctx = Inl p \<Longrightarrow> SetupDynamic (Dynamic_injection json filtered) ctx = Inl p"
  by (simp add: SetupDynamic_def Dynamic_injection_def withClientFromDynamic_def)

text \<open>C34. Injection is type safe. Starting from a context in which every key holds a value of its type and every
  pointer to a factory is one into the heap, \<open>SetupInformers\<close> ends in such a context again, or with one of two
  panics: the one of the client's constructor, or the one for missing label selectors where the filtered
  packages are linked. No type assertion fails.\<close>

theorem SetupInformers_type_safe:
  assumes "ctx_ok (length h) ctx"
  shows "case SetupInformers (Default NewForConfigOrDie filtered) ctx cfg h of
      Inr (ctx', infs, h') \<Rightarrow> ctx_ok (length h') ctx'
    | Inl p \<Rightarrow> NewForConfigOrDie cfg = Inl p \<or>
        filtered \<and> Value ctx LabelKey = None \<and> p = ''Unable to fetch labelkey from context.''"
proof (cases "SetupInformers (Default NewForConfigOrDie filtered) ctx cfg h")
  case (Inr r)
  then show ?thesis using SetupInformers_ok [OF assms] by (cases r) auto
next
  case (Inl p)
  show ?thesis
  proof (cases "NewForConfigOrDie cfg")
    case (Inl p')
    from SetupInformers_no_client [where N = NewForConfigOrDie and filtered = filtered and ctx = ctx and h = h, OF this] \<open>SetupInformers _ _ _ _ = Inl p\<close>
    show ?thesis by (simp add: Inl)
  next
    case (Inr c)
    have "filtered \<and> labels_of ctx = Inl p"
    proof (cases "filtered \<and> (\<exists>p'. labels_of ctx = Inl p')")
      case True
      then show ?thesis using SetupInformers_no_labels [where N = NewForConfigOrDie, OF Inr] Inl by fastforce
    next
      case False
      then obtain sels where "filtered \<Longrightarrow> labels_of ctx = Inr sels" by (cases "labels_of ctx") auto
      from SetupInformers_result [where N = NewForConfigOrDie and h = h and filtered = filtered, OF Inr this] Inl show ?thesis by auto
    qed
    with labels_of_ok [OF assms] Inl show ?thesis by simp
  qed
qed

lemma ex_ctx_ok: "ctx_ok 0 ex_ctx"
  by (auto simp: ex_ctx_def WithSelectors_def)

theorem SetupInformers_type_safe_witness:
  "ctx_ok 0 ex_ctx \<and>
   (case SetupInformers (Default (\<lambda>_. Inr ex_client) True) ex_ctx () [] of
      Inr (ctx', infs, h') \<Rightarrow> ctx_ok (length h') ctx'
    | Inl p \<Rightarrow> False)"
  using SetupInformers_type_safe [where h = "[]" and ctx = ex_ctx and NewForConfigOrDie = "\<lambda>_. Inr ex_client" and filtered = True and cfg = "()"] ex_ctx_ok ex_ctx_facts(1)
  by (auto simp: labels_of_def split: sum.splits option.splits)

end
