(* ===== verification/Object_Tracker.thy ===== *)
theory Object_Tracker
  imports Injection Field_Errors
begin

text \<open>
  What the fake clientset is built on: package \<open>k8s.io/client-go/testing\<close> with the object tracker
  (\<open>fixture.go\<close>), the actions (\<open>actions.go\<close>) and the chain of reactors (\<open>fake.go\<close>), and the buffered
  watcher of \<open>apimachinery/pkg/watch\<close>.

  The tracker stores deep copies, so its objects are values; the scheme of this clientset has TaskGroups
  and their lists only. Watchers are shared by pointer: they live in a list, and a pointer is an index. A
  full channel panics. Parsing of selectors, JSON and the patches are the record \<open>FakeLib\<close>.
\<close>

section \<open>Objects, actions and watchers\<close>

datatype RuntimeObject =
    TaskGroup_object TaskGroup
  | TaskGroupList_object TaskGroupList

type_synonym NamespacedName = "string \<times> string"

datatype Action =
    GetActionImpl GroupVersionResource string string
  | ListActionImpl GroupVersionResource string string Selector
  | CreateActionImpl GroupVersionResource string string TaskGroup
  | UpdateActionImpl GroupVersionResource string string TaskGroup
  | DeleteActionImpl GroupVersionResource string string
  | DeleteCollectionActionImpl GroupVersionResource string Selector
  | PatchActionImpl GroupVersionResource string string string PatchType string
  | WatchActionImpl GroupVersionResource string Selector

fun GetVerb :: "Action \<Rightarrow> string" where
  "GetVerb (GetActionImpl r ns n) = ''get''"
| "GetVerb (ListActionImpl r k ns s) = ''list''"
| "GetVerb (CreateActionImpl r sub ns x) = ''create''"
| "GetVerb (UpdateActionImpl r sub ns x) = ''update''"
| "GetVerb (DeleteActionImpl r ns n) = ''delete''"
| "GetVerb (DeleteCollectionActionImpl r ns s) = ''delete-collection''"
| "GetVerb (PatchActionImpl r sub ns n pt d) = ''patch''"
| "GetVerb (WatchActionImpl r ns s) = ''watch''"

fun GetResource :: "Action \<Rightarrow> GroupVersionResource" where
  "GetResource (GetActionImpl r ns n) = r"
| "GetResource (ListActionImpl r k ns s) = r"
| "GetResource (CreateActionImpl r sub ns x) = r"
| "GetResource (UpdateActionImpl r sub ns x) = r"
| "GetResource (DeleteActionImpl r ns n) = r"
| "GetResource (DeleteCollectionActionImpl r ns s) = r"
| "GetResource (PatchActionImpl r sub ns n pt d) = r"
| "GetResource (WatchActionImpl r ns s) = r"

fun GetNamespace :: "Action \<Rightarrow> string" where
  "GetNamespace (GetActionImpl r ns n) = ns"
| "GetNamespace (ListActionImpl r k ns s) = ns"
| "GetNamespace (CreateActionImpl r sub ns x) = ns"
| "GetNamespace (UpdateActionImpl r sub ns x) = ns"
| "GetNamespace (DeleteActionImpl r ns n) = ns"
| "GetNamespace (DeleteCollectionActionImpl r ns s) = ns"
| "GetNamespace (PatchActionImpl r sub ns n pt d) = ns"
| "GetNamespace (WatchActionImpl r ns s) = ns"

fun GetSubresource :: "Action \<Rightarrow> string" where
  "GetSubresource (CreateActionImpl r sub ns x) = sub"
| "GetSubresource (UpdateActionImpl r sub ns x) = sub"
| "GetSubresource (PatchActionImpl r sub ns n pt d) = sub"
| "GetSubresource _ = []"

datatype EventType = Added | Modified | Deleted

record watcher =
  wt_result :: "(EventType \<times> TaskGroup) list"
  wt_Stopped :: bool

definition NewRaceFreeFake :: watcher where
  "NewRaceFreeFake = \<lparr>wt_result = [], wt_Stopped = False\<rparr>"

definition DefaultChanSize :: nat where "DefaultChanSize = 100"

text \<open>\<open>Add\<close>, \<open>Modify\<close> and \<open>Delete\<close> of a watcher differ in the type of the event.\<close>

definition watcher_send :: "EventType \<Rightarrow> TaskGroup \<Rightarrow> watcher \<Rightarrow> watcher may_panic" where
  "watcher_send ev obj w =
     (if \<not> wt_Stopped w then
        (if length (wt_result w) < DefaultChanSize then Inr (w\<lparr>wt_result := wt_result w @ [(ev, obj)]\<rparr>)
         else Inl ''channel full'')
      else Inr w)"

section \<open>The tracker\<close>

record tracker =
  tk_objects :: "(GroupVersionResource \<times> (NamespacedName \<times> TaskGroup) list) list"
  tk_watchers :: "(GroupVersionResource \<times> (string \<times> nat list) list) list"
  tk_channels :: "watcher list"

definition NewObjectTracker :: tracker where
  "NewObjectTracker = \<lparr>tk_objects = [], tk_watchers = [], tk_channels = []\<rparr>"

definition gvr_GroupResource :: "GroupVersionResource \<Rightarrow> GroupResource" where
  "gvr_GroupResource r = \<lparr>gr_Group = gvr_Group r, gr_Resource = gvr_Resource r\<rparr>"

definition NewAlreadyExists :: "GroupResource \<Rightarrow> string \<Rightarrow> goerror" where
  "NewAlreadyExists gr name = Errorf (GroupResource_String gr @ '' '' @ quote name @ '' already exists'')"

definition NewBadRequest :: "string \<Rightarrow> goerror" where
  "NewBadRequest reason = Errorf reason"

definition getWatches :: "tracker \<Rightarrow> GroupVersionResource \<Rightarrow> string \<Rightarrow> nat list" where
  "getWatches t gvr ns =
     (case map_of (tk_watchers t) gvr of
        None \<Rightarrow> []
      | Some m \<Rightarrow>
          (case map_of m ns of None \<Rightarrow> [] | Some w \<Rightarrow> w) @
          (if ns \<noteq> [] then (case map_of m [] of None \<Rightarrow> [] | Some w \<Rightarrow> w) else []))"

fun send_all :: "EventType \<Rightarrow> TaskGroup \<Rightarrow> nat list \<Rightarrow> watcher list \<Rightarrow> watcher list may_panic" where
  "send_all ev obj [] ch = Inr ch"
| "send_all ev obj (w # ws) ch =
     (case watcher_send ev obj (ch ! w) of
        Inl p \<Rightarrow> Inl p
      | Inr w' \<Rightarrow> send_all ev obj ws (ch[w := w']))"

definition tracker_notify ::
    "EventType \<Rightarrow> TaskGroup \<Rightarrow> GroupVersionResource \<Rightarrow> string \<Rightarrow> tracker \<Rightarrow> tracker may_panic" where
  "tracker_notify ev obj gvr ns t =
     (case send_all ev obj (getWatches t gvr ns) (tk_channels t) of
        Inl p \<Rightarrow> Inl p
      | Inr ch \<Rightarrow> Inr (t\<lparr>tk_channels := ch\<rparr>))"

definition filterByNamespace :: "(NamespacedName \<times> TaskGroup) list \<Rightarrow> string \<Rightarrow> TaskGroup list" where
  "filterByNamespace objs ns =
     sort_key (\<lambda>obj. (tg_Namespace obj, tg_Name obj))
       (filter (\<lambda>obj. \<not> (ns \<noteq> [] \<and> tg_Namespace obj \<noteq> ns)) (map snd objs))"

text \<open>\<open>tracker.List\<close> for the kind TaskGroup, whose list kind is registered.\<close>

definition tracker_List :: "tracker \<Rightarrow> GroupVersionResource \<Rightarrow> string \<Rightarrow> TaskGroupList" where
  "tracker_List t gvr ns =
     (case map_of (tk_objects t) gvr of
        None \<Rightarrow> zero_TaskGroupList
      | Some objs \<Rightarrow> zero_TaskGroupList\<lparr>tl_Items := filterByNamespace objs ns\<rparr>)"

definition tracker_Get :: "tracker \<Rightarrow> GroupVersionResource \<Rightarrow> string \<Rightarrow> string \<Rightarrow> TaskGroup option go" where
  "tracker_Get t gvr ns name =
     (let errNotFound = NewNotFound (gvr_GroupResource gvr) name in
      case map_of (tk_objects t) gvr of
        None \<Rightarrow> (None, Some errNotFound)
      | Some objs \<Rightarrow>
          (case map_of objs (ns, name) of
             None \<Rightarrow> (None, Some errNotFound)
           | Some obj \<Rightarrow> (Some obj, None)))"

definition set_namespace :: "string \<Rightarrow> TaskGroup \<Rightarrow> TaskGroup" where
  "set_namespace ns obj = obj\<lparr>tgr_Meta := (tgr_Meta obj)\<lparr>om_Namespace := ns\<rparr>\<rparr>"

definition tracker_add ::
    "GroupVersionResource \<Rightarrow> TaskGroup \<Rightarrow> string \<Rightarrow> bool \<Rightarrow> tracker \<Rightarrow> (goerror option \<times> tracker) may_panic" where
  "tracker_add gvr obj ns replaceExisting t =
     (let gr = gvr_GroupResource gvr;
          obj = (if length (tg_Namespace obj) = 0 then set_namespace ns obj else obj)
      in if ns \<noteq> tg_Namespace obj
         then Inr (Some (NewBadRequest (''request namespace does not match object namespace, request: '' @ quote ns @
                '' object: '' @ quote (tg_Namespace obj))), t)
         else
           let t = (if map_of (tk_objects t) gvr = None then t\<lparr>tk_objects := AList.update gvr [] (tk_objects t)\<rparr> else t);
               objs = the (map_of (tk_objects t) gvr);
               namespacedName = (tg_Namespace obj, tg_Name obj);
               stored = t\<lparr>tk_objects := AList.update gvr (AList.update namespacedName obj objs) (tk_objects t)\<rparr>
           in if map_of objs namespacedName \<noteq> None then
                (if replaceExisting then map_sum id (Pair None) (tracker_notify Modified obj gvr ns stored)
                 else Inr (Some (NewAlreadyExists gr (tg_Name obj)), t))
              else if replaceExisting then Inr (Some (NewNotFound gr (tg_Name obj)), t)
              else map_sum id (Pair None) (tracker_notify Added obj gvr ns stored))"

definition tracker_Delete ::
    "GroupVersionResource \<Rightarrow> string \<Rightarrow> string \<Rightarrow> tracker \<Rightarrow> (goerror option \<times> tracker) may_panic" where
  "tracker_Delete gvr ns name t =
     (case map_of (tk_objects t) gvr of
        None \<Rightarrow> Inr (Some (NewNotFound (gvr_GroupResource gvr) name), t)
      | Some objs \<Rightarrow>
          (case map_of objs (ns, name) of
             None \<Rightarrow> Inr (Some (NewNotFound (gvr_GroupResource gvr) name), t)
           | Some obj \<Rightarrow>
               let t = t\<lparr>tk_objects := AList.update gvr (AList.delete (ns, name) objs) (tk_objects t)\<rparr>
               in map_sum id (Pair None) (tracker_notify Deleted obj gvr ns t)))"

definition tracker_Watch :: "GroupVersionResource \<Rightarrow> string \<Rightarrow> tracker \<Rightarrow> nat \<times> tracker" where
  "tracker_Watch gvr ns t =
     (let fakewatcher = length (tk_channels t);
          m = (case map_of (tk_watchers t) gvr of None \<Rightarrow> [] | Some m \<Rightarrow> m);
          ws = (case map_of m ns of None \<Rightarrow> [] | Some ws \<Rightarrow> ws)
      in (fakewatcher, t\<lparr>tk_channels := tk_channels t @ [NewRaceFreeFake],
            tk_watchers := AList.update gvr (AList.update ns (ws @ [fakewatcher]) m) (tk_watchers t)\<rparr>))"

text \<open>\<open>Add\<close> stores an object under the resource guessed from its kind, a list element by element.\<close>

definition TaskGroup_resource :: GroupVersionResource where
  "TaskGroup_resource =
     \<lparr>gvr_Group = gv_Group SchemeGroupVersion, gvr_Version = gv_Version SchemeGroupVersion, gvr_Resource = ''taskgroups''\<rparr>"

fun addList :: "TaskGroup list \<Rightarrow> tracker \<Rightarrow> (goerror option \<times> tracker) may_panic" where
  "addList [] t = Inr (None, t)"
| "addList (obj # objs) t =
     (case tracker_add TaskGroup_resource obj (tg_Namespace obj) False t of
        Inl p \<Rightarrow> Inl p
      | Inr (Some err, t) \<Rightarrow> Inr (Some err, t)
      | Inr (None, t) \<Rightarrow> addList objs t)"

definition tracker_Add :: "RuntimeObject \<Rightarrow> tracker \<Rightarrow> (goerror option \<times> tracker) may_panic" where
  "tracker_Add obj t =
     (case obj of
        TaskGroupList_object l \<Rightarrow> addList (tl_Items l) t
      | TaskGroup_object tg \<Rightarrow> tracker_add TaskGroup_resource tg (tg_Namespace tg) False t)"

section \<open>Reactors\<close>

text \<open>The library calls of the fake client: parsing of selectors, and the patches on an object's JSON (\<open>'j\<close>).\<close>

record 'j FakeLib =
  fl_labels_Parse :: "string \<Rightarrow> goerror + Selector"
  fl_fields_ParseSelector :: "string \<Rightarrow> goerror option"
  fl_Marshal :: "TaskGroup \<Rightarrow> goerror + 'j"
  fl_Unmarshal :: "'j \<Rightarrow> goerror + TaskGroup"
  fl_JSONPatch :: "'j \<Rightarrow> string \<Rightarrow> goerror + 'j"
  fl_MergePatch :: "'j \<Rightarrow> string \<Rightarrow> goerror + 'j"
  fl_StrategicMergePatch :: "'j \<Rightarrow> string \<Rightarrow> goerror + 'j"

definition patched :: "'j FakeLib \<Rightarrow> PatchType \<Rightarrow> string \<Rightarrow> TaskGroup \<Rightarrow> goerror + TaskGroup" where
  "patched L pt patch obj =
     (case fl_Marshal L obj of
        Inl err \<Rightarrow> Inl err
      | Inr old \<Rightarrow>
          (case (if pt = ''application/json-patch+json'' then fl_JSONPatch L old patch
                 else if pt = ''application/merge-patch+json'' then fl_MergePatch L old patch
                 else if pt = ''application/strategic-merge-patch+json'' then fl_StrategicMergePatch L old patch
                 else Inl (Errorf ''PatchType is not supported'')) of
             Inl err \<Rightarrow> Inl err
           | Inr modified \<Rightarrow> fl_Unmarshal L modified))"

text \<open>The result of a reaction: whether it handled the action, and what it returns.\<close>

type_synonym reaction = "bool \<times> RuntimeObject option go"

definition get_object :: "tracker \<Rightarrow> GroupVersionResource \<Rightarrow> string \<Rightarrow> string \<Rightarrow> RuntimeObject option go" where
  "get_object t gvr ns name = map_prod (map_option TaskGroup_object) id (tracker_Get t gvr ns name)"

text \<open>\<open>err = ...; if err != nil { return true, nil, err }\<close>, then what follows.\<close>

definition and_then ::
    "(goerror option \<times> tracker) may_panic \<Rightarrow> (tracker \<Rightarrow> RuntimeObject option go) \<Rightarrow> (reaction \<times> tracker) may_panic" where
  "and_then r f =
     (case r of
        Inl p \<Rightarrow> Inl p
      | Inr (Some err, t) \<Rightarrow> Inr ((True, None, Some err), t)
      | Inr (None, t) \<Rightarrow> Inr ((True, f t), t))"

definition ObjectReaction :: "'j FakeLib \<Rightarrow> Action \<Rightarrow> tracker \<Rightarrow> (reaction \<times> tracker) may_panic" where
  "ObjectReaction L action t =
     (case action of
        ListActionImpl gvr kind ns sel \<Rightarrow>
          Inr ((True, Some (TaskGroupList_object (tracker_List t gvr ns)), None), t)
      | GetActionImpl gvr ns name \<Rightarrow> Inr ((True, get_object t gvr ns name), t)
      | CreateActionImpl gvr sub ns obj \<Rightarrow>
          and_then (tracker_add gvr obj ns (sub \<noteq> []) t) (\<lambda>t. get_object t gvr ns (tg_Name obj))
      | UpdateActionImpl gvr sub ns obj \<Rightarrow>
          and_then (tracker_add gvr obj ns True t) (\<lambda>t. get_object t gvr ns (tg_Name obj))
      | DeleteActionImpl gvr ns name \<Rightarrow> and_then (tracker_Delete gvr ns name t) (\<lambda>t. (None, None))
      | PatchActionImpl gvr sub ns name pt patch \<Rightarrow>
          (case tracker_Get t gvr ns name of
             (_, Some err) \<Rightarrow> Inr ((True, None, Some err), t)
           | (None, None) \<Rightarrow> Inr ((True, None, None), t)
           | (Some obj, None) \<Rightarrow>
               (case patched L pt patch obj of
                  Inl err \<Rightarrow> Inr ((True, None, Some err), t)
                | Inr obj \<Rightarrow>
                    and_then (tracker_add gvr obj ns True t) (\<lambda>t. (Some (TaskGroup_object obj), None))))
      | _ \<Rightarrow> Inr ((False, None, Some (Errorf ''no reaction implemented'')), t))"

record Reactor =
  re_Verb :: string
  re_Resource :: string
  re_Reaction :: "Action \<Rightarrow> tracker \<Rightarrow> (reaction \<times> tracker) may_panic"

record WatchReactor =
  wre_Resource :: string
  wre_Reaction :: "Action \<Rightarrow> tracker \<Rightarrow> (bool \<times> nat option go) \<times> tracker"

definition resourceCovers :: "string \<Rightarrow> Action \<Rightarrow> bool" where
  "resourceCovers resource action \<longleftrightarrow>
     (if resource = ''*'' then True
      else if resource = gvr_Resource (GetResource action) then True
      else CHR ''/'' \<in> set resource \<and>
        takeWhile (\<lambda>c. c \<noteq> CHR ''/'') resource = gvr_Resource (GetResource action) \<and>
        drop 1 (dropWhile (\<lambda>c. c \<noteq> CHR ''/'') resource) = GetSubresource action)"

definition SimpleReactor_Handles :: "Reactor \<Rightarrow> Action \<Rightarrow> bool" where
  "SimpleReactor_Handles r action \<longleftrightarrow>
     (let verbCovers = re_Verb r = ''*'' \<or> re_Verb r = GetVerb action
      in if \<not> verbCovers then False else resourceCovers (re_Resource r) action)"

text \<open>\<open>testing.Fake\<close>, with the tracker that its reactors change.\<close>

record Fake =
  fk_actions :: "Action list"
  fk_ReactionChain :: "Reactor list"
  fk_WatchReactionChain :: "WatchReactor list"
  fk_tracker :: tracker

definition AddReactor :: "string \<Rightarrow> string \<Rightarrow> (Action \<Rightarrow> tracker \<Rightarrow> (reaction \<times> tracker) may_panic) \<Rightarrow> Fake \<Rightarrow> Fake" where
  "AddReactor verb resource reaction c =
     c\<lparr>fk_ReactionChain := fk_ReactionChain c @ [\<lparr>re_Verb = verb, re_Resource = resource, re_Reaction = reaction\<rparr>]\<rparr>"

definition PrependReactor :: "string \<Rightarrow> string \<Rightarrow> (Action \<Rightarrow> tracker \<Rightarrow> (reaction \<times> tracker) may_panic) \<Rightarrow> Fake \<Rightarrow> Fake" where
  "PrependReactor verb resource reaction c =
     c\<lparr>fk_ReactionChain := \<lparr>re_Verb = verb, re_Resource = resource, re_Reaction = reaction\<rparr> # fk_ReactionChain c\<rparr>"

definition AddWatchReactor :: "string \<Rightarrow> (Action \<Rightarrow> tracker \<Rightarrow> (bool \<times> nat option go) \<times> tracker) \<Rightarrow> Fake \<Rightarrow> Fake" where
  "AddWatchReactor resource reaction c =
     c\<lparr>fk_WatchReactionChain := fk_WatchReactionChain c @ [\<lparr>wre_Resource = resource, wre_Reaction = reaction\<rparr>]\<rparr>"

fun Invokes_loop ::
    "Reactor list \<Rightarrow> Action \<Rightarrow> RuntimeObject \<Rightarrow> tracker \<Rightarrow> (RuntimeObject option go \<times> tracker) may_panic" where
  "Invokes_loop [] action defaultReturnObj t = Inr ((Some defaultReturnObj, None), t)"
| "Invokes_loop (reactor # reactors) action defaultReturnObj t =
     (if \<not> SimpleReactor_Handles reactor action then Invokes_loop reactors action defaultReturnObj t
      else (case re_Reaction reactor action t of
              Inl p \<Rightarrow> Inl p
            | Inr ((handled, ret), t) \<Rightarrow>
                if \<not> handled then Invokes_loop reactors action defaultReturnObj t else Inr (ret, t)))"

definition Invokes :: "Action \<Rightarrow> RuntimeObject \<Rightarrow> Fake \<Rightarrow> (RuntimeObject option go \<times> Fake) may_panic" where
  "Invokes action defaultReturnObj c =
     (let c = c\<lparr>fk_actions := fk_actions c @ [action]\<rparr> in
      case Invokes_loop (fk_ReactionChain c) action defaultReturnObj (fk_tracker c) of
        Inl p \<Rightarrow> Inl p
      | Inr (ret, t) \<Rightarrow> Inr (ret, c\<lparr>fk_tracker := t\<rparr>))"

fun InvokesWatch_loop :: "WatchReactor list \<Rightarrow> Action \<Rightarrow> tracker \<Rightarrow> nat option go \<times> tracker" where
  "InvokesWatch_loop [] action t = ((None, Some (Errorf ''unhandled watch'')), t)"
| "InvokesWatch_loop (reactor # reactors) action t =
     (if \<not> resourceCovers (wre_Resource reactor) action then InvokesWatch_loop reactors action t
      else (case wre_Reaction reactor action t of
              ((handled, ret), t) \<Rightarrow> if \<not> handled then InvokesWatch_loop reactors action t else (ret, t)))"

definition InvokesWatch :: "Action \<Rightarrow> Fake \<Rightarrow> nat option go \<times> Fake" where
  "InvokesWatch action c =
     (let c = c\<lparr>fk_actions := fk_actions c @ [action]\<rparr> in
      case InvokesWatch_loop (fk_WatchReactionChain c) action (fk_tracker c) of
        (ret, t) \<Rightarrow> (ret, c\<lparr>fk_tracker := t\<rparr>))"

text \<open>\<open>ExtractFromListOptions\<close> panics on a selector that does not parse; of its results the code uses the label
  selector. \<open>labels.Parse\<close> returns no nil selector without an error.\<close>

definition ExtractFromListOptions :: "'j FakeLib \<Rightarrow> ListOptions \<Rightarrow> Selector may_panic" where
  "ExtractFromListOptions L opts =
     (case fl_labels_Parse L (lo_LabelSelector opts) of
        Inl err \<Rightarrow> Inl (''invalid selector '' @ quote (lo_LabelSelector opts) @ '': '' @ error_string err)
      | Inr labelSelector \<Rightarrow>
          (case fl_fields_ParseSelector L (lo_FieldSelector opts) of
             Some err \<Rightarrow> Inl (''invalid selector '' @ quote (lo_FieldSelector opts) @ '': '' @ error_string err)
           | None \<Rightarrow> Inr labelSelector))"

end
