(* ===== verification/Fake_Client.thy ===== *)
theory Fake_Client
  imports Object_Tracker
begin

text \<open>
  The fake clientset for tests: \<open>typed/taskgroup/v1alpha1/fake/fake_taskgroup.go\<close> with
  \<open>fake_taskgroup_client.go\<close>, and \<open>NewSimpleClientset\<close> of \<open>fake/clientset_generated.go\<close>.

  The abstract specification of a fake clientset is a store, a map from namespaced names to TaskGroups,
  with the operations of an API server on it (\<open>serve\<close>). The lemmas show that the fake client refines it.
\<close>

section \<open>The clientset\<close>

definition watch_reaction :: "Action \<Rightarrow> tracker \<Rightarrow> (bool \<times> nat option go) \<times> tracker" where
  "watch_reaction action t =
     (let gvr = GetResource action;
          ns = GetNamespace action;
          (watch, t) = tracker_Watch gvr ns t
      in ((True, Some watch, None), t))"

definition simple_clientset :: "'j FakeLib \<Rightarrow> tracker \<Rightarrow> Fake" where
  "simple_clientset L o' =
     (let cs = \<lparr>fk_actions = [], fk_ReactionChain = [], fk_WatchReactionChain = [], fk_tracker = o'\<rparr>;
          cs = AddReactor ''*'' ''*'' (ObjectReaction L) cs;
          cs = AddWatchReactor ''*'' watch_reaction cs
      in cs)"

fun add_objects :: "RuntimeObject list \<Rightarrow> tracker \<Rightarrow> tracker may_panic" where
  "add_objects [] t = Inr t"
| "add_objects (obj # objs) t =
     (case tracker_Add obj t of
        Inl p \<Rightarrow> Inl p
      | Inr (Some err, t) \<Rightarrow> Inl (error_string err)
      | Inr (None, t) \<Rightarrow> add_objects objs t)"

definition NewSimpleClientset :: "'j FakeLib \<Rightarrow> RuntimeObject list \<Rightarrow> Fake may_panic" where
  "NewSimpleClientset L obs = map_sum id (simple_clientset L) (add_objects obs NewObjectTracker)"

section \<open>The client\<close>

text \<open>The value is the state of the \<open>testing.Fake\<close>; the namespace is that of the \<open>FakeTaskGroups\<close>.\<close>

record FakeTaskGroups =
  ft_Fake :: Fake
  ft_ns :: string

definition FakeCustomV1alpha1_TaskGroups :: "Fake \<Rightarrow> string \<Rightarrow> FakeTaskGroups" where
  "FakeCustomV1alpha1_TaskGroups c namespace = \<lparr>ft_Fake = c, ft_ns = namespace\<rparr>"

definition taskgroupsResource :: GroupVersionResource where
  "taskgroupsResource = \<lparr>gvr_Group = ''custom.tekton.dev'', gvr_Version = ''v1alpha1'', gvr_Resource = ''taskgroups''\<rparr>"

text \<open>\<open>if obj == nil { return nil, err }; return obj.(*v1alpha1.TaskGroup), err\<close>.\<close>

definition as_TaskGroup :: "(RuntimeObject option go \<times> Fake) may_panic \<Rightarrow> (TaskGroup option go \<times> Fake) may_panic" where
  "as_TaskGroup r =
     (case r of
        Inl p \<Rightarrow> Inl p
      | Inr ((None, err), c) \<Rightarrow> Inr ((None, err), c)
      | Inr ((Some (TaskGroup_object tg), err), c) \<Rightarrow> Inr ((Some tg, err), c)
      | Inr ((Some (TaskGroupList_object l), err), c) \<Rightarrow> bad_type)"

definition FakeTaskGroups_Get :: "FakeTaskGroups \<Rightarrow> string \<Rightarrow> (TaskGroup option go \<times> Fake) may_panic" where
  "FakeTaskGroups_Get c name =
     as_TaskGroup (Invokes (GetActionImpl taskgroupsResource (ft_ns c) name) (TaskGroup_object zero_TaskGroup) (ft_Fake c))"

definition FakeTaskGroups_List ::
    "'j FakeLib \<Rightarrow> FakeTaskGroups \<Rightarrow> ListOptions \<Rightarrow> (TaskGroupList option go \<times> Fake) may_panic" where
  "FakeTaskGroups_List L c opts =
     (case ExtractFromListOptions L opts of
        Inl p \<Rightarrow> Inl p
      | Inr labelSelector \<Rightarrow>
          (case Invokes (ListActionImpl taskgroupsResource ''TaskGroup'' (ft_ns c) labelSelector)
             (TaskGroupList_object zero_TaskGroupList) (ft_Fake c) of
             Inl p \<Rightarrow> Inl p
           | Inr ((None, err), f) \<Rightarrow> Inr ((None, err), f)
           | Inr ((Some (TaskGroup_object tg), err), f) \<Rightarrow> bad_type
           | Inr ((Some (TaskGroupList_object obj), err), f) \<Rightarrow>
               let label = labelSelector;
                   list = zero_TaskGroupList\<lparr>tl_ListMeta := tl_ListMeta obj\<rparr>;
                   list = list\<lparr>tl_Items := filter (\<lambda>item. sel_Matches label (tg_Labels item)) (tl_Items obj)\<rparr>
               in Inr ((Some list, err), f)))"

definition FakeTaskGroups_Watch :: "'j FakeLib \<Rightarrow> FakeTaskGroups \<Rightarrow> ListOptions \<Rightarrow> (nat option go \<times> Fake) may_panic" where
  "FakeTaskGroups_Watch L c opts =
     map_sum id (\<lambda>labelSelector. InvokesWatch (WatchActionImpl taskgroupsResource (ft_ns c) labelSelector) (ft_Fake c))
       (ExtractFromListOptions L opts)"

definition FakeTaskGroups_Create :: "FakeTaskGroups \<Rightarrow> TaskGroup \<Rightarrow> (TaskGroup option go \<times> Fake) may_panic" where
  "FakeTaskGroups_Create c taskGroup =
     as_TaskGroup (Invokes (CreateActionImpl taskgroupsResource [] (ft_ns c) taskGroup) (TaskGroup_object zero_TaskGroup) (ft_Fake c))"

definition FakeTaskGroups_Update :: "FakeTaskGroups \<Rightarrow> TaskGroup \<Rightarrow> (TaskGroup option go \<times> Fake) may_panic" where
  "FakeTaskGroups_Update c taskGroup =
     as_TaskGroup (Invokes (UpdateActionImpl taskgroupsResource [] (ft_ns c) taskGroup) (TaskGroup_object zero_TaskGroup) (ft_Fake c))"

definition error_of :: "(RuntimeObject option go \<times> Fake) may_panic \<Rightarrow> (goerror option \<times> Fake) may_panic" where
  "error_of r = map_sum id (map_prod snd id) r"

definition FakeTaskGroups_Delete :: "FakeTaskGroups \<Rightarrow> string \<Rightarrow> (goerror option \<times> Fake) may_panic" where
  "FakeTaskGroups_Delete c name =
     error_of (Invokes (DeleteActionImpl taskgroupsResource (ft_ns c) name) (TaskGroup_object zero_TaskGroup) (ft_Fake c))"

definition FakeTaskGroups_DeleteCollection ::
    "'j FakeLib \<Rightarrow> FakeTaskGroups \<Rightarrow> ListOptions \<Rightarrow> (goerror option \<times> Fake) may_panic" where
  "FakeTaskGroups_DeleteCollection L c listOpts =
     (case ExtractFromListOptions L listOpts of
        Inl p \<Rightarrow> Inl p
      | Inr labelSelector \<Rightarrow>
          let action = DeleteCollectionActionImpl taskgroupsResource (ft_ns c) labelSelector
          in error_of (Invokes action (TaskGroupList_object zero_TaskGroupList) (ft_Fake c)))"

definition FakeTaskGroups_Patch ::
    "FakeTaskGroups \<Rightarrow> string \<Rightarrow> PatchType \<Rightarrow> string \<Rightarrow> string list \<Rightarrow> (TaskGroup option go \<times> Fake) may_panic" where
  "FakeTaskGroups_Patch c name pt data subresources =
     as_TaskGroup (Invokes
       (PatchActionImpl taskgroupsResource (join_with ''/'' (filter (\<lambda>s. s \<noteq> []) subresources)) (ft_ns c) name pt data)
       (TaskGroup_object zero_TaskGroup) (ft_Fake c))"

section \<open>The specification\<close>

type_synonym store = "NamespacedName \<Rightarrow> TaskGroup option"

type_synonym events = "(EventType \<times> TaskGroup) list"

datatype Op =
    Get_op string
  | List_op ListOptions
  | Create_op TaskGroup
  | Update_op TaskGroup
  | Delete_op string
  | DeleteCollection_op ListOptions
  | Patch_op string PatchType string "string list"

datatype Answer =
    Object_answer "TaskGroup option go"
  | List_answer "TaskGroupList option go"
  | Error_answer "goerror option"

text \<open>An operation of the fake client of a namespace.\<close>

definition fake_op :: "'j FakeLib \<Rightarrow> string \<Rightarrow> Op \<Rightarrow> Fake \<Rightarrow> (Answer \<times> Fake) may_panic" where
  "fake_op L ns op f =
     (let c = FakeCustomV1alpha1_TaskGroups f ns in
      case op of
        Get_op name \<Rightarrow> map_sum id (map_prod Object_answer id) (FakeTaskGroups_Get c name)
      | List_op opts \<Rightarrow> map_sum id (map_prod List_answer id) (FakeTaskGroups_List L c opts)
      | Create_op tg \<Rightarrow> map_sum id (map_prod Object_answer id) (FakeTaskGroups_Create c tg)
      | Update_op tg \<Rightarrow> map_sum id (map_prod Object_answer id) (FakeTaskGroups_Update c tg)
      | Delete_op name \<Rightarrow> map_sum id (map_prod Error_answer id) (FakeTaskGroups_Delete c name)
      | DeleteCollection_op opts \<Rightarrow> map_sum id (map_prod Error_answer id) (FakeTaskGroups_DeleteCollection L c opts)
      | Patch_op name pt data subs \<Rightarrow> map_sum id (map_prod Object_answer id) (FakeTaskGroups_Patch c name pt data subs))"

definition not_found :: "string \<Rightarrow> goerror" where
  "not_found name = NewNotFound (gvr_GroupResource taskgroupsResource) name"

text \<open>Storing an object in a namespace: it is put there if it names no namespace, and refused if it names another.\<close>

definition store_add :: "string \<Rightarrow> TaskGroup \<Rightarrow> bool \<Rightarrow> store \<Rightarrow> goerror option \<times> store \<times> events" where
  "store_add ns obj replace st =
     (let obj' = (if tg_Namespace obj = [] then set_namespace ns obj else obj);
          key = (ns, tg_Name obj)
      in if tg_Namespace obj' \<noteq> ns
         then (Some (NewBadRequest (''request namespace does not match object namespace, request: '' @ quote ns @
                '' object: '' @ quote (tg_Namespace obj'))), st, [])
         else if replace then
           (if st key = None then (Some (not_found (tg_Name obj)), st, [])
            else (None, st(key \<mapsto> obj'), [(Modified, obj')]))
         else
           (if st key = None then (None, st(key \<mapsto> obj'), [(Added, obj')])
            else (Some (NewAlreadyExists (gvr_GroupResource taskgroupsResource) (tg_Name obj)), st, [])))"

definition store_list :: "string \<Rightarrow> (string gomap \<Rightarrow> bool) \<Rightarrow> store \<Rightarrow> TaskGroup list" where
  "store_list ns matches st =
     filter (\<lambda>tg. matches (tg_Labels tg))
       (map (\<lambda>k. the (st k)) (sorted_list_of_set {k \<in> dom st. ns = [] \<or> fst k = ns}))"

definition answer_of :: "goerror option \<Rightarrow> TaskGroup option \<Rightarrow> Answer" where
  "answer_of err x = Object_answer (case err of None \<Rightarrow> (x, None) | Some e \<Rightarrow> (None, Some e))"

text \<open>What a server that holds the store answers, the new store and what its watchers see. Deleting a collection
  has no effect.\<close>

definition serve :: "'j FakeLib \<Rightarrow> string \<Rightarrow> Op \<Rightarrow> store \<Rightarrow> Answer \<times> store \<times> events" where
  "serve L ns op st =
     (case op of
        Get_op name \<Rightarrow>
          (Object_answer (case st (ns, name) of None \<Rightarrow> (None, Some (not_found name)) | Some x \<Rightarrow> (Some x, None)), st, [])
      | List_op opts \<Rightarrow>
          (case fl_labels_Parse L (lo_LabelSelector opts) of
             Inr sel \<Rightarrow> (List_answer (Some (zero_TaskGroupList\<lparr>tl_Items := store_list ns (sel_Matches sel) st\<rparr>), None), st, [])
           | Inl err \<Rightarrow> (List_answer (None, Some err), st, []))
      | Create_op tg \<Rightarrow>
          (case store_add ns tg False st of (err, st', evs) \<Rightarrow> (answer_of err (st' (ns, tg_Name tg)), st', evs))
      | Update_op tg \<Rightarrow>
          (case store_add ns tg True st of (err, st', evs) \<Rightarrow> (answer_of err (st' (ns, tg_Name tg)), st', evs))
      | Delete_op name \<Rightarrow>
          (case st (ns, name) of
             None \<Rightarrow> (Error_answer (Some (not_found name)), st, [])
           | Some x \<Rightarrow> (Error_answer None, st((ns, name) := None), [(Deleted, x)]))
      | DeleteCollection_op opts \<Rightarrow> (Error_answer None, st, [])
      | Patch_op name pt data subs \<Rightarrow>
          (case st (ns, name) of
             None \<Rightarrow> (Object_answer (None, Some (not_found name)), st, [])
           | Some x \<Rightarrow>
               (case patched L pt data x of
                  Inl err \<Rightarrow> (Object_answer (None, Some err), st, [])
                | Inr x' \<Rightarrow> (case store_add ns x' True st of (err, st', evs) \<Rightarrow> (answer_of err (Some x'), st', evs)))))"

section \<open>The invariant of the tracker\<close>

definition stored :: "tracker \<Rightarrow> (NamespacedName \<times> TaskGroup) list" where
  "stored t = (case map_of (tk_objects t) taskgroupsResource of None \<Rightarrow> [] | Some objs \<Rightarrow> objs)"

definition store_of :: "tracker \<Rightarrow> store" where
  "store_of t = map_of (stored t)"

definition watch_map :: "tracker \<Rightarrow> string \<Rightarrow> nat list" where
  "watch_map t ns =
     (case map_of (tk_watchers t) taskgroupsResource of
        None \<Rightarrow> []
      | Some m \<Rightarrow> (case map_of m ns of None \<Rightarrow> [] | Some w \<Rightarrow> w))"

text \<open>Objects are stored under their own namespace and name, and no two namespaces share a watcher.\<close>

definition tk_ok :: "tracker \<Rightarrow> bool" where
  "tk_ok t \<longleftrightarrow>
     distinct (map fst (stored t)) \<and> (\<forall>k x. store_of t k = Some x \<longrightarrow> k = (tg_Namespace x, tg_Name x)) \<and>
     (\<forall>ns. distinct (watch_map t ns) \<and> list_all (\<lambda>w. w < length (tk_channels t)) (watch_map t ns)) \<and>
     (\<forall>ns ns'. ns \<noteq> ns' \<longrightarrow> set (watch_map t ns) \<inter> set (watch_map t ns') = {})"

definition watching :: "tracker \<Rightarrow> string \<Rightarrow> nat set" where
  "watching t ns = set (watch_map t ns) \<union> set (watch_map t [])"

lemma getWatches_map: "getWatches t taskgroupsResource ns = watch_map t ns @ (if ns \<noteq> [] then watch_map t [] else [])"
  by (simp add: getWatches_def watch_map_def split: option.split)

lemma getWatches_ok:
  assumes "tk_ok t"
  shows "set (getWatches t taskgroupsResource ns) = watching t ns" "distinct (getWatches t taskgroupsResource ns)"
    "list_all (\<lambda>w. w < length (tk_channels t)) (getWatches t taskgroupsResource ns)"
  using assms unfolding getWatches_map by (auto simp: tk_ok_def watching_def list_all_iff)

text \<open>Room for one more event in every channel.\<close>

definition room :: "tracker \<Rightarrow> bool" where
  "room t \<longleftrightarrow> list_all (\<lambda>w. wt_Stopped w \<or> length (wt_result w) < DefaultChanSize) (tk_channels t)"

definition received :: "events \<Rightarrow> watcher \<Rightarrow> watcher" where
  "received evs w = (if wt_Stopped w then w else w\<lparr>wt_result := wt_result w @ evs\<rparr>)"

lemma received_Nil [simp]: "received [] w = w"
  by (simp add: received_def)

definition delivered :: "string \<Rightarrow> events \<Rightarrow> tracker \<Rightarrow> tracker \<Rightarrow> bool" where
  "delivered ns evs t t' \<longleftrightarrow>
     tk_watchers t' = tk_watchers t \<and> length (tk_channels t') = length (tk_channels t) \<and>
     (\<forall>w < length (tk_channels t). tk_channels t' ! w =
        (if w \<in> watching t ns then received evs (tk_channels t ! w) else tk_channels t ! w))"

lemma send_all_result:
  assumes "distinct ws" "list_all (\<lambda>w. w < length ch) ws"
    and "\<forall>w \<in> set ws. wt_Stopped (ch ! w) \<or> length (wt_result (ch ! w)) < DefaultChanSize"
  shows "\<exists>ch'. send_all ev obj ws ch = Inr ch' \<and> length ch' = length ch \<and>
    (\<forall>w < length ch. ch' ! w = (if w \<in> set ws then received [(ev, obj)] (ch ! w) else ch ! w))"
  using assms
proof (induction ws arbitrary: ch)
  case (Cons w ws)
  have s: "watcher_send ev obj (ch ! w) = Inr (received [(ev, obj)] (ch ! w))"
    using Cons.prems(3) by (auto simp: watcher_send_def received_def)
  let ?ch = "ch[w := received [(ev, obj)] (ch ! w)]"
  have "\<exists>ch'. send_all ev obj ws ?ch = Inr ch' \<and> length ch' = length ?ch \<and>
      (\<forall>v < length ?ch. ch' ! v = (if v \<in> set ws then received [(ev, obj)] (?ch ! v) else ?ch ! v))"
    by (rule Cons.IH) (use Cons.prems in \<open>auto simp: nth_list_update\<close>)
  then show ?case using s Cons.prems(1,2) by (auto simp: nth_list_update)
qed simp

lemma notify_result:
  assumes "tk_ok t" "room t"
  shows "\<exists>t'. tracker_notify ev obj taskgroupsResource ns t = Inr t' \<and> tk_objects t' = tk_objects t \<and>
    delivered ns [(ev, obj)] t t'"
proof -
  note g = getWatches_ok [OF assms(1), of ns]
  have "\<forall>w \<in> set (getWatches t taskgroupsResource ns). wt_Stopped (tk_channels t ! w) \<or>
      length (wt_result (tk_channels t ! w)) < DefaultChanSize"
    using assms(2) g(3) by (simp add: room_def list_all_iff)
  from send_all_result [OF g(2,3) this, of ev obj] show ?thesis
    by (auto simp: tracker_notify_def delivered_def g(1))
qed

lemma delivered_Nil [simp]: "delivered ns [] t t' \<longleftrightarrow> tk_watchers t' = tk_watchers t \<and> tk_channels t' = tk_channels t"
  by (auto simp: delivered_def intro: nth_equalityI)

section \<open>The tracker refines the store\<close>

lemma stored_put [simp]: "stored (t\<lparr>tk_objects := AList.update taskgroupsResource objs m\<rparr>) = objs"
  by (simp add: stored_def update_conv')

lemma watch_map_cong: "tk_watchers t' = tk_watchers t \<Longrightarrow> watch_map t' = watch_map t"
  by (rule ext) (simp add: watch_map_def)

lemma tk_ok_key: "tk_ok t \<Longrightarrow> store_of t k = Some x \<Longrightarrow> k = (tg_Namespace x, tg_Name x)"
  unfolding tk_ok_def by blast

lemma tk_ok_transfer:
  assumes "tk_ok t" "tk_watchers t' = tk_watchers t" "length (tk_channels t') = length (tk_channels t)"
    and "distinct (map fst (stored t'))"
    and "\<And>k x. store_of t' k = Some x \<Longrightarrow> k = (tg_Namespace x, tg_Name x)"
  shows "tk_ok t'"
  using assms(1,4,5) unfolding tk_ok_def watch_map_cong [OF assms(2)] assms(3) by blast

lemma delivered_cong:
  assumes "delivered ns evs t1 t'" "tk_watchers t1 = tk_watchers t" "tk_channels t1 = tk_channels t"
  shows "delivered ns evs t t'"
proof -
  have "watching t1 = watching t"
    by (rule ext) (simp add: watching_def watch_map_cong [OF assms(2)])
  with assms show ?thesis by (simp add: delivered_def)
qed

text \<open>Putting or removing one object and telling the watchers.\<close>

lemma put_and_notify:
  assumes ok: "tk_ok t" and r: "room t" and objs: "distinct (map fst objs)"
    and st: "\<And>k x. map_of objs k = Some x \<Longrightarrow> k = (tg_Namespace x, tg_Name x)"
  defines "t1 \<equiv> t\<lparr>tk_objects := AList.update taskgroupsResource objs (tk_objects t)\<rparr>"
  shows "\<exists>t'. tracker_notify ev obj taskgroupsResource ns t1 = Inr t' \<and> tk_ok t' \<and> store_of t' = map_of objs \<and>
    delivered ns [(ev, obj)] t t'"
proof -
  have f: "tk_watchers t1 = tk_watchers t" "tk_channels t1 = tk_channels t" "stored t1 = objs" by (simp_all add: t1_def)
  have ok1: "tk_ok t1"
    by (rule tk_ok_transfer [OF ok f(1)]) (use objs st in \<open>simp_all add: f store_of_def\<close>)
  have "room t1" using r by (simp add: room_def f(2))
  from notify_result [OF ok1 this] obtain t' where t': "tracker_notify ev obj taskgroupsResource ns t1 = Inr t'"
    "tk_objects t' = tk_objects t1" "delivered ns [(ev, obj)] t1 t'" by blast
  then have s': "stored t' = objs" by (simp add: stored_def f(3) [symmetric])
  have "tk_ok t'"
    by (rule tk_ok_transfer [OF ok1]) (use t'(3) objs st in \<open>simp_all add: delivered_def s' store_of_def\<close>)
  with t' s' delivered_cong [OF t'(3) f(1,2)] show ?thesis by (auto simp: store_of_def)
qed

lemma tracker_add_refines:
  assumes ok: "tk_ok t" and r: "room t" and s: "store_add ns obj replace (store_of t) = (err, st', evs)"
  shows "\<exists>t'. tracker_add taskgroupsResource obj ns replace t = Inr (err, t') \<and> tk_ok t' \<and> store_of t' = st' \<and>
    delivered ns evs t t'"
proof -
  define obj' where "obj' = (if tg_Namespace obj = [] then set_namespace ns obj else obj)"
  have name: "tg_Name obj' = tg_Name obj" by (simp add: obj'_def set_namespace_def)
  show ?thesis
  proof (cases "tg_Namespace obj' = ns")
    case False
    then have "err = Some (NewBadRequest (''request namespace does not match object namespace, request: '' @ quote ns @
          '' object: '' @ quote (tg_Namespace obj')))" "st' = store_of t" "evs = []"
      using s by (auto simp: store_add_def Let_def obj'_def [symmetric])
    moreover have "tracker_add taskgroupsResource obj ns replace t =
        Inr (Some (NewBadRequest (''request namespace does not match object namespace, request: '' @ quote ns @
          '' object: '' @ quote (tg_Namespace obj'))), t)"
      using False by (auto simp: tracker_add_def Let_def obj'_def)
    ultimately show ?thesis using ok by simp
  next
    case True
    define t0 where "t0 = (if map_of (tk_objects t) taskgroupsResource = None
      then t\<lparr>tk_objects := AList.update taskgroupsResource [] (tk_objects t)\<rparr> else t)"
    have f: "tk_watchers t0 = tk_watchers t" "tk_channels t0 = tk_channels t" "stored t0 = stored t"
      by (auto simp: t0_def stored_def update_conv')
    have o: "the (map_of (tk_objects t0) taskgroupsResource) = stored t"
      by (auto simp: t0_def stored_def update_conv')
    have ok0: "tk_ok t0"
      by (rule tk_ok_transfer [OF ok f(1)]) (use ok in \<open>auto simp: f(2,3) store_of_def tk_ok_def\<close>)
    have st0: "store_of t0 = store_of t" by (simp add: store_of_def f(3))
    let ?key = "(ns, tg_Name obj)"
    let ?put = "t0\<lparr>tk_objects := AList.update taskgroupsResource (AList.update ?key obj' (stored t)) (tk_objects t0)\<rparr>"
    have c: "tracker_add taskgroupsResource obj ns replace t =
        (if store_of t ?key \<noteq> None then
           (if replace then map_sum id (Pair None) (tracker_notify Modified obj' taskgroupsResource ns ?put)
            else Inr (Some (NewAlreadyExists (gvr_GroupResource taskgroupsResource) (tg_Name obj)), t0))
         else if replace then Inr (Some (not_found (tg_Name obj)), t0)
         else map_sum id (Pair None) (tracker_notify Added obj' taskgroupsResource ns ?put))"
      using True name unfolding tracker_add_def Let_def length_0_conv obj'_def [symmetric] t0_def [symmetric] o
      by (simp add: store_of_def not_found_def)
    have "\<exists>t'. tracker_notify ev obj' taskgroupsResource ns ?put = Inr t' \<and> tk_ok t' \<and>
        store_of t' = map_of (AList.update ?key obj' (stored t)) \<and> delivered ns [(ev, obj')] t0 t'" for ev
    proof (rule put_and_notify [OF ok0])
      show "room t0" using r by (simp add: room_def f(2))
      show "distinct (map fst (AList.update ?key obj' (stored t)))" using ok by (simp add: distinct_update tk_ok_def)
      show "k = (tg_Namespace x, tg_Name x)" if "map_of (AList.update ?key obj' (stored t)) k = Some x" for k x
        using that tk_ok_key [OF ok, of k x] True name by (auto simp: update_conv' store_of_def split: if_splits)
    qed
    then have n: "\<exists>t'. tracker_notify ev obj' taskgroupsResource ns ?put = Inr t' \<and> tk_ok t' \<and>
        store_of t' = (store_of t)(?key \<mapsto> obj') \<and> delivered ns [(ev, obj')] t t'" for ev
      using delivered_cong [OF _ f(1,2)] by (fastforce simp: update_conv' store_of_def)
    have d: "delivered ns [] t t0" by (simp add: f)
    show ?thesis
      using s True n [of Modified] n [of Added] d ok0 st0 unfolding c store_add_def Let_def obj'_def [symmetric]
      by (auto split: if_splits)
  qed
qed

lemma tracker_Get_refines:
  "tracker_Get t taskgroupsResource ns name =
     (case store_of t (ns, name) of None \<Rightarrow> (None, Some (not_found name)) | Some x \<Rightarrow> (Some x, None))"
  by (auto simp: tracker_Get_def store_of_def stored_def not_found_def Let_def split: option.split)

lemma tracker_Delete_refines:
  assumes ok: "tk_ok t" and r: "room t"
  shows "\<exists>t'. tracker_Delete taskgroupsResource ns name t =
      Inr ((case store_of t (ns, name) of None \<Rightarrow> Some (not_found name) | Some x \<Rightarrow> None), t') \<and> tk_ok t' \<and>
    store_of t' = (store_of t)((ns, name) := None) \<and>
    delivered ns (case store_of t (ns, name) of None \<Rightarrow> [] | Some x \<Rightarrow> [(Deleted, x)]) t t'"
proof (cases "store_of t (ns, name)")
  case None
  then have "(store_of t)((ns, name) := None) = store_of t" by auto
  with None ok show ?thesis
    by (auto simp: tracker_Delete_def store_of_def stored_def not_found_def split: option.splits)
next
  case (Some x)
  then have m: "map_of (tk_objects t) taskgroupsResource = Some (stored t)"
    by (auto simp: store_of_def stored_def split: option.splits)
  let ?objs = "AList.delete (ns, name) (stored t)"
  have mo: "map_of ?objs = (store_of t)((ns, name) := None)" by (simp add: delete_conv' store_of_def)
  have dist: "distinct (map fst ?objs)" using ok by (simp add: distinct_delete tk_ok_def)
  have keys: "k = (tg_Namespace y, tg_Name y)" if "map_of ?objs k = Some y" for k y
    using that tk_ok_key [OF ok, of k y] unfolding mo by (auto split: if_splits)
  from put_and_notify [OF ok r dist keys, of Deleted x ns] Some m show ?thesis
    unfolding mo by (auto simp: tracker_Delete_def store_of_def [symmetric] split: option.splits) 
qed

text \<open>The list of a namespace is the store's, in the order of the names.\<close>

lemma filterByNamespace_refines:
  assumes "tk_ok t"
  shows "filterByNamespace (stored t) ns =
    map (\<lambda>k. the (store_of t k)) (sorted_list_of_set {k \<in> dom (store_of t). ns = [] \<or> fst k = ns})"
proof -
  let ?f = "\<lambda>x. (tg_Namespace x, tg_Name x)" and ?P = "\<lambda>x. \<not> (ns \<noteq> [] \<and> tg_Namespace x \<noteq> ns)"
  let ?xs = "map snd (stored t)"
  have dist: "distinct (map fst (stored t))" using assms by (simp add: tk_ok_def)
  have key: "k = ?f x" if "(k, x) \<in> set (stored t)" for k x
    using tk_ok_key [OF assms, of k x] that dist by (simp add: store_of_def)
  have keys: "map ?f ?xs = map fst (stored t)"
    using key by (auto simp: comp_def)
  have st: "store_of t (?f x) = Some x" if "x \<in> set ?xs" for x
  proof -
    from that obtain k where "(k, x) \<in> set (stored t)" by auto
    with key [OF this] dist show ?thesis by (simp add: store_of_def)
  qed
  let ?l = "sort_key ?f (filter ?P ?xs)"
  have s: "sorted (map ?f ?l)" by simp
  have "distinct (map ?f (filter ?P ?xs))" by (rule distinct_map_filter) (simp only: keys dist)
  then have "distinct (map ?f ?l)" by (simp add: distinct_map)
  from sorted_list_of_set.idem_if_sorted_distinct [OF s this]
  have l: "sorted_list_of_set (set (map ?f ?l)) = map ?f ?l" .
  have "set (map ?f ?l) = {k \<in> dom (store_of t). ns = [] \<or> fst k = ns}"
  proof (rule set_eqI)
    fix k
    have "dom (store_of t) = set (map ?f ?xs)"
      unfolding keys by (simp add: store_of_def dom_map_of_conv_image_fst)
    then have "k \<in> dom (store_of t) \<longleftrightarrow> (\<exists>x \<in> set ?xs. k = ?f x)"
      by (simp only: set_map image_iff)
    moreover have "k \<in> set (map ?f ?l) \<longleftrightarrow> (\<exists>x \<in> set ?xs. ?P x \<and> k = ?f x)" by auto
    ultimately show "k \<in> set (map ?f ?l) \<longleftrightarrow> k \<in> {k \<in> dom (store_of t). ns = [] \<or> fst k = ns}" by auto
  qed
  then have "sorted_list_of_set {k \<in> dom (store_of t). ns = [] \<or> fst k = ns} = map ?f ?l" using l by simp
  then have "map (\<lambda>k. the (store_of t k)) (sorted_list_of_set {k \<in> dom (store_of t). ns = [] \<or> fst k = ns}) =
      map (\<lambda>x. the (store_of t (?f x))) ?l" by simp
  also have "\<dots> = ?l" by (rule map_idI) (use st in auto)
  finally show ?thesis by (simp add: filterByNamespace_def)
qed

section \<open>The fake client refines the store\<close>

definition fake_ok :: "'j FakeLib \<Rightarrow> Fake \<Rightarrow> bool" where
  "fake_ok L f \<longleftrightarrow>
     fk_ReactionChain f = [\<lparr>re_Verb = ''*'', re_Resource = ''*'', re_Reaction = ObjectReaction L\<rparr>] \<and>
     fk_WatchReactionChain f = [\<lparr>wre_Resource = ''*'', wre_Reaction = watch_reaction\<rparr>] \<and> tk_ok (fk_tracker f)"

lemma Invokes_simple:
  assumes "fake_ok L f"
  shows "Invokes action d f =
    map_sum id (\<lambda>((handled, ret), t). (if handled then ret else (Some d, None), f\<lparr>fk_actions := fk_actions f @ [action], fk_tracker := t\<rparr>))
      (ObjectReaction L action (fk_tracker f))"
  using assms
  by (auto simp: Invokes_def fake_ok_def SimpleReactor_Handles_def resourceCovers_def Let_def split: sum.splits)

fun parses :: "'j FakeLib \<Rightarrow> Op \<Rightarrow> bool" where
  "parses L (List_op opts) \<longleftrightarrow> (\<exists>sel. ExtractFromListOptions L opts = Inr sel)"
| "parses L (DeleteCollection_op opts) \<longleftrightarrow> (\<exists>sel. ExtractFromListOptions L opts = Inr sel)"
| "parses L _ \<longleftrightarrow> True"

lemmas fake_defs = fake_op_def FakeCustomV1alpha1_TaskGroups_def FakeTaskGroups_Get_def FakeTaskGroups_List_def
  FakeTaskGroups_Create_def FakeTaskGroups_Update_def FakeTaskGroups_Delete_def FakeTaskGroups_DeleteCollection_def
  FakeTaskGroups_Patch_def ObjectReaction_def Let_def

lemma fake_ok_step: "fake_ok L f \<Longrightarrow> tk_ok t \<Longrightarrow> fake_ok L (f\<lparr>fk_actions := a, fk_tracker := t\<rparr>)"
  by (simp add: fake_ok_def)

lemma store_add_stored:
  assumes "store_add ns obj replace st = (None, st', evs)"
  shows "st' (ns, tg_Name obj) \<noteq> None"
  using assms by (auto simp: store_add_def Let_def split: if_splits)

lemma get_object_refines:
  "get_object t taskgroupsResource ns name =
     (case store_of t (ns, name) of None \<Rightarrow> (None, Some (not_found name)) | Some x \<Rightarrow> (Some (TaskGroup_object x), None))"
  by (simp add: get_object_def tracker_Get_refines split: option.split)

lemma fake_op_refines:
  assumes f: "fake_ok L f" and r: "room (fk_tracker f)" and p: "parses L op"
    and s: "serve L ns op (store_of (fk_tracker f)) = (ans, st', evs)"
  shows "\<exists>f'. fake_op L ns op f = Inr (ans, f') \<and> fake_ok L f' \<and> store_of (fk_tracker f') = st' \<and>
    delivered ns evs (fk_tracker f) (fk_tracker f')"
proof -
  let ?t = "fk_tracker f"
  have ok: "tk_ok ?t" using f by (simp add: fake_ok_def)
  note i = Invokes_simple [OF f] and step = fake_ok_step [OF f]
  show ?thesis
  proof (cases op)
    case (Get_op name)
    then show ?thesis
      using s step [OF ok]
      by (auto simp: fake_defs i serve_def get_object_refines as_TaskGroup_def split: option.splits)
  next
    case (List_op opts)
    with p obtain sel where e: "ExtractFromListOptions L opts = Inr sel" by auto
    then have l: "fl_labels_Parse L (lo_LabelSelector opts) = Inr sel"
      by (auto simp: ExtractFromListOptions_def split: sum.splits option.splits)
    have "tl_ListMeta (tracker_List ?t taskgroupsResource ns) = tl_ListMeta zero_TaskGroupList"
      "tl_Items (tracker_List ?t taskgroupsResource ns) = filterByNamespace (stored ?t) ns"
      by (auto simp: tracker_List_def stored_def zero_TaskGroupList_def filterByNamespace_def split: option.split)
    then show ?thesis
      using s step [OF ok] List_op
      by (auto simp: fake_defs i serve_def l e store_list_def filterByNamespace_refines [OF ok] zero_TaskGroupList_def)
  next
    case (Create_op tg)
    obtain err where a: "store_add ns tg False (store_of ?t) = (err, st', evs)" and ans: "ans = answer_of err (st' (ns, tg_Name tg))"
      using s Create_op by (auto simp: serve_def split: prod.splits)
    from tracker_add_refines [OF ok r a] obtain t' where
      "tracker_add taskgroupsResource tg ns False ?t = Inr (err, t')" "tk_ok t'" "store_of t' = st'" "delivered ns evs ?t t'"
      by blast
    then show ?thesis
      using Create_op step [of t'] store_add_stored [of ns tg False "store_of ?t" st' evs] a ans
      by (cases err) (auto simp: fake_defs i and_then_def get_object_refines as_TaskGroup_def answer_of_def split: option.splits)
  next
    case (Update_op tg)
    obtain err where a: "store_add ns tg True (store_of ?t) = (err, st', evs)" and ans: "ans = answer_of err (st' (ns, tg_Name tg))"
      using s Update_op by (auto simp: serve_def split: prod.splits)
    from tracker_add_refines [OF ok r a] obtain t' where
      "tracker_add taskgroupsResource tg ns True ?t = Inr (err, t')" "tk_ok t'" "store_of t' = st'" "delivered ns evs ?t t'"
      by blast
    then show ?thesis
      using Update_op step [of t'] store_add_stored [of ns tg True "store_of ?t" st' evs] a ans
      by (cases err) (auto simp: fake_defs i and_then_def get_object_refines as_TaskGroup_def answer_of_def split: option.splits)
  next
    case (Delete_op name)
    from tracker_Delete_refines [OF ok r, of ns name] obtain t' where
      t': "tracker_Delete taskgroupsResource ns name ?t =
          Inr ((case store_of ?t (ns, name) of None \<Rightarrow> Some (not_found name) | Some x \<Rightarrow> None), t')" "tk_ok t'"
        "store_of t' = (store_of ?t)((ns, name) := None)"
        "delivered ns (case store_of ?t (ns, name) of None \<Rightarrow> [] | Some x \<Rightarrow> [(Deleted, x)]) ?t t'" by blast
    moreover have "store_of ?t (ns, name) = None \<Longrightarrow> (store_of ?t)((ns, name) := None) = store_of ?t" by auto
    ultimately show ?thesis
      using Delete_op s step [of t']
      by (cases "store_of ?t (ns, name)") (auto simp: fake_defs i serve_def and_then_def error_of_def)
  next
    case (DeleteCollection_op opts)
    with p obtain sel where "ExtractFromListOptions L opts = Inr sel" by auto
    then show ?thesis
      using s step [OF ok] DeleteCollection_op by (auto simp: fake_defs i serve_def error_of_def)
  next
    case (Patch_op name pt data subs)
    show ?thesis
    proof (cases "store_of ?t (ns, name)")
      case None
      then show ?thesis
        using s step [OF ok] Patch_op by (auto simp: fake_defs i serve_def tracker_Get_refines as_TaskGroup_def)
    next
      case (Some x)
      note st = this
      show ?thesis
      proof (cases "patched L pt data x")
        case (Inl err)
        then show ?thesis
          using s step [OF ok] Patch_op st by (auto simp: fake_defs i serve_def tracker_Get_refines as_TaskGroup_def)
      next
        case (Inr x')
        obtain err where a: "store_add ns x' True (store_of ?t) = (err, st', evs)" and ans: "ans = answer_of err (Some x')"
          using s Patch_op st Inr by (auto simp: serve_def split: prod.splits)
        from tracker_add_refines [OF ok r a] obtain t' where
          "tracker_add taskgroupsResource x' ns True ?t = Inr (err, t')" "tk_ok t'" "store_of t' = st'" "delivered ns evs ?t t'"
          by blast
        then show ?thesis
          using Patch_op step [of t'] st Inr ans
          by (cases err) (auto simp: fake_defs i tracker_Get_refines and_then_def as_TaskGroup_def answer_of_def)
      qed
    qed
  qed
qed

section \<open>Runs\<close>

text \<open>A sequence of operations, each in its namespace, on the fake client and on the store. The log of the store
  has the events of every operation with its namespace.\<close>

fun fake_run :: "'j FakeLib \<Rightarrow> (string \<times> Op) list \<Rightarrow> Fake \<Rightarrow> (Answer list \<times> Fake) may_panic" where
  "fake_run L [] f = Inr ([], f)"
| "fake_run L ((ns, op) # ops) f =
     (case fake_op L ns op f of
        Inl p \<Rightarrow> Inl p
      | Inr (a, f) \<Rightarrow> map_sum id (map_prod ((#) a) id) (fake_run L ops f))"

fun serve_run :: "'j FakeLib \<Rightarrow> (string \<times> Op) list \<Rightarrow> store \<Rightarrow> Answer list \<times> store \<times> (string \<times> events) list" where
  "serve_run L [] st = ([], st, [])"
| "serve_run L ((ns, op) # ops) st =
     (case serve L ns op st of
        (a, st, evs) \<Rightarrow> (case serve_run L ops st of (as, st, log) \<Rightarrow> (a # as, st, (ns, evs) # log)))"

text \<open>The part of a log that a watch of a namespace sees; the watch of the empty namespace sees everything.\<close>

definition seen_by :: "string \<Rightarrow> (string \<times> events) list \<Rightarrow> events" where
  "seen_by wns log = concat (map snd (filter (\<lambda>(ns, evs). wns = [] \<or> ns = wns) log))"

lemma serve_one_event:
  assumes "serve L ns op st = (a, st', evs)"
  shows "length evs \<le> 1"
proof -
  have "store_add ns x r st = (err, st'', evs') \<Longrightarrow> length evs' \<le> 1" for x r err st'' evs'
    by (auto simp: store_add_def Let_def split: if_splits)
  then show ?thesis using assms by (cases op) (auto simp: serve_def split: prod.splits option.splits sum.splits)
qed

definition level :: "nat \<Rightarrow> tracker \<Rightarrow> bool" where
  "level n t \<longleftrightarrow> list_all (\<lambda>w. length (wt_result w) \<le> n) (tk_channels t)"

lemma level_room: "level n t \<Longrightarrow> n < DefaultChanSize \<Longrightarrow> room t"
  unfolding level_def room_def by (erule list.pred_mono_strong) simp

lemma delivered_level:
  assumes "delivered ns evs t t'" "level n t" "length evs \<le> 1"
  shows "level (Suc n) t'"
proof -
  have "length (wt_result (received evs w)) \<le> Suc n" if "length (wt_result w) \<le> n" for w
    using that assms(3) by (auto simp: received_def)
  then show ?thesis using assms(1,2) by (auto simp: level_def delivered_def list_all_length le_SucI)
qed

lemma watching_iff:
  assumes "tk_ok t" "w \<in> set (watch_map t wns)"
  shows "w \<in> watching t ns \<longleftrightarrow> wns = [] \<or> ns = wns"
proof -
  have "w \<in> set (watch_map t ns') \<longleftrightarrow> ns' = wns" for ns'
    using assms unfolding tk_ok_def by blast
  then show ?thesis by (auto simp: watching_def)
qed

lemma fake_run_refines:
  assumes "fake_ok L f" "level n (fk_tracker f)" "n + length ops \<le> DefaultChanSize" "list_all (\<lambda>(ns, op). parses L op) ops"
    and "w \<in> set (watch_map (fk_tracker f) wns)" "\<not> wt_Stopped (tk_channels (fk_tracker f) ! w)"
    and "serve_run L ops (store_of (fk_tracker f)) = (answers, st', log)"
  shows "\<exists>f'. fake_run L ops f = Inr (answers, f') \<and> fake_ok L f' \<and> store_of (fk_tracker f') = st' \<and>
    wt_result (tk_channels (fk_tracker f') ! w) = wt_result (tk_channels (fk_tracker f) ! w) @ seen_by wns log"
  using assms
proof (induction ops arbitrary: f n answers log)
  case Nil
  then show ?case by (auto simp: seen_by_def)
next
  case (Cons x ops)
  obtain ns op where x: "x = (ns, op)" by fastforce
  obtain a st1 evs where s: "serve L ns op (store_of (fk_tracker f)) = (a, st1, evs)" by (metis prod_cases3)
  obtain as log' where r: "serve_run L ops st1 = (as, st', log')" and al: "answers = a # as" "log = (ns, evs) # log'"
    using Cons.prems(7) by (auto simp: x s split: prod.splits)
  have "room (fk_tracker f)" using Cons.prems(3) by (intro level_room [OF Cons.prems(2)]) simp
  moreover have "parses L op" using Cons.prems(4) by (simp add: x)
  ultimately obtain f1 where f1: "fake_op L ns op f = Inr (a, f1)" "fake_ok L f1" "store_of (fk_tracker f1) = st1"
    "delivered ns evs (fk_tracker f) (fk_tracker f1)"
    using fake_op_refines [OF Cons.prems(1) _ _ s] by blast
  have ok: "tk_ok (fk_tracker f)" using Cons.prems(1) by (simp add: fake_ok_def)
  have w: "w < length (tk_channels (fk_tracker f))" "w \<in> set (watch_map (fk_tracker f1) wns)"
    using ok Cons.prems(5) f1(4) watch_map_cong [of "fk_tracker f1" "fk_tracker f"]
    by (auto simp: tk_ok_def list_all_iff delivered_def)
  have ch: "tk_channels (fk_tracker f1) ! w =
      (if wns = [] \<or> ns = wns then received evs (tk_channels (fk_tracker f) ! w) else tk_channels (fk_tracker f) ! w)"
    using f1(4) w(1) watching_iff [OF ok Cons.prems(5)] by (simp add: delivered_def)
  have c: "\<not> wt_Stopped (tk_channels (fk_tracker f1) ! w)"
    "wt_result (tk_channels (fk_tracker f1) ! w) = wt_result (tk_channels (fk_tracker f) ! w) @ (if wns = [] \<or> ns = wns then evs else [])"
    using Cons.prems(6) unfolding ch by (simp_all add: received_def)
  have "\<exists>f'. fake_run L ops f1 = Inr (as, f') \<and> fake_ok L f' \<and> store_of (fk_tracker f') = st' \<and>
      wt_result (tk_channels (fk_tracker f') ! w) = wt_result (tk_channels (fk_tracker f1) ! w) @ seen_by wns log'"
  proof (rule Cons.IH [OF f1(2) delivered_level [OF f1(4) Cons.prems(2) serve_one_event [OF s]]])
    show "Suc n + length ops \<le> DefaultChanSize" using Cons.prems(3) by simp
    show "list_all (\<lambda>(ns, op). parses L op) ops" using Cons.prems(4) by simp
    show "serve_run L ops (store_of (fk_tracker f1)) = (as, st', log')" using r f1(3) by simp
  qed (fact w(2), fact c(1))
  then show ?case using f1(1) al by (auto simp: x c(2) seen_by_def)
qed

text \<open>Starting a watch.\<close>

lemma watch_reaction_result:
  assumes ok: "tk_ok t" and r: "watch_reaction (WatchActionImpl taskgroupsResource ns sel) t = ((h, ret), t')"
  shows "h \<and> ret = (Some (length (tk_channels t)), None) \<and> tk_ok t' \<and> store_of t' = store_of t \<and>
    length (tk_channels t) \<in> set (watch_map t' ns) \<and> tk_channels t' = tk_channels t @ [NewRaceFreeFake]"
proof -
  have t': "tk_objects t' = tk_objects t" "tk_channels t' = tk_channels t @ [NewRaceFreeFake]" "h" "ret = (Some (length (tk_channels t)), None)"
    using r by (auto simp: watch_reaction_def tracker_Watch_def Let_def)
  have m: "watch_map t' ns' = (if ns' = ns then watch_map t ns @ [length (tk_channels t)] else watch_map t ns')" for ns'
    using r by (auto simp: watch_reaction_def tracker_Watch_def Let_def watch_map_def update_conv' split: option.splits)
  have s: "stored t' = stored t" by (simp add: stored_def t'(1))
  have new: "length (tk_channels t) \<notin> set (watch_map t ns')" for ns'
    using ok by (auto simp: tk_ok_def list_all_iff)
  have lt: "list_all (\<lambda>w. w < length (tk_channels t)) (watch_map t ns')" "distinct (watch_map t ns')" for ns'
    using ok unfolding tk_ok_def by blast+
  have dj: "set (watch_map t a) \<inter> set (watch_map t b) = {}" if "a \<noteq> b" for a b
    using ok that unfolding tk_ok_def by blast
  have "tk_ok t'"
    unfolding tk_ok_def
  proof (intro conjI allI impI)
    show "distinct (map fst (stored t'))" using ok by (simp add: s tk_ok_def)
    show "k = (tg_Namespace x, tg_Name x)" if "store_of t' k = Some x" for k x
      using tk_ok_key [OF ok] that by (simp add: store_of_def s)
    show "distinct (watch_map t' ns')" for ns' using lt(2) new by (simp add: m)
    show "list_all (\<lambda>w. w < length (tk_channels t')) (watch_map t' ns')" for ns'
      using lt(1) [of ns'] lt(1) [of ns] by (auto simp: m t'(2) list_all_iff less_SucI)
    show "set (watch_map t' a) \<inter> set (watch_map t' b) = {}" if "a \<noteq> b" for a b
      using dj [OF that] new that by (auto simp: m)
  qed
  then show ?thesis using t' s by (simp add: m store_of_def)
qed

section \<open>The initial objects\<close>

abbreviation object_key :: "TaskGroup \<Rightarrow> NamespacedName" where
  "object_key tg \<equiv> (tg_Namespace tg, tg_Name tg)"

definition store_from :: "TaskGroup list \<Rightarrow> store" where
  "store_from tgs = map_of (map (\<lambda>x. (object_key x, x)) tgs)"

lemma store_from_None [simp]: "store_from tgs k = None \<longleftrightarrow> k \<notin> object_key ` set tgs"
  by (simp add: store_from_def map_of_eq_None_iff image_image)

definition flat :: "RuntimeObject list \<Rightarrow> TaskGroup list" where
  "flat obs = concat (map (\<lambda>ob. case ob of TaskGroup_object tg \<Rightarrow> [tg] | TaskGroupList_object l \<Rightarrow> tl_Items l) obs)"

definition fresh_for :: "tracker \<Rightarrow> TaskGroup list \<Rightarrow> bool" where
  "fresh_for t tgs \<longleftrightarrow> distinct (map object_key tgs) \<and> list_all (\<lambda>x. store_of t (object_key x) = None) tgs"

definition quiet :: "tracker \<Rightarrow> bool" where
  "quiet t \<longleftrightarrow> tk_ok t \<and> tk_channels t = []"

lemma TaskGroup_resource: "TaskGroup_resource = taskgroupsResource"
  by (simp add: TaskGroup_resource_def taskgroupsResource_def SchemeGroupVersion_def GroupName_def)

lemma set_namespace_id [simp]: "tg_Namespace x = ns \<Longrightarrow> set_namespace ns x = x"
  by (auto simp: set_namespace_def)

lemma add_one:
  assumes "quiet t"
  shows "if store_of t (object_key x) = None
    then \<exists>t'. tracker_add TaskGroup_resource x (tg_Namespace x) False t = Inr (None, t') \<and> quiet t' \<and>
      store_of t' = (store_of t)(object_key x \<mapsto> x)
    else \<exists>err t'. tracker_add TaskGroup_resource x (tg_Namespace x) False t = Inr (Some err, t')"
proof -
  have t: "tk_ok t" "room t" using assms by (simp_all add: quiet_def room_def)
  obtain err st' evs where a: "store_add (tg_Namespace x) x False (store_of t) = (err, st', evs)" by (metis prod_cases3)
  from tracker_add_refines [OF t a] obtain t' where t': "tracker_add TaskGroup_resource x (tg_Namespace x) False t = Inr (err, t')"
    "tk_ok t'" "store_of t' = st'" "delivered (tg_Namespace x) evs t t'"
    unfolding TaskGroup_resource by blast
  have "quiet t'" using t'(2,4) assms by (simp add: quiet_def delivered_def)
  then show ?thesis using t'(1,3) a by (auto simp: store_add_def Let_def split: if_splits)
qed

lemma store_from_Cons: "st(object_key x \<mapsto> x) ++ store_from xs = st ++ store_from (x # xs)"
  if "object_key x \<notin> object_key ` set xs"
proof -
  have "object_key x \<notin> dom (store_from xs)" using that by (metis domIff store_from_None)
  moreover have "store_from (x # xs) = (store_from xs)(object_key x \<mapsto> x)" by (simp add: store_from_def)
  ultimately show ?thesis by (simp add: map_add_upd_left)
qed

lemma fresh_for_Cons:
  assumes "store_of t (object_key x) = None" "store_of t' = (store_of t)(object_key x \<mapsto> x)"
  shows "fresh_for t (x # xs) \<longleftrightarrow> fresh_for t' xs"
proof -
  have "store_of t' k = None \<longleftrightarrow> store_of t k = None \<and> k \<noteq> object_key x" for k by (simp add: assms(2))
  then show ?thesis using assms(1) by (auto simp: fresh_for_def list_all_iff image_iff)
qed

lemma addList_result:
  assumes "quiet t"
  shows "if fresh_for t xs
    then \<exists>t'. addList xs t = Inr (None, t') \<and> quiet t' \<and> store_of t' = store_of t ++ store_from xs
    else \<exists>err t'. addList xs t = Inr (Some err, t')"
  using assms
proof (induction xs arbitrary: t)
  case Nil
  then show ?case by (simp add: fresh_for_def store_from_def)
next
  case (Cons x xs)
  note one = add_one [OF Cons.prems, of x]
  show ?case
  proof (cases "store_of t (object_key x) = None")
    case False
    then have "\<not> fresh_for t (x # xs)" by (simp add: fresh_for_def)
    with one False show ?thesis by auto
  next
    case True
    with one obtain t1 where t1: "tracker_add TaskGroup_resource x (tg_Namespace x) False t = Inr (None, t1)" "quiet t1"
      "store_of t1 = (store_of t)(object_key x \<mapsto> x)" by auto
    have "fresh_for t1 xs \<Longrightarrow> object_key x \<notin> object_key ` set xs"
      by (auto simp: fresh_for_def t1(3) list_all_iff split: if_splits)
    then have "fresh_for t1 xs \<Longrightarrow> store_of t1 ++ store_from xs = store_of t ++ store_from (x # xs)"
      unfolding t1(3) by (rule store_from_Cons)
    then show ?thesis
      using Cons.IH [OF t1(2)] t1(1) unfolding fresh_for_Cons [OF True t1(3)] by (auto split: if_splits)
  qed
qed

lemma tracker_Add_list: "tracker_Add ob t = addList (flat [ob]) t"
  by (auto simp: tracker_Add_def flat_def split: RuntimeObject.split sum.split option.split)

lemma Int_image_empty: "A \<inter> g ` B = {} \<longleftrightarrow> (\<forall>y \<in> B. g y \<notin> A)"
  by blast

lemma fresh_for_append:
  assumes "store_of t' = store_of t ++ store_from xs"
  shows "fresh_for t (xs @ ys) \<longleftrightarrow> fresh_for t xs \<and> fresh_for t' ys"
proof -
  have n: "store_of t' k = None \<longleftrightarrow> store_of t k = None \<and> k \<notin> object_key ` set xs" for k
    unfolding assms map_add_None store_from_None by blast
  have d: "distinct (map object_key (xs @ ys)) \<longleftrightarrow> distinct (map object_key xs) \<and> distinct (map object_key ys) \<and>
      (\<forall>y \<in> set ys. object_key y \<notin> object_key ` set xs)"
    by (simp only: map_append distinct_append set_map Int_image_empty)
  show ?thesis
    unfolding fresh_for_def d n list_all_iff ball_conj_distrib set_append ball_Un
    by (rule iffI; elim conjE; intro conjI; assumption)
qed

lemma add_objects_result:
  assumes "quiet t"
  shows "if fresh_for t (flat obs)
    then \<exists>t'. add_objects obs t = Inr t' \<and> quiet t' \<and> store_of t' = store_of t ++ store_from (flat obs)
    else \<exists>p. add_objects obs t = Inl p"
  using assms
proof (induction obs arbitrary: t)
  case Nil
  then show ?case by (simp add: flat_def fresh_for_def store_from_def)
next
  case (Cons ob obs)
  have f: "flat (ob # obs) = flat [ob] @ flat obs" by (simp add: flat_def)
  note l = addList_result [OF Cons.prems, of "flat [ob]"]
  show ?case
  proof (cases "fresh_for t (flat [ob])")
    case False
    then have "\<not> fresh_for t (flat (ob # obs))" unfolding f by (auto simp: fresh_for_def)
    with l False show ?thesis by (auto simp: tracker_Add_list)
  next
    case True
    with l obtain t1 where t1: "addList (flat [ob]) t = Inr (None, t1)" "quiet t1" "store_of t1 = store_of t ++ store_from (flat [ob])"
      by auto
    have "store_from (flat [ob]) ++ store_from (flat obs) = store_from (flat [ob] @ flat obs)"
      if "fresh_for t1 (flat obs)"
    proof -
      have "object_key x \<notin> object_key ` set (flat [ob])" if "x \<in> set (flat obs)" for x
        using \<open>fresh_for t1 (flat obs)\<close> that by (simp add: fresh_for_def t1(3) list_all_iff)
      then have "dom (store_from (flat [ob])) \<inter> dom (store_from (flat obs)) = {}"
        unfolding disjoint_iff domIff store_from_None by blast
      from map_add_comm [OF this] show ?thesis by (simp add: store_from_def)
    qed
    then show ?thesis
      using Cons.IH [OF t1(2)] True t1(1,3) unfolding f fresh_for_append [OF t1(3)] tracker_Add_list add_objects.simps
      by (auto split: if_splits simp del: map_add_assoc simp flip: map_add_assoc)
  qed
qed

lemma NewObjectTracker_quiet: "quiet NewObjectTracker" "store_of NewObjectTracker = Map.empty"
  by (simp_all add: quiet_def tk_ok_def NewObjectTracker_def store_of_def stored_def watch_map_def)

lemma NewSimpleClientset_result:
  "if distinct (map object_key (flat obs))
   then \<exists>f. NewSimpleClientset L obs = Inr f \<and> fake_ok L f \<and> tk_channels (fk_tracker f) = [] \<and>
     store_of (fk_tracker f) = store_from (flat obs)
   else \<exists>p. NewSimpleClientset L obs = Inl p"
proof -
  have "fresh_for NewObjectTracker (flat obs) \<longleftrightarrow> distinct (map object_key (flat obs))"
    by (simp add: fresh_for_def NewObjectTracker_quiet(2) list_all_iff)
  moreover have "fake_ok L (simple_clientset L t) \<and> fk_tracker (simple_clientset L t) = t" if "quiet t" for t
    using that by (simp add: simple_clientset_def fake_ok_def AddReactor_def AddWatchReactor_def quiet_def)
  ultimately show ?thesis
    using add_objects_result [OF NewObjectTracker_quiet(1), of obs]
    by (auto simp: NewSimpleClientset_def NewObjectTracker_quiet(2) quiet_def split: if_splits)
qed

section \<open>Full channels\<close>

definition chan_full :: "watcher \<Rightarrow> bool" where
  "chan_full w \<longleftrightarrow> \<not> wt_Stopped w \<and> DefaultChanSize \<le> length (wt_result w)"

lemma send_all_full:
  assumes "w \<in> set ws" "distinct ws" "chan_full (ch ! w)"
  shows "send_all ev obj ws ch = Inl ''channel full''"
  using assms
proof (induction ws arbitrary: ch)
  case (Cons v ws)
  show ?case
  proof (cases "v = w")
    case True
    then show ?thesis using Cons.prems(3) by (simp add: watcher_send_def chan_full_def)
  next
    case False
    show ?thesis
    proof (cases "watcher_send ev obj (ch ! v)")
      case (Inl p)
      then show ?thesis by (auto simp: watcher_send_def split: if_splits)
    next
      case (Inr x)
      then show ?thesis using Cons False by simp
    qed
  qed
qed simp

lemma tracker_add_full:
  assumes ok: "tk_ok t" and w: "w \<in> set (watch_map t wns)" "wns = [] \<or> ns = wns" "chan_full (tk_channels t ! w)"
    and a: "store_add ns obj replace (store_of t) = (None, st', evs)"
  shows "tracker_add taskgroupsResource obj ns replace t = Inl ''channel full''"
proof -
  have n: "tracker_notify ev x taskgroupsResource ns (t'\<lparr>tk_objects := objs\<rparr>) = Inl ''channel full''"
    if "tk_watchers t' = tk_watchers t" "tk_channels t' = tk_channels t" for ev x objs t'
  proof -
    have "getWatches (t'\<lparr>tk_objects := objs\<rparr>) taskgroupsResource ns = getWatches t taskgroupsResource ns"
      using that by (simp add: getWatches_def)
    moreover have "w \<in> set (getWatches t taskgroupsResource ns)"
      using getWatches_ok(1) [OF ok] watching_iff [OF ok w(1), of ns] w(2) by simp
    ultimately show ?thesis
      using send_all_full [OF _ getWatches_ok(2) [OF ok], where ch = "tk_channels t"] w(3) that
      by (simp add: tracker_notify_def)
  qed
  have s: "the (map_of (AList.update taskgroupsResource [] (tk_objects t)) taskgroupsResource) = []"
    by (simp add: update_conv')
  show ?thesis
    using a by (cases "map_of (tk_objects t) taskgroupsResource")
      (auto simp: store_add_def tracker_add_def Let_def n s store_of_def stored_def set_namespace_def split: if_splits)
qed

section \<open>Properties\<close>

text \<open>C27. The fake clientset is a server for tests. Made from objects with distinct names, it answers any
  sequence of operations in any namespaces as the specified server that holds those objects does, ends
  with the objects that server ends with, and a watch started before sees exactly the events of its
  namespace, in order. The sequence has at most as many operations as a watcher's channel has places.\<close>

theorem fake_clientset_refines_store:
  assumes "distinct (map object_key (flat obs))" "length ops \<le> 100" "list_all (\<lambda>(ns, op). parses L op) ops"
    and "ExtractFromListOptions L opts = Inr sel"
    and "serve_run L ops (store_from (flat obs)) = (answers, st', log)"
  shows "\<exists>f0 f1 w f2. NewSimpleClientset L obs = Inr f0 \<and>
    FakeTaskGroups_Watch L (FakeCustomV1alpha1_TaskGroups f0 wns) opts = Inr ((Some w, None), f1) \<and>
    fake_run L ops f1 = Inr (answers, f2) \<and> store_of (fk_tracker f2) = st' \<and>
    wt_result (tk_channels (fk_tracker f2) ! w) = seen_by wns log"
proof -
  from NewSimpleClientset_result [of obs L] assms(1) obtain f0 where f0: "NewSimpleClientset L obs = Inr f0" "fake_ok L f0"
    "tk_channels (fk_tracker f0) = []" "store_of (fk_tracker f0) = store_from (flat obs)"
    by auto
  have ok: "tk_ok (fk_tracker f0)" using f0(2) by (simp add: fake_ok_def)
  let ?a = "WatchActionImpl taskgroupsResource wns sel"
  obtain h ret t' where r: "watch_reaction ?a (fk_tracker f0) = ((h, ret), t')" by (metis prod.collapse)
  note w = watch_reaction_result [OF ok r]
  let ?f1 = "f0\<lparr>fk_actions := fk_actions f0 @ [?a], fk_tracker := t'\<rparr>"
  have i: "FakeTaskGroups_Watch L (FakeCustomV1alpha1_TaskGroups f0 wns) opts = Inr ((Some 0, None), ?f1)"
    using assms(4) r w f0(2,3)
    by (simp add: FakeTaskGroups_Watch_def FakeCustomV1alpha1_TaskGroups_def InvokesWatch_def fake_ok_def resourceCovers_def Let_def)
  have "fake_ok L ?f1" using fake_ok_step [OF f0(2)] w by simp
  moreover have "level 0 (fk_tracker ?f1)" "\<not> wt_Stopped (tk_channels (fk_tracker ?f1) ! 0)"
    "wt_result (tk_channels (fk_tracker ?f1) ! 0) = []" "0 \<in> set (watch_map (fk_tracker ?f1) wns)"
    "store_of (fk_tracker ?f1) = store_from (flat obs)"
    using w f0(3,4) by (simp_all add: level_def NewRaceFreeFake_def)
  ultimately obtain f2 where "fake_run L ops ?f1 = Inr (answers, f2)" "store_of (fk_tracker f2) = st'"
    "wt_result (tk_channels (fk_tracker f2) ! 0) = seen_by wns log"
    using fake_run_refines [of L ?f1 0 ops 0 wns answers st' log] assms(2,3,5) by (auto simp: DefaultChanSize_def)
  with f0(1) i show ?thesis by blast
qed

definition ex_fake_lib :: "TaskGroup FakeLib" where
  "ex_fake_lib = \<lparr>fl_labels_Parse = (\<lambda>s. if s = [] then Inr Everything else Inl (Errorf ''unable to parse'')),
     fl_fields_ParseSelector = (\<lambda>s. None), fl_Marshal = Inr, fl_Unmarshal = Inr,
     fl_JSONPatch = (\<lambda>tg p. Inl (Errorf ''bad patch'')), fl_MergePatch = (\<lambda>tg p. Inr tg),
     fl_StrategicMergePatch = (\<lambda>tg p. Inr tg)\<rparr>"

definition ex_ops :: "(string \<times> Op) list" where
  "ex_ops = [(''ns'', Get_op ''group''), (''ns'', Create_op ex_object), (''ns'', DeleteCollection_op empty_ListOptions),
     (''other'', Create_op (set_namespace [] ex_object)), (''ns'', Delete_op ''group'')]"

theorem fake_clientset_refines_store_witness:
  "\<exists>f0 f1 w f2 err. NewSimpleClientset ex_fake_lib [TaskGroup_object ex_object] = Inr f0 \<and>
    FakeTaskGroups_Watch ex_fake_lib (FakeCustomV1alpha1_TaskGroups f0 ''ns'') empty_ListOptions = Inr ((Some w, None), f1) \<and>
    fake_run ex_fake_lib ex_ops f1 =
      Inr ([Object_answer (Some ex_object, None), Object_answer (None, Some err), Error_answer None,
        Object_answer (Some (set_namespace ''other'' ex_object), None), Error_answer None], f2) \<and>
    wt_result (tk_channels (fk_tracker f2) ! w) = [(Deleted, ex_object)]"
proof -
  let ?err = "NewAlreadyExists (gvr_GroupResource taskgroupsResource) ''group''"
  let ?st = "(store_from [ex_object])((''other'', ''group'') \<mapsto> set_namespace ''other'' ex_object, (''ns'', ''group'') := None)"
  have o: "tg_Namespace ex_object = ''ns''" "tg_Name ex_object = ''group''" by (simp_all add: ex_object_def)
  have "flat [TaskGroup_object ex_object] = [ex_object]" by (simp add: flat_def)
  moreover have "ExtractFromListOptions ex_fake_lib empty_ListOptions = Inr Everything"
    by (simp add: ExtractFromListOptions_def ex_fake_lib_def empty_ListOptions_def)
  moreover have "serve_run ex_fake_lib ex_ops (store_from [ex_object]) =
      ([Object_answer (Some ex_object, None), Object_answer (None, Some ?err), Error_answer None,
        Object_answer (Some (set_namespace ''other'' ex_object), None), Error_answer None], ?st,
       [(''ns'', []), (''ns'', []), (''ns'', []), (''other'', [(Added, set_namespace ''other'' ex_object)]), (''ns'', [(Deleted, ex_object)])])"
    by (simp add: ex_ops_def serve_def store_add_def answer_of_def store_from_def o set_namespace_def Let_def)
  ultimately show ?thesis
    using fake_clientset_refines_store [of "[TaskGroup_object ex_object]" ex_ops ex_fake_lib empty_ListOptions Everything _ ?st _ "''ns''"]
    by (simp add: ex_ops_def seen_by_def) blast
qed

text \<open>\<open>DeleteCollection\<close> of the fake client reports success and deletes nothing: the tracker has no reaction to
  the action, and an action that no reactor handles succeeds.\<close>

theorem fake_DeleteCollection_deletes_nothing:
  assumes "NewSimpleClientset L obs = Inr f" "ExtractFromListOptions L opts = Inr sel"
  shows "\<exists>f'. FakeTaskGroups_DeleteCollection L (FakeCustomV1alpha1_TaskGroups f ns) opts = Inr (None, f') \<and>
    fk_tracker f' = fk_tracker f"
proof -
  have "fake_ok L f" using NewSimpleClientset_result [of obs L] assms(1) by (auto split: if_splits)
  from Invokes_simple [OF this] show ?thesis
    by (simp add: FakeTaskGroups_DeleteCollection_def FakeCustomV1alpha1_TaskGroups_def assms(2) error_of_def
        ObjectReaction_def Let_def)
qed

theorem fake_DeleteCollection_deletes_nothing_witness:
  "\<exists>f f'. NewSimpleClientset ex_fake_lib [TaskGroup_object ex_object] = Inr f \<and>
    FakeTaskGroups_DeleteCollection ex_fake_lib (FakeCustomV1alpha1_TaskGroups f ''ns'') empty_ListOptions = Inr (None, f') \<and>
    store_of (fk_tracker f') (''ns'', ''group'') = Some ex_object"
proof -
  have "distinct (map object_key (flat [TaskGroup_object ex_object]))" "store_from (flat [TaskGroup_object ex_object]) (''ns'', ''group'') = Some ex_object"
    by (simp_all add: flat_def store_from_def ex_object_def)
  with NewSimpleClientset_result [of "[TaskGroup_object ex_object]" ex_fake_lib] obtain f where
    f: "NewSimpleClientset ex_fake_lib [TaskGroup_object ex_object] = Inr f" "store_of (fk_tracker f) (''ns'', ''group'') = Some ex_object"
    by auto
  have "ExtractFromListOptions ex_fake_lib empty_ListOptions = Inr Everything"
    by (simp add: ExtractFromListOptions_def ex_fake_lib_def empty_ListOptions_def)
  from fake_DeleteCollection_deletes_nothing [OF f(1) this, of "''ns''"] f show ?thesis by auto
qed

text \<open>The bound of the refinement is sharp: once a watcher has 100 events that nobody has read, the next
  operation that it would see does not return but panics, with the channel's message.\<close>

theorem fake_watch_capacity:
  assumes "fake_ok L f" "w \<in> set (watch_map (fk_tracker f) wns)" "wns = [] \<or> ns = wns"
    and "\<not> wt_Stopped (tk_channels (fk_tracker f) ! w)" "length (wt_result (tk_channels (fk_tracker f) ! w)) = 100"
    and "store_of (fk_tracker f) (ns, tg_Name tg) = None" "tg_Namespace tg = ns"
  shows "FakeTaskGroups_Create (FakeCustomV1alpha1_TaskGroups f ns) tg = Inl ''channel full''"
proof -
  have ok: "tk_ok (fk_tracker f)" using assms(1) by (simp add: fake_ok_def)
  have full: "chan_full (tk_channels (fk_tracker f) ! w)" using assms(4,5) by (simp add: chan_full_def DefaultChanSize_def)
  have "store_add ns tg False (store_of (fk_tracker f)) = (None, (store_of (fk_tracker f))((ns, tg_Name tg) \<mapsto> tg), [(Added, tg)])"
    using assms(6,7) by (auto simp: store_add_def Let_def)
  from tracker_add_full [OF ok assms(2,3) full this] Invokes_simple [OF assms(1)] show ?thesis
    by (simp add: FakeTaskGroups_Create_def FakeCustomV1alpha1_TaskGroups_def ObjectReaction_def and_then_def as_TaskGroup_def)
qed

definition ex_full :: Fake where
  "ex_full = simple_clientset ex_fake_lib \<lparr>tk_objects = [], tk_watchers = [(taskgroupsResource, [([], [0])])],
     tk_channels = [\<lparr>wt_result = replicate 100 (Modified, zero_TaskGroup), wt_Stopped = False\<rparr>]\<rparr>"

theorem fake_watch_capacity_witness:
  "FakeTaskGroups_Create (FakeCustomV1alpha1_TaskGroups ex_full ''ns'') ex_object = Inl ''channel full''"
proof -
  let ?t = "fk_tracker ex_full"
  have m: "watch_map ?t ns = (if ns = [] then [0] else [])" for ns
    by (simp add: watch_map_def ex_full_def simple_clientset_def AddReactor_def AddWatchReactor_def)
  have t: "tk_channels ?t = [\<lparr>wt_result = replicate 100 (Modified, zero_TaskGroup), wt_Stopped = False\<rparr>]" "stored ?t = []"
    by (simp_all add: ex_full_def simple_clientset_def AddReactor_def AddWatchReactor_def stored_def)
  have "tk_ok ?t" by (auto simp: tk_ok_def m t store_of_def)
  then have "fake_ok ex_fake_lib ex_full"
    by (simp add: fake_ok_def ex_full_def simple_clientset_def AddReactor_def AddWatchReactor_def)
  then show ?thesis
    by (rule fake_watch_capacity [where w = 0 and wns = "[]"]) (simp_all add: m t store_of_def ex_object_def)
qed

end
