(* ===== verification/Fake_Injection.thy ===== *)
theory Fake_Injection
  imports Injection_Types Fake_Client
begin

text \<open>
  Dependency injection for tests: the \<open>fake\<close> packages under \<open>pkg/client/injection\<close>, which put a fake clientset, and
  factories and informers over it, into the context of a test.

  A test shares the clientset with the code under test: it is a pointer, and fake clientsets live in a list of
  their own, the second heap. A factory calls the clientset later than it is made, when an informer lists; what the
  clientset at a pointer answers then is the argument \<open>iface\<close> of the injectors. They never look into it, so what
  is shown for every \<open>iface\<close> holds whatever the test has done to the clientset by the time of the call.
\<close>

section \<open>The client\<close>

text \<open>How a fake clientset answers as a \<open>versioned.Interface\<close> while it is in a given state. A watcher's stream is named by
  the watcher's number. A panic of a reactor would be the error of the same text; there is none in the states
  that the clientset reaches (\<open>fake_ok\<close>) when the options parse.\<close>

definition reply :: "('a option go \<times> Fake) may_panic \<Rightarrow> 'a option go" where
  "reply r = (case r of Inl p \<Rightarrow> (None, Some (Errorf p)) | Inr (ret, f) \<Rightarrow> ret)"

definition fake_at :: "'j FakeLib \<Rightarrow> Fake \<Rightarrow> ClientInterface" where
  "fake_at L f =
     \<lparr>ci_Get = (\<lambda>ns name opts. reply (FakeTaskGroups_Get (FakeCustomV1alpha1_TaskGroups f ns) name)),
      ci_List = (\<lambda>ns opts. reply (FakeTaskGroups_List L (FakeCustomV1alpha1_TaskGroups f ns) opts)),
      ci_Watch = (\<lambda>ns opts. map_prod (map_option itoa) id (reply (FakeTaskGroups_Watch L (FakeCustomV1alpha1_TaskGroups f ns) opts)))\<rparr>"

definition fake_With ::
    "'j FakeLib \<Rightarrow> (nat \<Rightarrow> ClientInterface) \<Rightarrow> ('cfg, 'u, 'ul) ctx \<Rightarrow> RuntimeObject list \<Rightarrow> Fake list \<Rightarrow>
       (('cfg, 'u, 'ul) ctx \<times> nat \<times> Fake list) may_panic" where
  "fake_With L iface ctx obs fs =
     (case NewSimpleClientset L obs of
        Inl p \<Rightarrow> Inl p
      | Inr f \<Rightarrow>
          let cs = length fs
          in Inr (WithValue ctx client_Key (Fake_val cs (iface cs)), cs, fs @ [f]))"

definition fake_withClient ::
    "'j FakeLib \<Rightarrow> (nat \<Rightarrow> ClientInterface) \<Rightarrow> ('cfg, 'u, 'ul) ctx \<Rightarrow> 'cfg \<Rightarrow> Fake list \<Rightarrow>
       (('cfg, 'u, 'ul) ctx \<times> Fake list) may_panic" where
  "fake_withClient L iface ctx cfg fs = map_sum id (\<lambda>(ctx, cs, fs). (ctx, fs)) (fake_With L iface ctx [] fs)"

text \<open>\<open>untyped.(*fake.Clientset)\<close>: only a fake clientset passes.\<close>

definition fake_client_Get :: "('cfg, 'u, 'ul) ctx \<Rightarrow> (nat \<times> ClientInterface) may_panic" where
  "fake_client_Get ctx =
     (case Value ctx client_Key of
        None \<Rightarrow> Inl ''Unable to fetch github.com/openshift-pipelines/tekton-task-group/pkg/client/clientset/versioned/fake.Clientset from context.''
      | Some (Fake_val cs c) \<Rightarrow> Inr (cs, c)
      | _ \<Rightarrow> bad_type)"

section \<open>Factories and informers\<close>

definition fake_factory_withInformerFactory ::
    "('cfg, 'u, 'ul) ctx \<Rightarrow> heap \<Rightarrow> (('cfg, 'u, 'ul) ctx \<times> heap) may_panic" where
  "fake_factory_withInformerFactory ctx h =
     (case fake_client_Get ctx of
        Inl p \<Rightarrow> Inl p
      | Inr (cs, c) \<Rightarrow>
          let opts = (if HasNamespaceScope ctx then [WithNamespace (GetNamespaceScope ctx)] else []);
              f = NewSharedInformerFactoryWithOptions c (GetResyncPeriod ctx) opts
          in Inr (WithValue ctx factory_Key (Factory_val (length h)), h @ [f]))"

text \<open>The loop of the filtered factories, with the captured variable as in the one it copies.\<close>

fun fake_filteredfactory_loop ::
    "ClientInterface \<Rightarrow> string \<Rightarrow> string list \<Rightarrow> ('cfg, 'u, 'ul) ctx \<Rightarrow> heap \<Rightarrow> ('cfg, 'u, 'ul) ctx \<times> heap" where
  "fake_filteredfactory_loop c captured [] ctx h = (ctx, h)"
| "fake_filteredfactory_loop c captured (selector # labelSelectors) ctx h =
     (let opts = [];
          opts = (if HasNamespaceScope ctx then opts @ [WithNamespace (GetNamespaceScope ctx)] else opts);
          opts = opts @ [WithTweakListOptions (Some (\<lambda>l. l\<lparr>lo_LabelSelector := captured\<rparr>))];
          f = NewSharedInformerFactoryWithOptions c (GetResyncPeriod ctx) opts;
          ctx = WithValue ctx (filteredfactory_Key selector) (Factory_val (length h))
      in fake_filteredfactory_loop c captured labelSelectors ctx (h @ [f]))"

definition fake_filteredfactory_withInformerFactory ::
    "('cfg, 'u, 'ul) ctx \<Rightarrow> heap \<Rightarrow> (('cfg, 'u, 'ul) ctx \<times> heap) may_panic" where
  "fake_filteredfactory_withInformerFactory ctx h =
     (case fake_client_Get ctx of
        Inl p \<Rightarrow> Inl p
      | Inr (cs, c) \<Rightarrow>
          (case Value ctx LabelKey of
             None \<Rightarrow> Inl ''Unable to fetch labelkey from context.''
           | Some (Selectors_val labelSelectors) \<Rightarrow>
               Inr (fake_filteredfactory_loop c (last labelSelectors) labelSelectors ctx h)
           | _ \<Rightarrow> bad_type))"

definition fake_informer_withInformer ::
    "('cfg, 'u, 'ul) ctx \<Rightarrow> heap \<Rightarrow> (('cfg, 'u, 'ul) ctx \<times> Informer \<times> heap) may_panic" where
  "fake_informer_withInformer ctx h =
     (case factory_Get ctx of
        Inl p \<Rightarrow> Inl p
      | Inr f \<Rightarrow>
          let inf = Factory_informer f (version_TaskGroups (group_V1alpha1 (factory_Custom (h ! f))))
          in case informer_of inf h of
               (informer, h) \<Rightarrow> Inr (WithValue ctx informer_Key (Informer_val inf), informer, h))"

fun fake_filteredinformer_loop ::
    "string list \<Rightarrow> ('cfg, 'u, 'ul) ctx \<Rightarrow> Informer list \<Rightarrow> heap \<Rightarrow>
       (('cfg, 'u, 'ul) ctx \<times> Informer list \<times> heap) may_panic" where
  "fake_filteredinformer_loop [] ctx infs h = Inr (ctx, infs, h)"
| "fake_filteredinformer_loop (selector # labelSelectors) ctx infs h =
     (case filteredfactory_Get ctx selector of
        Inl p \<Rightarrow> Inl p
      | Inr f \<Rightarrow>
          let inf = Factory_informer f (version_TaskGroups (group_V1alpha1 (factory_Custom (h ! f))));
              ctx = WithValue ctx (filteredinformer_Key selector) (Informer_val inf)
          in case informer_of inf h of
               (informer, h) \<Rightarrow> fake_filteredinformer_loop labelSelectors ctx (infs @ [informer]) h)"

definition fake_filteredinformer_withInformer ::
    "('cfg, 'u, 'ul) ctx \<Rightarrow> heap \<Rightarrow> (('cfg, 'u, 'ul) ctx \<times> Informer list \<times> heap) may_panic" where
  "fake_filteredinformer_withInformer ctx h =
     (case Value ctx LabelKey of
        None \<Rightarrow> Inl ''Unable to fetch labelkey from context.''
      | Some (Selectors_val labelSelectors) \<Rightarrow> fake_filteredinformer_loop labelSelectors ctx [] h
      | _ \<Rightarrow> bad_type)"

section \<open>What the packages register\<close>

text \<open>The registrations with \<open>injection.Fake\<close>; the injector of the client is run on the clientsets \<open>fs\<close>.\<close>

definition Fake_injection ::
    "'j FakeLib \<Rightarrow> (nat \<Rightarrow> ClientInterface) \<Rightarrow> Fake list \<Rightarrow> bool \<Rightarrow> ('cfg, 'u, 'ul) impl" where
  "Fake_injection L iface fs filtered =
     \<lparr>im_clients = [\<lambda>ctx cfg. map_sum id fst (fake_withClient L iface ctx cfg fs)],
      im_factories = fake_factory_withInformerFactory # (if filtered then [fake_filteredfactory_withInformerFactory] else []),
      im_informers = [fake_informer_withInformer],
      im_filteredInformers = (if filtered then [fake_filteredinformer_withInformer] else [])\<rparr>"

text \<open>\<open>injection.Fake.SetupInformers\<close> on both heaps; only the injector of the client changes the clientsets.\<close>

definition fake_SetupInformers ::
    "'j FakeLib \<Rightarrow> (nat \<Rightarrow> ClientInterface) \<Rightarrow> bool \<Rightarrow> ('cfg, 'u, 'ul) ctx \<Rightarrow> 'cfg \<Rightarrow> Fake list \<Rightarrow> heap \<Rightarrow>
       (('cfg, 'u, 'ul) ctx \<times> Informer list \<times> Fake list \<times> heap) may_panic" where
  "fake_SetupInformers L iface filtered ctx cfg fs h =
     (case fake_withClient L iface ctx cfg fs of
        Inl p \<Rightarrow> Inl p
      | Inr (_, fs') \<Rightarrow>
          map_sum id (\<lambda>(ctx, infs, h). (ctx, infs, fs', h)) (SetupInformers (Fake_injection L iface fs filtered) ctx cfg h))"

section \<open>The fake injectors are the others over a fake clientset\<close>

lemma fake_client_Get_client: "fake_client_Get ctx = Inr (cs, c) \<Longrightarrow> client_Get ctx = Inr c"
  by (auto simp: fake_client_Get_def client_Get_def bad_type_def split: option.splits ctx_value.splits)

lemma fake_client_Get_frame [simp]:
  "k \<noteq> client_Key \<Longrightarrow> fake_client_Get (WithValue ctx k v) = fake_client_Get ctx"
  "fake_client_Get (WithValue ctx client_Key (Fake_val cs c)) = Inr (cs, c)"
  "fake_client_Get (WithValue ctx client_Key (Client_val c)) = bad_type"
  by (simp_all add: fake_client_Get_def)

lemma labels_of_cases:
  "(case Value ctx LabelKey of
      None \<Rightarrow> Inl ''Unable to fetch labelkey from context.''
    | Some (Selectors_val l) \<Rightarrow> F l
    | _ \<Rightarrow> bad_type) = (case labels_of ctx of Inl p \<Rightarrow> Inl p | Inr l \<Rightarrow> F l)"
  by (auto simp: labels_of_def bad_type_def split: option.splits ctx_value.splits)

lemma fake_filteredfactory_loop_eq: "fake_filteredfactory_loop c x l ctx h = filteredfactory_loop c x l ctx h"
  by (induction l arbitrary: ctx h) (simp_all add: Let_def)

lemma fake_filteredinformer_loop_eq: "fake_filteredinformer_loop l ctx infs h = filteredinformer_loop l ctx infs h"
  by (induction l arbitrary: ctx infs h)
    (simp_all add: Let_def Custom_V1alpha1_TaskGroups_def cong: sum.case_cong prod.case_cong)

lemma fake_informers_eq:
  "fake_informer_withInformer ctx h = informer_withInformer ctx h"
  "fake_filteredinformer_withInformer ctx h = filteredinformer_withInformer ctx h"
  by (simp_all add: fake_informer_withInformer_def informer_withInformer_def Custom_V1alpha1_TaskGroups_def Let_def
      fake_filteredinformer_withInformer_def labels_of_cases filteredinformer_withInformer_def fake_filteredinformer_loop_eq
      split: sum.split prod.split)

lemma fake_factories_eq:
  assumes "fake_client_Get ctx = Inr (cs, c)"
  shows "fake_factory_withInformerFactory ctx h = factory_withInformerFactory ctx h"
    "fake_filteredfactory_withInformerFactory ctx h = filteredfactory_withInformerFactory ctx h"
  using assms fake_client_Get_client [OF assms]
  by (simp_all add: fake_factory_withInformerFactory_def factory_withInformerFactory_def labels_of_cases
      fake_filteredfactory_withInformerFactory_def filteredfactory_withInformerFactory_def fake_filteredfactory_loop_eq
      split: sum.split)

lemma factory_keeps_client:
  "factory_withInformerFactory ctx h = Inr (ctx', h') \<Longrightarrow> fake_client_Get ctx' = fake_client_Get ctx"
  by (auto simp: factory_withInformerFactory_def Let_def split: sum.splits)

lemma setup_fake_factories:
  assumes "fake_client_Get ctx = Inr (cs, c)"
  shows "setup_factories (im_factories (Fake_injection L iface fs filtered)) ctx h =
    setup_factories (im_factories (Default N filtered)) ctx h"
proof (cases "factory_withInformerFactory ctx h")
  case (Inr r)
  obtain ctx1 h1 where r: "r = (ctx1, h1)" by fastforce
  have "fake_client_Get ctx1 = Inr (cs, c)" using factory_keeps_client Inr assms r by metis
  with Inr r show ?thesis by (simp add: Fake_injection_def Default_def fake_factories_eq [OF assms] fake_factories_eq)
qed (simp add: Fake_injection_def Default_def fake_factories_eq [OF assms])

lemma setup_fake_informers:
  "setup_informers (im_informers (Fake_injection L iface fs filtered)) = setup_informers (im_informers (Default N filtered))"
  "setup_filtered (im_filteredInformers (Fake_injection L iface fs filtered)) = setup_filtered (im_filteredInformers (Default N filtered))"
  by (intro ext; simp add: Fake_injection_def Default_def fake_informers_eq)+

section \<open>What the run leaves\<close>

lemma filteredfactory_loop_client:
  "filteredfactory_loop c x l ctx h = (ctx', h') \<Longrightarrow> fake_client_Get ctx' = fake_client_Get ctx"
  by (induction l arbitrary: ctx h) (simp_all add: Let_def split: if_splits)

lemma filteredinformer_loop_client:
  "filteredinformer_loop l ctx infs h = Inr (ctx', infs', h') \<Longrightarrow> fake_client_Get ctx' = fake_client_Get ctx"
proof (induction l arbitrary: ctx infs h)
  case (Cons sel l)
  then obtain p where p: "filteredfactory_Get ctx sel = Inr p" by (auto split: sum.splits)
  obtain i h1 where i: "informer_of (Factory_informer p (Custom_V1alpha1_TaskGroups (h ! p))) h = (i, h1)" by fastforce
  from Cons p i show ?case by (simp add: Let_def)
qed simp

lemma injectors_keep_client:
  "filteredfactory_withInformerFactory ctx h = Inr (ctx', h') \<Longrightarrow> fake_client_Get ctx' = fake_client_Get ctx"
  "informer_withInformer ctx h = Inr (ctx', i, h') \<Longrightarrow> fake_client_Get ctx' = fake_client_Get ctx"
  "filteredinformer_withInformer ctx h = Inr (ctx', infs, h') \<Longrightarrow> fake_client_Get ctx' = fake_client_Get ctx"
  by (auto simp: filteredfactory_withInformerFactory_def informer_withInformer_def filteredinformer_withInformer_def Let_def
      split: sum.splits prod.splits dest: filteredfactory_loop_client filteredinformer_loop_client)

lemma rest_keeps_client:
  assumes "SetupInformers (Default N filtered\<lparr>im_clients := []\<rparr>) ctx cfg h = Inr (ctx', infs, h')"
  shows "fake_client_Get ctx' = fake_client_Get ctx"
  using assms
  by (auto simp: SetupInformers_def Default_def split: sum.splits if_splits
      dest!: factory_keeps_client injectors_keep_client)

lemma fake_rest_eq:
  assumes "fake_client_Get ctx = Inr (cs, c)"
  shows "SetupInformers (Fake_injection L iface fs filtered\<lparr>im_clients := []\<rparr>) ctx cfg h =
    SetupInformers (Default N filtered\<lparr>im_clients := []\<rparr>) ctx cfg h"
proof -
  have "im_factories (i\<lparr>im_clients := []\<rparr>) = im_factories i" "im_informers (i\<lparr>im_clients := []\<rparr>) = im_informers i"
    "im_filteredInformers (i\<lparr>im_clients := []\<rparr>) = im_filteredInformers i" for i :: "('a, 'b, 'c) impl"
    by simp_all
  then show ?thesis
    unfolding SetupInformers_def setup_fake_informers [where N = N]
    by (simp add: setup_fake_factories [where N = N, OF assms] setup_fake_informers [where N = N] cong: sum.case_cong prod.case_cong)
qed

lemma fake_SetupInformers_result:
  assumes "filtered \<Longrightarrow> labels_of ctx = Inr sels" "NewSimpleClientset L [] = Inr f0"
  shows "\<exists>ctx' infs h'. fake_SetupInformers L iface filtered ctx cfg fs h = Inr (ctx', infs, fs @ [f0], h') \<and>
    fake_client_Get ctx' = Inr (length fs, iface (length fs)) \<and>
    serves (iface (length fs)) (GetNamespaceScope ctx) None h' (informer_Get ctx') \<and>
    (filtered \<longrightarrow> (\<forall>s \<in> set sels. serves (iface (length fs)) (GetNamespaceScope ctx)
      (Some (\<lambda>l. l\<lparr>lo_LabelSelector := last sels\<rparr>)) h' (filteredinformer_Get ctx' s)))"
proof -
  let ?c = "iface (length fs)" and ?N = "\<lambda>_. bad_type"
  let ?ctx = "WithValue ctx client_Key (Fake_val (length fs) ?c)"
  have w: "fake_withClient L iface ctx cfg fs = Inr (?ctx, fs @ [f0])"
    using assms(2) by (simp add: fake_withClient_def fake_With_def Let_def)
  then have i: "setup_clients (im_clients (Fake_injection L iface fs filtered)) cfg ctx = Inr ?ctx"
    by (simp add: Fake_injection_def)
  have c: "client_Get ?ctx = Inr ?c" "labels_of ?ctx = labels_of ctx" "GetNamespaceScope ?ctx = GetNamespaceScope ctx"
    "fake_client_Get ?ctx = Inr (length fs, ?c)" by simp_all
  from SetupInformers_rest [where N = ?N and cfg = cfg and h = h and filtered = filtered and sels = sels, OF c(1)] assms(1)
  obtain ctx' infs h' where
    r: "SetupInformers (Default ?N filtered\<lparr>im_clients := []\<rparr>) ?ctx cfg h = Inr (ctx', infs, h')"
    and s: "serves ?c (GetNamespaceScope ctx) None h' (informer_Get ctx')"
      "filtered \<longrightarrow> (\<forall>s \<in> set sels. serves ?c (GetNamespaceScope ctx)
        (Some (\<lambda>l. l\<lparr>lo_LabelSelector := last sels\<rparr>)) h' (filteredinformer_Get ctx' s))"
    unfolding c(2,3) by blast
  have "SetupInformers (Fake_injection L iface fs filtered) ctx cfg h = Inr (ctx', infs, h')"
    unfolding SetupInformers_clients [OF i] fake_rest_eq [where N = ?N, OF c(4)] by (rule r)
  with w have "fake_SetupInformers L iface filtered ctx cfg fs h = Inr (ctx', infs, fs @ [f0], h')"
    by (simp add: fake_SetupInformers_def)
  moreover have "fake_client_Get ctx' = Inr (length fs, ?c)" using rest_keeps_client [OF r] c(4) by simp
  ultimately show ?thesis using s by blast
qed

text \<open>The getter of the fake clientset panics in a context of a real run, and a clientset put there after the run is
  not the one the informers list through.\<close>

lemma fake_client_Get_real:
  assumes "SetupInformers (Default N filtered) ctx cfg h = Inr (ctx', infs, h')"
  shows "fake_client_Get ctx' = bad_type"
proof -
  from assms obtain c where c: "N cfg = Inr c"
    by (auto simp: SetupInformers_def Default_def withClientFromConfig_def split: sum.splits)
  then have "setup_clients (im_clients (Default N filtered)) cfg ctx = Inr (WithValue ctx client_Key (Client_val c))"
    by (simp add: Default_def withClientFromConfig_def)
  from rest_keeps_client [OF assms [unfolded SetupInformers_clients [OF this]]] show ?thesis by simp
qed

lemma fake_With_shadows:
  assumes "fake_With L iface ctx obs fs = Inr (ctx', cs, fs')"
  shows "fake_client_Get ctx' = Inr (length fs, iface (length fs))" "informer_Get ctx' = informer_Get ctx"
  using assms by (auto simp: fake_With_def informer_Get_def Let_def split: sum.splits)

section \<open>What an informer lists during a test\<close>

text \<open>A run of operations on a clientset that nobody watches has no bound on its length.\<close>

lemma fake_run_unwatched:
  assumes "fake_ok L f" "tk_channels (fk_tracker f) = []" "list_all (\<lambda>(ns, op). parses L op) ops"
    and "serve_run L ops (store_of (fk_tracker f)) = (answers, st', log)"
  shows "\<exists>f'. fake_run L ops f = Inr (answers, f') \<and> fake_ok L f' \<and> store_of (fk_tracker f') = st' \<and>
    tk_channels (fk_tracker f') = []"
  using assms
proof (induction ops arbitrary: f answers log)
  case (Cons x ops)
  obtain ns op where x: "x = (ns, op)" by fastforce
  obtain a st1 evs where s: "serve L ns op (store_of (fk_tracker f)) = (a, st1, evs)" by (metis prod_cases3)
  obtain as log' where r: "serve_run L ops st1 = (as, st', log')" and al: "answers = a # as"
    using Cons.prems(4) by (auto simp: x s split: prod.splits)
  have "room (fk_tracker f)" "parses L op" using Cons.prems(2,3) by (simp_all add: room_def x)
  from fake_op_refines [OF Cons.prems(1) this s] obtain f1 where
    f1: "fake_op L ns op f = Inr (a, f1)" "fake_ok L f1" "store_of (fk_tracker f1) = st1" "tk_channels (fk_tracker f1) = []"
    using Cons.prems(2) by (auto simp: delivered_def)
  from Cons.IH [OF f1(2,4)] Cons.prems(3) r f1(1,3) show ?case by (auto simp: x al)
qed simp

lemma fake_at_lists:
  assumes "fake_ok L f" "tk_channels (fk_tracker f) = []" "ExtractFromListOptions L opts = Inr sel"
  shows "ci_List (fake_at L f) ns opts =
    (Some (zero_TaskGroupList\<lparr>tl_Items := store_list ns (sel_Matches sel) (store_of (fk_tracker f))\<rparr>), None)"
proof -
  let ?l = "Some (zero_TaskGroupList\<lparr>tl_Items := store_list ns (sel_Matches sel) (store_of (fk_tracker f))\<rparr>)"
  have "fl_labels_Parse L (lo_LabelSelector opts) = Inr sel"
    using assms(3) by (auto simp: ExtractFromListOptions_def split: sum.splits option.splits)
  then have s: "serve L ns (List_op opts) (store_of (fk_tracker f)) = (List_answer (?l, None), store_of (fk_tracker f), [])"
    by (simp add: serve_def)
  have "room (fk_tracker f)" "parses L (List_op opts)" using assms(2,3) by (simp_all add: room_def)
  from fake_op_refines [OF assms(1) this s] obtain f' where "fake_op L ns (List_op opts) f = Inr (List_answer (?l, None), f')"
    by blast
  then show ?thesis by (auto simp: fake_at_def reply_def fake_op_def Let_def split: sum.splits)
qed

section \<open>Properties\<close>

text \<open>C28. A test finds through the injected informer what it has put into the injected clientset. \<open>SetupInformers\<close> of
  the fake injection ends with a new clientset, which \<open>Get\<close> finds in the context; and after any sequence of operations
  on that clientset, the TaskGroup informer of the context lists exactly the objects that the specified server holds
  after them, in the namespace the context is scoped to and matching the options.\<close>

theorem fake_injection_lists_store:
  assumes "filtered \<Longrightarrow> labels_of ctx = Inr selectors" "list_all (\<lambda>(ns, op). parses L op) ops"
    and "ExtractFromListOptions L opts = Inr sel" "serve_run L ops Map.empty = (answers, st', log)"
  shows "\<exists>f0 f ctx' infs h' tginf.
    fake_SetupInformers L (iface(length fs := fake_at L f)) filtered ctx cfg fs h = Inr (ctx', infs, fs @ [f0], h') \<and>
    fake_client_Get ctx' = Inr (length fs, fake_at L f) \<and> informer_Get ctx' = Inr tginf \<and>
    fake_run L ops f0 = Inr (answers, f) \<and>
    lists tginf h' opts =
      (Some (zero_TaskGroupList\<lparr>tl_Items := store_list (GetNamespaceScope ctx) (sel_Matches sel) st'\<rparr>), None)"
proof -
  from NewSimpleClientset_result [of "[]" L] obtain f0 where f0: "NewSimpleClientset L [] = Inr f0" "fake_ok L f0"
    "tk_channels (fk_tracker f0) = []" "store_of (fk_tracker f0) = Map.empty"
    by (auto simp: flat_def store_from_def)
  from fake_run_unwatched [OF f0(2,3) assms(2)] assms(4) f0(4) obtain f where
    f: "fake_run L ops f0 = Inr (answers, f)" "fake_ok L f" "store_of (fk_tracker f) = st'" "tk_channels (fk_tracker f) = []"
    by auto
  let ?iface = "iface(length fs := fake_at L f)"
  from fake_SetupInformers_result [where L = L and iface = ?iface and fs = fs and cfg = cfg and h = h
      and filtered = filtered, OF assms(1) f0(1)]
  obtain ctx' infs h' where
    r: "fake_SetupInformers L ?iface filtered ctx cfg fs h = Inr (ctx', infs, fs @ [f0], h')"
      "fake_client_Get ctx' = Inr (length fs, fake_at L f)"
    and s: "serves (fake_at L f) (GetNamespaceScope ctx) None h' (informer_Get ctx')" by auto
  from serves_lists [OF s] obtain tginf where "informer_Get ctx' = Inr tginf"
    "lists tginf h' opts = ci_List (fake_at L f) (GetNamespaceScope ctx) opts" by auto
  moreover from this(2) have "lists tginf h' opts =
      (Some (zero_TaskGroupList\<lparr>tl_Items := store_list (GetNamespaceScope ctx) (sel_Matches sel) st'\<rparr>), None)"
    unfolding fake_at_lists [OF f(2,4) assms(3)] f(3) .
  ultimately show ?thesis using r f(1) by blast
qed

theorem fake_injection_lists_store_witness:
  "\<exists>f0 f ctx' infs h' tginf.
    fake_SetupInformers ex_fake_lib ((\<lambda>_. ex_client)(0 := fake_at ex_fake_lib f)) True ex_ctx () [] [] = Inr (ctx', infs, [f0], h') \<and>
    informer_Get ctx' = Inr tginf \<and>
    fake_run ex_fake_lib [(''ns'', Create_op ex_object)] f0 = Inr ([Object_answer (Some ex_object, None)], f) \<and>
    lists tginf h' empty_ListOptions = (Some (zero_TaskGroupList\<lparr>tl_Items := [ex_object]\<rparr>), None)"
proof -
  let ?ops = "[(''ns'', Create_op ex_object)]" and ?st = "[(''ns'', ''group'') \<mapsto> ex_object]"
  have o: "tg_Namespace ex_object = ''ns''" "tg_Name ex_object = ''group''" by (simp_all add: ex_object_def)
  have "ExtractFromListOptions ex_fake_lib empty_ListOptions = Inr Everything"
    by (simp add: ExtractFromListOptions_def ex_fake_lib_def empty_ListOptions_def)
  moreover have "serve_run ex_fake_lib ?ops Map.empty =
      ([Object_answer (Some ex_object, None)], ?st, [(''ns'', [(Added, ex_object)])])"
    by (simp add: serve_def store_add_def answer_of_def o Let_def)
  moreover have "store_list ''ns'' (sel_Matches Everything) ?st = [ex_object]"
  proof -
    have "{k \<in> dom ?st. ''ns'' = [] \<or> fst k = ''ns''} = {(''ns'', ''group'')}" by auto
    then show ?thesis by (simp add: store_list_def Everything_def)
  qed
  ultimately show ?thesis
    using fake_injection_lists_store [where filtered = True and ctx = ex_ctx and selectors = "[''team=a'', ''team=b'']"
        and L = ex_fake_lib and ops = ?ops and fs = "[]" and h = "[]" and cfg = "()" and iface = "\<lambda>_. ex_client"
        and opts = empty_ListOptions and sel = Everything and st' = ?st, OF ex_ctx_facts(1)]
    unfolding ex_ctx_facts(2) list.size(3) append_Nil by simp metis
qed

end
