(* ===== verification/Startup.thy ===== *)
theory Startup
  imports Run_Worker Clientset
begin

text \<open>
  How the controller comes up: \<open>main\<close> of \<open>cmd/controller\<close>, the construction of the \<open>Reconciler\<close> from the context in
  \<open>NewController\<close>, \<open>init\<close> of \<open>taskgroup.go\<close> with the bytes of the cancellation patch, \<open>NewImpl\<close> of the reconciler
  generated for Runs, and what it does when the process becomes the leader (\<open>Promote\<close>, \<open>PromoteFunc\<close>).

  The clients and informers of the other packages that \<open>NewController\<close> takes from the context are parameters
  (\<open>LibInjection\<close>), with the hypothesis \<open>injected\<close> that they have been put there. \<open>sharedmain.MainWithConfig\<close> sets up the injected informers, calls the constructors and runs the
  controllers; of it only the order of these calls is used.
\<close>

section \<open>The cancellation patch\<close>

text \<open>\<open>json.Marshal\<close> on the values of this package: texts, lists and structs with their fields in order.\<close>

datatype json_value = Json_null | Json_string string | Json_array "json_value list" | Json_struct "(string \<times> json_value) list"

definition json_char :: "char \<Rightarrow> string" where
  "json_char c =
     (let n = (of_char c :: nat) in
      if n = 34 \<or> n = 92 then [CHR 0x5C, c]
      else if n = 10 then [CHR 0x5C, CHR ''n'']
      else if n = 13 then [CHR 0x5C, CHR ''r'']
      else if n = 9 then [CHR 0x5C, CHR ''t'']
      else if n < 32 \<or> c \<in> set ''<>&'' then [CHR 0x5C] @ ''u00'' @ [hex_digit (n div 16), hex_digit (n mod 16)]
      else [c])"

definition json_text :: "string \<Rightarrow> string" where
  "json_text s = [CHR 0x22] @ concat (map json_char s) @ [CHR 0x22]"

fun json_Marshal :: "json_value \<Rightarrow> string" where
  "json_Marshal Json_null = ''null''"
| "json_Marshal (Json_string s) = json_text s"
| "json_Marshal (Json_array vs) = ''['' @ join_with '','' (map json_Marshal vs) @ '']''"
| "json_Marshal (Json_struct fs) = ''{'' @ join_with '','' (map (\<lambda>(k, v). json_text k @ '':'' @ json_Marshal v) fs) @ ''}''"

record JsonPatchOperation =
  jp_Operation :: string
  jp_Path :: string
  jp_Value :: "json_value option"

definition Operation_MarshalJSON :: "JsonPatchOperation \<Rightarrow> json_value" where
  "Operation_MarshalJSON j =
     (if jp_Value j = None \<and> (jp_Operation j = ''replace'' \<or> jp_Operation j = ''add'')
      then Json_struct [(''op'', Json_string (jp_Operation j)), (''path'', Json_string (jp_Path j)), (''value'', Json_null)]
      else Json_struct ([(''op'', Json_string (jp_Operation j)), (''path'', Json_string (jp_Path j))] @
        (case jp_Value j of None \<Rightarrow> [] | Some v \<Rightarrow> [(''value'', v)])))"

definition cancelPatchBytes :: string where
  "cancelPatchBytes =
     (let patches = [\<lparr>jp_Operation = ''add'', jp_Path = ''/spec/status'', jp_Value = Some (Json_string TaskRunSpecStatusCancelled)\<rparr>]
      in json_Marshal (Json_array (map Operation_MarshalJSON patches)))"

lemma cancelPatchBytes_text:
  "cancelPatchBytes = ''[{'' @ quote ''op'' @ '':'' @ quote ''add'' @ '','' @ quote ''path'' @ '':'' @ quote ''/spec/status'' @ '','' @
     quote ''value'' @ '':'' @ quote ''TaskRunCancelled'' @ ''}]''"
  by code_simp

section \<open>The generated reconciler\<close>

text \<open>\<open>controller.Options\<close>, without the options that NewController cannot set to anything but their zero value in this
  model: the config store, the demote function and the concurrency.\<close>

record Options =
  op_FinalizerName :: string
  op_AgentName :: string
  op_SkipStatusUpdates :: bool
  op_PromoteFilterFunc :: "(Run \<Rightarrow> bool) option"

text \<open>The lister of Runs: \<open>List(labels.Everything())\<close>, and \<open>Runs(ns).Get(name)\<close>.\<close>

record RunLister =
  rl_List :: "goerror + Run list"
  rl_Get :: "string \<Rightarrow> string \<Rightarrow> goerror + Run"

text \<open>\<open>reconcilerImpl\<close> with the two variables that \<open>NewImpl\<close> shares with its closures.\<close>

record 'p reconcilerImpl =
  ri_Client :: 'p
  ri_Lister :: RunLister
  ri_finalizerName :: string
  ri_skipStatusUpdates :: bool
  ri_agentName :: string
  ri_promoteFilterFunc :: "(Run \<Rightarrow> bool) option"

text \<open>\<open>Get\<close> of the packages injected beside those of this repository, and \<open>Lister()\<close> of their informers.\<close>

record ('cfg, 'u, 'ul, 'k, 'p, 'ri, 'ti) LibInjection =
  li_kubeclient :: "('cfg, 'u, 'ul) ctx \<Rightarrow> 'k may_panic"
  li_pipelineclient :: "('cfg, 'u, 'ul) ctx \<Rightarrow> 'p may_panic"
  li_runinformer :: "('cfg, 'u, 'ul) ctx \<Rightarrow> 'ri may_panic"
  li_taskruninformer :: "('cfg, 'u, 'ul) ctx \<Rightarrow> 'ti may_panic"
  li_runLister :: "'ri \<Rightarrow> RunLister"
  li_taskRunLister :: "'ti \<Rightarrow> string \<Rightarrow> string gomap \<Rightarrow> goerror + TaskRun list"

definition apply_options :: "'p reconcilerImpl \<Rightarrow> Options \<Rightarrow> 'p reconcilerImpl" where
  "apply_options rec opts =
     (let rec = (if op_FinalizerName opts \<noteq> [] then rec\<lparr>ri_finalizerName := op_FinalizerName opts\<rparr> else rec);
          rec = (if op_AgentName opts \<noteq> [] then rec\<lparr>ri_agentName := op_AgentName opts\<rparr> else rec);
          rec = (if op_SkipStatusUpdates opts then rec\<lparr>ri_skipStatusUpdates := True\<rparr> else rec)
      in if op_PromoteFilterFunc opts \<noteq> None then rec\<lparr>ri_promoteFilterFunc := op_PromoteFilterFunc opts\<rparr> else rec)"

definition NewImpl ::
    "('cfg, 'u, 'ul, 'k, 'p, 'ri, 'ti) LibInjection \<Rightarrow> ('cfg, 'u, 'ul) ctx \<Rightarrow> Options list \<Rightarrow> 'p reconcilerImpl may_panic" where
  "NewImpl L ctx optionsFns =
     (if length optionsFns > 1
      then Inl (''Up to one options function is supported, found: '' @ itoa (length optionsFns))
      else (case li_runinformer L ctx of
              Inl p \<Rightarrow> Inl p
            | Inr runInformer \<Rightarrow>
                (case li_pipelineclient L ctx of
                   Inl p \<Rightarrow> Inl p
                 | Inr client \<Rightarrow>
                     let rec = \<lparr>ri_Client = client, ri_Lister = li_runLister L runInformer,
                           ri_finalizerName = ''runs.tekton.dev'', ri_skipStatusUpdates = False,
                           ri_agentName = ''run-controller'', ri_promoteFilterFunc = None\<rparr>
                     in Inr (foldl apply_options rec optionsFns))))"

section \<open>Leadership\<close>

record Bucket =
  bk_Name :: string
  bk_Has :: "NamespacedName \<Rightarrow> bool"

text \<open>\<open>MaybeEnqueueBucketKey\<close>: the keys that go to the queue.\<close>

definition MaybeEnqueueBucketKey :: "Bucket \<Rightarrow> NamespacedName \<Rightarrow> NamespacedName list" where
  "MaybeEnqueueBucketKey bkt key = (if bk_Has bkt key then [key] else [])"

definition PromoteFunc :: "'p reconcilerImpl \<Rightarrow> Bucket \<Rightarrow> goerror option \<times> NamespacedName list" where
  "PromoteFunc rec bkt =
     (case rl_List (ri_Lister rec) of
        Inl err \<Rightarrow> (Some err, [])
      | Inr all_Runs \<Rightarrow>
          (None, concat (map (\<lambda>elt.
             if (case ri_promoteFilterFunc rec of None \<Rightarrow> True | Some f \<Rightarrow> f elt)
             then MaybeEnqueueBucketKey bkt \<lparr>nn_Namespace = run_Namespace elt, nn_Name = run_Name elt\<rparr>
             else []) all_Runs)))"

text \<open>\<open>LeaderAwareFuncs\<close>, with the buckets it leads by their names.\<close>

type_synonym buckets = "Bucket gomap"

definition IsLeaderFor :: "buckets \<Rightarrow> NamespacedName \<Rightarrow> bool" where
  "IsLeaderFor bs key = list_ex (\<lambda>(n, bkt). bk_Has bkt key) bs"

definition Promote ::
    "(Bucket \<Rightarrow> goerror option \<times> NamespacedName list) \<Rightarrow> Bucket \<Rightarrow> buckets \<Rightarrow> (goerror option \<times> NamespacedName list) \<times> buckets" where
  "Promote promote b bs = (let bs = gomap_set (bk_Name b) b bs in (promote b, bs))"

section \<open>NewController\<close>

text \<open>\<open>Lister()\<close> of the TaskGroup informer of the context: a lister over the indexer of an informer of a factory, or the
  wrapper itself.\<close>

datatype TaskGroupLister =
    Indexer_lister nat nat
  | Wrapper_lister wrapper
  | Filtered_lister filtered_wrapper

definition informer_Lister :: "TaskGroupInformer \<Rightarrow> heap \<Rightarrow> TaskGroupLister \<times> heap" where
  "informer_Lister tginf h =
     (case tginf of
        Factory_informer p i \<Rightarrow> (case taskGroupInformer_Lister i (h ! p) of (n, f) \<Rightarrow> (Indexer_lister p n, h[p := f]))
      | Wrapper_informer w \<Rightarrow> (Wrapper_lister w, h)
      | Filtered_informer w \<Rightarrow> (Filtered_lister w, h))"

record ('k, 'p) Reconciler_struct =
  rec_pipelineClientSet :: 'p
  rec_kubeClientSet :: 'k
  rec_taskgroupClientSet :: ClientInterface
  rec_runLister :: RunLister
  rec_taskGroupLister :: TaskGroupLister
  rec_taskRunLister :: "string \<Rightarrow> string gomap \<Rightarrow> goerror + TaskRun list"

record ('k, 'p) controller_Impl =
  ct_Reconciler :: "('k, 'p) Reconciler_struct"
  ct_Impl :: "'p reconcilerImpl"
  ct_Handlers :: Handlers

definition taskgroup_options :: Options where
  "taskgroup_options = \<lparr>op_FinalizerName = [], op_AgentName = ''run-taskgroup'', op_SkipStatusUpdates = False,
     op_PromoteFilterFunc = None\<rparr>"

definition NewController_of ::
    "('cfg, 'u, 'ul, 'k, 'p, 'ri, 'ti) LibInjection \<Rightarrow> ('cfg, 'u, 'ul) ctx \<Rightarrow> heap \<Rightarrow> (('k, 'p) controller_Impl \<times> heap) may_panic" where
  "NewController_of L ctx h =
     (case li_kubeclient L ctx of Inl p \<Rightarrow> Inl p | Inr kubeclientset \<Rightarrow>
     (case li_pipelineclient L ctx of Inl p \<Rightarrow> Inl p | Inr pipelineclientset \<Rightarrow>
     (case client_Get ctx of Inl p \<Rightarrow> Inl p | Inr taskgroupclientset \<Rightarrow>
     (case li_runinformer L ctx of Inl p \<Rightarrow> Inl p | Inr runInformer \<Rightarrow>
     (case informer_Get ctx of Inl p \<Rightarrow> Inl p | Inr taskGroupInformer \<Rightarrow>
     (case li_taskruninformer L ctx of Inl p \<Rightarrow> Inl p | Inr taskRunInformer \<Rightarrow>
       let (taskGroupLister, h) = informer_Lister taskGroupInformer h;
           c = \<lparr>rec_pipelineClientSet = pipelineclientset, rec_kubeClientSet = kubeclientset,
                rec_taskgroupClientSet = taskgroupclientset, rec_runLister = li_runLister L runInformer,
                rec_taskGroupLister = taskGroupLister, rec_taskRunLister = li_taskRunLister L taskRunInformer\<rparr>
       in (case NewImpl L ctx [taskgroup_options] of
             Inl p \<Rightarrow> Inl p
           | Inr impl \<Rightarrow>
               Inr (\<lparr>ct_Reconciler = c, ct_Impl = impl, ct_Handlers = NewController (rl_Get (li_runLister L runInformer))\<rparr>, h))))))))"

section \<open>main\<close>

definition WithNamespaceScope :: "('cfg, 'u, 'ul) ctx \<Rightarrow> string \<Rightarrow> ('cfg, 'u, 'ul) ctx" where
  "WithNamespaceScope ctx namespace = WithValue ctx nsKey (String_val namespace)"

definition ControllerLogKey :: string where "ControllerLogKey = ''tekton-taskgroup-controller''"
definition ManagedByLabelKey :: string where "ManagedByLabelKey = ''app.kubernetes.io/managed-by''"

text \<open>The context, the name and the constructor that \<open>main\<close> hands to \<open>sharedmain.MainWithConfig\<close>; \<open>kubeWithSelectors\<close>
  is that of the factory for kubernetes objects, with a key of its own.\<close>

definition main_args ::
    "(('cfg, 'u, 'ul) ctx \<Rightarrow> string list \<Rightarrow> ('cfg, 'u, 'ul) ctx) \<Rightarrow> ('cfg, 'u, 'ul, 'k, 'p, 'ri, 'ti) LibInjection \<Rightarrow>
      ('cfg, 'u, 'ul) ctx \<Rightarrow> string \<Rightarrow>
      ('cfg, 'u, 'ul) ctx \<times> string \<times> (('cfg, 'u, 'ul) ctx \<Rightarrow> heap \<Rightarrow> (('k, 'p) controller_Impl \<times> heap) may_panic)" where
  "main_args kubeWithSelectors L ctx namespace =
     (let ctx = WithNamespaceScope ctx namespace;
          ctx = kubeWithSelectors ctx [ManagedByLabelKey]
      in (ctx, ControllerLogKey, NewController_of L))"

section \<open>The reconciler reads what is started\<close>

lemma NewImpl_taskgroup:
  "li_runinformer L ctx = Inr ri \<Longrightarrow> li_pipelineclient L ctx = Inr pc \<Longrightarrow>
    NewImpl L ctx [taskgroup_options] = Inr \<lparr>ri_Client = pc, ri_Lister = li_runLister L ri,
      ri_finalizerName = ''runs.tekton.dev'', ri_skipStatusUpdates = False, ri_agentName = ''run-taskgroup'',
      ri_promoteFilterFunc = None\<rparr>"
  by (simp add: NewImpl_def taskgroup_options_def apply_options_def Let_def)

lemma NewController_of_Impl:
  assumes "NewController_of L ctx h = Inr (c, h')"
  shows "ri_promoteFilterFunc (ct_Impl c) = None" "\<exists>ri. li_runinformer L ctx = Inr ri \<and> ri_Lister (ct_Impl c) = li_runLister L ri"
proof -
  obtain ri pc where l: "li_runinformer L ctx = Inr ri" "li_pipelineclient L ctx = Inr pc" and c: "NewImpl L ctx [taskgroup_options] = Inr (ct_Impl c)"
    using assms by (auto simp: NewController_of_def Let_def split: sum.splits prod.splits)
  show "ri_promoteFilterFunc (ct_Impl c) = None" "\<exists>ri. li_runinformer L ctx = Inr ri \<and> ri_Lister (ct_Impl c) = li_runLister L ri"
    using c l unfolding NewImpl_taskgroup [OF l] by (auto dest!: sym [of _ "ct_Impl c"])
qed

lemma first_informer:
  assumes "fa_informers F = []" "fa_tweakListOptions F = None"
    and "taskGroupInformer_Informer (Custom_V1alpha1_TaskGroups F) F = (informer, f)"
  shows "map_of (fa_informers f) TaskGroup_type = Some informer" "in_ListFunc informer = ci_List (fa_client F) (fa_namespace F)"
    "Custom_V1alpha1_TaskGroups f = Custom_V1alpha1_TaskGroups F"
  using assms
  by (auto simp: taskGroupInformer_Informer_def InformerFor_def Let_def defaultInformer_def NewFilteredTaskGroupInformer_def
      Custom_V1alpha1_TaskGroups_eq map_of_gomap_set)

text \<open>The injected informer is in the factory when the constructors run, and asking for it again changes nothing.\<close>

lemma SetupInformers_started:
  assumes "N cfg = Inr c"
  shows "\<exists>ctx' inf h' f. SetupInformers (Default N False) ctx cfg h = Inr (ctx', [inf], h') \<and>
    client_Get ctx' = Inr c \<and> h' = h @ [f] \<and> map_of (fa_informers f) TaskGroup_type = Some inf \<and>
    in_ListFunc inf = ci_List c (GetNamespaceScope ctx) \<and>
    informer_Get ctx' = Inr (Factory_informer (length h) (Custom_V1alpha1_TaskGroups f)) \<and>
    (\<forall>k. k \<notin> {client_Key, factory_Key, informer_Key} \<longrightarrow> Value ctx' k = Value ctx k)"
proof -
  let ?ctx = "WithValue ctx client_Key (Client_val c)"
  let ?f = "NewSharedInformerFactoryWithOptions c (GetResyncPeriod ?ctx) (if HasNamespaceScope ?ctx then [WithNamespace (GetNamespaceScope ?ctx)] else [])"
  let ?i = "Custom_V1alpha1_TaskGroups ?f"
  obtain inf f where i: "taskGroupInformer_Informer ?i ?f = (inf, f)" by fastforce
  have new: "fa_informers ?f = []" "fa_client ?f = c" "fa_namespace ?f = GetNamespaceScope ctx" "fa_tweakListOptions ?f = None"
    by (simp_all add: NewSharedInformerFactoryWithOptions_def WithNamespace_def HasNamespaceScope_def GetNamespaceScope_def)
  note f = first_informer [OF new(1,4) i, unfolded new(2,3)]
  let ?ctx1 = "WithValue ?ctx factory_Key (Factory_val (length h))"
  let ?ctx2 = "WithValue ?ctx1 informer_Key (Informer_val (Factory_informer (length h) ?i))"
  have "factory_withInformerFactory ?ctx h = Inr (?ctx1, h @ [?f])"
    by (simp add: factory_withInformerFactory_def client_Get_def Let_def)
  moreover have "informer_withInformer ?ctx1 (h @ [?f]) = Inr (?ctx2, inf, h @ [f])"
    using i by (simp add: informer_withInformer_def factory_Get_def informer_of_def Let_def nth_append)
  ultimately have "SetupInformers (Default N False) ctx cfg h = Inr (?ctx2, [inf], h @ [f])"
    using assms by (simp add: SetupInformers_def Default_def withClientFromConfig_def)
  moreover have "client_Get ?ctx2 = Inr c" "informer_Get ?ctx2 = Inr (Factory_informer (length h) (Custom_V1alpha1_TaskGroups f))"
    by (simp_all add: client_Get_def informer_Get_def f(3))
  moreover have "\<forall>k. k \<notin> {client_Key, factory_Key, informer_Key} \<longrightarrow> Value ?ctx2 k = Value ctx k" by simp
  ultimately show ?thesis using f(1,2) by blast
qed

lemma informer_Lister_started:
  assumes "p < length h" "map_of (fa_informers (h ! p)) TaskGroup_type = Some informer"
  shows "informer_Lister (Factory_informer p i) h = (Indexer_lister p (in_id informer), h)"
  using assms by (simp add: informer_Lister_def taskGroupInformer_Lister_def taskGroupInformer_Informer_def InformerFor_def)

text \<open>The other packages have put their clients and informers into a context: each \<open>Get\<close> finds its value there, and
  still does after the packages of this repository have added theirs under their own keys.\<close>

definition injected :: "('cfg, 'u, 'ul, 'k, 'p, 'ri, 'ti) LibInjection \<Rightarrow> ('cfg, 'u, 'ul) ctx \<Rightarrow> bool" where
  "injected L ctx \<longleftrightarrow> (\<forall>ctx'. (\<forall>k. k \<notin> {client_Key, factory_Key, informer_Key} \<longrightarrow> Value ctx' k = Value ctx k) \<longrightarrow>
     (\<exists>k. li_kubeclient L ctx' = Inr k) \<and> (\<exists>p. li_pipelineclient L ctx' = Inr p) \<and>
     (\<exists>ri. li_runinformer L ctx' = Inr ri) \<and> (\<exists>ti. li_taskruninformer L ctx' = Inr ti))"

text \<open>C32. From \<open>main\<close> to the reconciler: where the API server can be reached, and the other packages have been injected
  into the context of \<open>main\<close> (which gives \<open>ctx1\<close>), the controller comes up without a panic,
  exactly one TaskGroup informer is handed to be started, the reconciler's TaskGroup lister reads the indexer of this
  informer, constructing the controller makes no other, and what the informer lists is what the typed client gets from
  the configured server in the namespace given on the command line. (It is wired only: \<open>getTaskGroup\<close> asks the
  client instead.)\<close>

theorem controller_reads_started_informer:
  assumes "injected L ctx1" "\<And>ctx sels k. Value (kubeWithSelectors ctx sels) k = Value ctx k"
    and "cl_connect C (fst (setConfigDefaults C cfg)) = Inr rc" "cl_connect C (setDiscoveryDefaults C cfg) = Inr rd"
    and "main_args kubeWithSelectors L ctx0 namespace = (ctx, name, constructor)"
    and "Value ctx1 nsKey = Value ctx nsKey"
  shows "\<exists>ctx' inf h' c p. SetupInformers (Default (default_clients C ls) False) ctx1 cfg h = Inr (ctx', [inf], h') \<and>
    constructor ctx' h' = Inr (c, h') \<and>
    rec_taskGroupLister (ct_Reconciler c) = Indexer_lister p (in_id inf) \<and>
    map_of (fa_informers (h' ! p)) TaskGroup_type = Some inf \<and>
    in_ListFunc inf = taskGroups_List (newTaskGroups rc namespace)"
proof -
  from NewForConfigOrDie_ok [OF assms(3,4), of ls] obtain cs ls' where cs: "clientset_NewForConfigOrDie C cfg ls = (Inr cs, ls')"
    "rst_client (cc_restClient (cs_customV1alpha1 cs)) = rc" by blast
  have n: "default_clients C ls cfg = Inr (clientset_interface cs)" by (simp add: default_clients_def cs(1))
  from SetupInformers_started [where N = "default_clients C ls" and ctx = ctx1 and h = h, OF n]
  obtain ctx' inf h' f where s: "SetupInformers (Default (default_clients C ls) False) ctx1 cfg h = Inr (ctx', [inf], h')"
    "client_Get ctx' = Inr (clientset_interface cs)" "h' = h @ [f]" "map_of (fa_informers f) TaskGroup_type = Some inf"
    "in_ListFunc inf = ci_List (clientset_interface cs) (GetNamespaceScope ctx1)"
    "informer_Get ctx' = Inr (Factory_informer (length h) (Custom_V1alpha1_TaskGroups f))"
    "\<forall>k. k \<notin> {client_Key, factory_Key, informer_Key} \<longrightarrow> Value ctx' k = Value ctx1 k"
    by blast
  have ns: "GetNamespaceScope ctx1 = namespace" and con: "constructor = NewController_of L"
    using assms(5,6) by (auto simp: main_args_def Let_def GetNamespaceScope_def assms(2) WithNamespaceScope_def)
  have l: "(\<lambda>opts. ci_List (clientset_interface cs) namespace opts) = taskGroups_List (newTaskGroups rc namespace)"
    by (simp add: clientset_interface_def custom_TaskGroups_def Clientset_CustomV1alpha1_def cs(2))
  have lister: "informer_Lister (Factory_informer (length h) i) h' = (Indexer_lister (length h) (in_id inf), h')" for i
    by (rule informer_Lister_started) (simp_all add: s(3,4))
  obtain k p ri ti where g: "li_kubeclient L ctx' = Inr k" "li_pipelineclient L ctx' = Inr p" "li_runinformer L ctx' = Inr ri"
    "li_taskruninformer L ctx' = Inr ti" using assms(1) s(7) unfolding injected_def by metis
  have "\<exists>c. constructor ctx' h' = Inr (c, h') \<and> rec_taskGroupLister (ct_Reconciler c) = Indexer_lister (length h) (in_id inf)"
    by (simp add: con NewController_of_def g s(2,6) lister NewImpl_taskgroup [OF g(3,2)])
  moreover have "map_of (fa_informers (h' ! length h)) TaskGroup_type = Some inf" by (simp add: s(3,4))
  moreover have "in_ListFunc inf = taskGroups_List (newTaskGroups rc namespace)" using s(5) l ns by simp
  ultimately show ?thesis using s(1) by blast
qed

text \<open>Libraries whose values do not matter but for the lister of Runs.\<close>

definition ex_lib :: "Run list \<Rightarrow> (Config, unit, unit, unit, unit, unit, unit) LibInjection" where
  "ex_lib runs = \<lparr>li_kubeclient = \<lambda>ctx. Inr (), li_pipelineclient = \<lambda>ctx. Inr (), li_runinformer = \<lambda>ctx. Inr (), li_taskruninformer = \<lambda>ctx. Inr (),
     li_runLister = \<lambda>i. \<lparr>rl_List = Inr runs, rl_Get = \<lambda>ns n. Inr (hd runs)\<rparr>, li_taskRunLister = \<lambda>i ns sel. Inr []\<rparr>"

lemma ex_lib_injected: "injected (ex_lib runs) ctx"
  by (simp add: injected_def ex_lib_def)

abbreviation ex_args :: "(Config, unit, unit) ctx \<times> string \<times> ((Config, unit, unit) ctx \<Rightarrow> heap \<Rightarrow> ((unit, unit) controller_Impl \<times> heap) may_panic)" where
  "ex_args \<equiv> main_args (\<lambda>ctx sels. ctx) (ex_lib []) [] ''ns''"

theorem controller_reads_started_informer_witness:
  "\<exists>ctx' inf h' c p. SetupInformers (Default (default_clients ex_config_lib []) False) (fst ex_args) ex_config [] = Inr (ctx', [inf], h') \<and>
    snd (snd ex_args) ctx' h' = Inr (c, h') \<and>
    rec_taskGroupLister (ct_Reconciler c) = Indexer_lister p (in_id inf) \<and>
    map_of (fa_informers (h' ! p)) TaskGroup_type = Some inf \<and>
    in_ListFunc inf = taskGroups_List (newTaskGroups ex_rest_client ''ns'')"
proof (rule controller_reads_started_informer [OF ex_lib_injected, where ?ctx.0 = "fst ex_args"])
  show "cl_connect ex_config_lib (fst (setConfigDefaults ex_config_lib ex_config)) = Inr ex_rest_client"
    "cl_connect ex_config_lib (setDiscoveryDefaults ex_config_lib ex_config) = Inr ex_rest_client"
    by (simp_all add: ex_config_lib_def ex_config_def setConfigDefaults_def setDiscoveryDefaults_def Let_def)
  show "main_args (\<lambda>ctx sels. ctx) (ex_lib []) [] ''ns'' = (fst ex_args, fst (snd ex_args), snd (snd ex_args))" by simp
qed simp_all

section \<open>Becoming the leader\<close>

lemma promoted_keys:
  assumes "ri_promoteFilterFunc rec = None" "rl_List (ri_Lister rec) = Inr runs" "run \<in> set runs"
    and "bk_Has bkt (key_of (run_Meta run))"
  shows "key_of (run_Meta run) \<in> set (snd (fst (Promote (PromoteFunc rec) bkt bs)))"
  using assms by (auto simp: Promote_def PromoteFunc_def MaybeEnqueueBucketKey_def key_of_def Let_def)

lemma promoted_leader: "bk_Has bkt key \<Longrightarrow> IsLeaderFor (snd (Promote f bkt bs)) key"
proof -
  have "map_of (gomap_set (bk_Name bkt) bkt bs) (bk_Name bkt) = Some bkt" by (simp add: map_of_gomap_set)
  then have "(bk_Name bkt, bkt) \<in> set (gomap_set (bk_Name bkt) bkt bs)" by (rule map_of_SomeD)
  then show "bk_Has bkt key \<Longrightarrow> IsLeaderFor (snd (Promote f bkt bs)) key"
    by (auto simp: IsLeaderFor_def Promote_def list_ex_iff)
qed

text \<open>A Run of another controller, whose generation has not been observed by a knative reconciler.\<close>

lemma foreign_reconciled:
  assumes wf: "status_wf (run_Status run)" and foreign: "\<not> references_TaskGroup run"
    and gen: "rs_ObservedGeneration (run_Status run) \<noteq> om_Generation (run_Meta run)"
  shows "run_view (run_Status (reconciled rc env run)) =
      Some (ConditionUnknown, failedGenerationBump, ''unsuccessfully observed a new generation'')"
    "rs_ObservedGeneration (run_Status (reconciled rc env run)) = om_Generation (run_Meta run)"
proof -
  let ?p = "PreProcessReconcile rc run" and ?i = "manager_InitializeConditions (rc_Now rc 0) (run_Status run)"
  have i: "status_wf ?i" using wf by (auto simp: manager_InitializeConditions_def run_conds.put_wf split: option.splits)
  have "run_Status ?p = manager_MarkUnknown (rc_Now rc 1) ConditionSucceeded failedGenerationBump
      ''unsuccessfully observed a new generation'' ?i"
    using gen by (simp add: PreProcessReconcile_def Let_def)
  then have v: "run_view (run_Status ?p) = Some (ConditionUnknown, failedGenerationBump, ''unsuccessfully observed a new generation'')"
    using run_conds.view_put [OF i, of "new_condition ConditionSucceeded ConditionUnknown failedGenerationBump
      ''unsuccessfully observed a new generation''" "rc_Now rc 1"]
    by (simp add: manager_MarkUnknown_def)
  have "st_Run (final env ?p) = ?p" using foreign by (simp add: ReconcileKind_not_referenced)
  with v show "run_view (run_Status (reconciled rc env run)) =
      Some (ConditionUnknown, failedGenerationBump, ''unsuccessfully observed a new generation'')"
    "rs_ObservedGeneration (run_Status (reconciled rc env run)) = om_Generation (run_Meta run)"
    by (simp_all add: reconciled_def)
qed

text \<open>C18. A process that becomes the leader rewrites the status of Runs that are none of its business. The options of
  \<open>NewController\<close> have no filter for the promotion, so the key of every Run of its buckets is enqueued; and although
  \<open>ReconcileKind\<close> leaves a Run that refers to no TaskGroup as it is, the steps around it do not: for a Run whose
  generation no knative reconciler has observed, a status is written in which the Run is not done any more, whatever
  its own controller had made of it.\<close>

theorem promotion_rewrites_foreign_Runs:
  assumes "NewController_of L ctx h = Inr (c, h')" "rl_List (ri_Lister (ct_Impl c)) = Inr runs" "run \<in> set runs"
    and "bk_Has bkt (key_of (run_Meta run))" "Promote (PromoteFunc (ct_Impl c)) bkt bs = ((res, keys), bs')"
    and "\<not> references_TaskGroup run" "status_wf (run_Status run)" "om_DeletionTimestamp (run_Meta run) = None"
    and "rs_ObservedGeneration (run_Status run) \<noteq> om_Generation (run_Meta run)"
    and "CHR ''/'' \<notin> set (run_Namespace run)" "CHR ''/'' \<notin> set (run_Name run)"
    and "rc_IsLeaderFor rc = IsLeaderFor bs'" "rc_Lister rc (run_Namespace run) (run_Name run) = Inr run"
    and "\<And>k r. rc_UpdateStatus rc k r = None"
  shows "key_of (run_Meta run) \<in> set keys \<and>
    (\<exists>st. oc_Accepted (Reconcile rc env (safeKey (key_of (run_Meta run)))) = Some st \<and>
      run_view st = Some (ConditionUnknown, ''NewObservedGenFailure'', ''unsuccessfully observed a new generation'') \<and>
      rs_ObservedGeneration st = om_Generation (run_Meta run))"
proof
  let ?key = "key_of (run_Meta run)"
  show "?key \<in> set keys"
    using promoted_keys [OF NewController_of_Impl(1) [OF assms(1)] assms(2-4), of bs] by (simp add: assms(5))
  have "IsLeaderFor bs' ?key" using promoted_leader [where bs = bs and f = "PromoteFunc (ct_Impl c)", OF assms(4)] by (simp add: assms(5))
  then have t: "to_reconcile rc ?key = Some run" using assms(8,12,13) by (simp add: to_reconcile_def key_of_def)
  have k: "key_wf ?key" using assms(10,11) by (simp add: key_wf_def key_of_def)
  note f = foreign_reconciled [OF assms(7,6,9), of rc env]
  have "\<not> status_DeepEqual (run_Status run) (run_Status (reconciled rc env run))"
    using f(2) assms(9) by (auto simp: DeepEqual_iff)
  from work_accepted [OF k t assms(14) this] f show "\<exists>st. oc_Accepted (Reconcile rc env (safeKey ?key)) = Some st \<and>
      run_view st = Some (ConditionUnknown, ''NewObservedGenFailure'', ''unsuccessfully observed a new generation'') \<and>
      rs_ObservedGeneration st = om_Generation (run_Meta run)"
    by (auto simp: failedGenerationBump_def)
qed

text \<open>A Run of another custom task that has succeeded, under a controller that does not keep the observed generation.\<close>

definition ex_foreign :: Run where
  "ex_foreign = ex_run\<lparr>run_Meta := (run_Meta ex_run)\<lparr>om_Generation := 1\<rparr>,
     run_Spec := (run_Spec ex_run)\<lparr>rsp_Ref := Some \<lparr>tref_Name = ''wait'', tref_Kind = ''Wait'', tref_APIVersion = ''wait.dev/v1'', tref_Bundle = []\<rparr>\<rparr>,
     run_Status := empty_RunStatus\<lparr>rs_Conditions := [new_condition ConditionSucceeded ConditionTrue ''Done'' []]\<rparr>\<rparr>"

definition ex_bucket :: Bucket where
  "ex_bucket = \<lparr>bk_Name = ''all'', bk_Has = \<lambda>key. True\<rparr>"

abbreviation ex_leader :: RunClient where
  "ex_leader \<equiv> (ex_RunClient ex_foreign)\<lparr>rc_UpdateStatus := \<lambda>k r. None, rc_IsLeaderFor := IsLeaderFor [(''all'', ex_bucket)]\<rparr>"

theorem promotion_rewrites_foreign_Runs_witness:
  "Run_IsDone ex_foreign \<and>
    (\<exists>st. oc_Accepted (Reconcile ex_leader (ex_env []) (safeKey (key_of (run_Meta ex_foreign)))) = Some st \<and>
      run_view st = Some (ConditionUnknown, ''NewObservedGenFailure'', ''unsuccessfully observed a new generation''))"
proof
  show "Run_IsDone ex_foreign" by code_simp
  let ?ctx = "WithValue (WithValue ([] :: (Config, unit, unit) ctx) client_Key (Client_val (undefined :: ClientInterface)))
      informer_Key (Informer_val (Wrapper_informer (undefined :: wrapper)))"
  obtain c h' where c: "NewController_of (ex_lib [ex_foreign]) ?ctx [] = Inr (c, h')" "rl_List (ri_Lister (ct_Impl c)) = Inr [ex_foreign]"
    by (simp add: NewController_of_def ex_lib_def client_Get_def informer_Get_def informer_Lister_def NewImpl_def taskgroup_options_def
        apply_options_def Let_def)
  obtain res keys where "PromoteFunc (ct_Impl c) ex_bucket = (res, keys)" by fastforce
  then have p: "Promote (PromoteFunc (ct_Impl c)) ex_bucket [] = ((res, keys), [(''all'', ex_bucket)])"
    by (simp add: Promote_def gomap_set_def Let_def) (simp add: ex_bucket_def)
  have f: "\<not> references_TaskGroup ex_foreign" by code_simp
  have s: "status_wf (run_Status ex_foreign)" "om_DeletionTimestamp (run_Meta ex_foreign) = None"
    "rs_ObservedGeneration (run_Status ex_foreign) \<noteq> om_Generation (run_Meta ex_foreign)"
    "CHR ''/'' \<notin> set (run_Namespace ex_foreign)" "CHR ''/'' \<notin> set (run_Name ex_foreign)"
    by (simp_all add: ex_foreign_def ex_run_def empty_RunStatus_def status_wf_def conds_wf_def empty_meta_def)
  have "rc_IsLeaderFor ex_leader = IsLeaderFor [(''all'', ex_bucket)]" "rc_Lister ex_leader ns n = Inr ex_foreign"
    "rc_UpdateStatus ex_leader k r = None" for ns n k r
    by (simp_all add: ex_RunClient_def)
  with promotion_rewrites_foreign_Runs [OF c _ _ p f s, of ex_leader "ex_env []"]
  show "\<exists>st. oc_Accepted (Reconcile ex_leader (ex_env []) (safeKey (key_of (run_Meta ex_foreign)))) = Some st \<and>
      run_view st = Some (ConditionUnknown, ''NewObservedGenFailure'', ''unsuccessfully observed a new generation'')"
    by (auto simp: ex_bucket_def)
qed

end
