(* ===== verification/Spec2Isabelle.thy ===== *)
theory Spec2Isabelle
  imports Resolve_Properties Validation Deep_Copy System Lost_Writes Reconcile_Events Scheme Clientset Injection_Types Fake_Injection Startup
begin

text \<open>
  A verification development for the TaskGroup custom task of Tekton.

  \<^bold>\<open>The program.\<close> A TaskGroup is a list of steps; a step is inline or uses a task, with bindings of its parameters
  and workspaces. A Tekton \<open>Run\<close> that refers to a TaskGroup is executed by the controller of this repository: it
  fetches the TaskGroup and the used tasks, merges them into one \<open>TaskSpec\<close> (\<open>pkg/resolve\<close>), creates one TaskRun
  from it, and reflects the TaskRun in the status of the Run (\<open>pkg/reconciler/taskgroup\<close>). The API types with
  their validation and deep copies are in \<open>pkg/apis/taskgroup\<close>; clients, listers, informers and their injection
  into a context, all generated, are in \<open>pkg/client\<close>. The parts meet as follows. The informers call the event
  handlers of \<open>controller.go\<close>, which put the keys of Runs into the work queue; a worker takes a key, and the
  reconciler generated for Runs reads the Run and calls \<open>ReconcileKind\<close>; this gets the TaskGroup through the typed client, reads TaskRuns through a lister
  over the informer's cache, writes through clients to the API server, and the generated reconciler writes the status of the Run back, which
  comes back as an event.

  \<^bold>\<open>The theories.\<close> Each names the files it models in its first text block.

  \<^item> \<open>Go_Prelude\<close>: what the sources use of Go and its library (errors, maps, strings, printing), with the
    lemmas on maps and the collections \<open>go_defs\<close> for evaluation. \<open>Api_Types\<close>: \<open>taskgroup_types.go\<close>,
    \<open>register.go\<close> and the upstream types they refer to.
  \<^item> \<open>Substitution\<close>: \<open>substitution.go\<close>, \<open>container_replacements.go\<close> and \<open>step_replacements.go\<close> of
    tektoncd/pipeline: replacing \<open>$(params.x)\<close> in texts, containers and steps. \<open>Merge_Lists\<close>: the five merge
    transformers of \<open>pkg/resolve/taskgroup.go\<close>. \<open>Resolve\<close>: \<open>resolveSteps\<close> and \<open>TaskSpec\<close> of that file and the
    specification \<open>merged_spec\<close>. \<open>Resolve_Properties\<close>: their properties.
  \<^item> \<open>Field_Errors\<close>: the error trees of knative. \<open>Validation\<close>: \<open>taskgroup_validation.go\<close>, the upstream checks it
    calls, and \<open>valid_spec\<close>, the set of specs it accepts.
  \<^item> \<open>Run_Status\<close>: the condition manager and the status of a Run, with the locale \<open>condition_store\<close>.
    \<open>Reconciler\<close>: \<open>pkg/reconciler/taskgroup/taskgroup.go\<close>, all of it but logging. \<open>Reconcile_Spec\<close>: what a
    reconcile should do (\<open>task_writes\<close>, \<open>outcome\<close>, \<open>retries\<close>, \<open>recorded\<close>) and that it does.
    \<open>Reconcile_Properties\<close>: the properties of one call of \<open>ReconcileKind\<close>. \<open>Run_Settling\<close>: the loop of reconciles
    that ask for each other ends. \<open>Reconcile_Events\<close>: the events a reconcile emits.
  \<^item> \<open>Run_Reconciler\<close>: what calls \<open>ReconcileKind\<close>, the reconciler knative generates for Runs (\<open>Reconcile\<close>,
    \<open>PreProcessReconcile\<close>, \<open>PostProcessReconcile\<close>, \<open>updateStatus\<close>) and the worker (\<open>processNextWorkItem\<close>,
    \<open>handleErr\<close>). \<open>Run_Worker\<close>: their properties. \<open>Run_Lifecycle\<close>: what the worker leaves on the API server, the TaskRuns
    accepted and the status stored.
  \<^item> \<open>Controller\<close>: \<open>controller.go\<close>, the filters of its event handlers and the keys they enqueue. \<open>System\<close>: the
    reconciler over the typed client. \<open>Cluster\<close>: handlers, queue and worker together with the API server,
    late informers of Runs and TaskRuns, a user and the TaskRun controller, as a step relation with an invariant.
    \<open>Lost_Writes\<close>: in it, reconciles whose status is written late or never, and informers that are arbitrarily late.
  \<^item> \<open>Deep_Copy_Model\<close>: a heap of arrays with slices and pointers, and what it is to copy deeply. \<open>Deep_Copy\<close>:
    \<open>zz_generated.deepcopy.go\<close> over it.
  \<^item> \<open>Client\<close>: the typed client over the request builder of client-go, and the injection client over the
    dynamic client. \<open>Clientset\<close>: how clients are made from a configuration, with their rate limiters.
    \<open>Listers\<close>: the lister over the indexer of an informer and the two listers over the API server.
    \<open>Informers\<close>: the shared informer factory. \<open>Injection\<close> and \<open>Injection_Types\<close>: the injectors of
    \<open>pkg/client/injection\<close>, the context they fill, and its types.
  \<^item> \<open>Object_Tracker\<close> and \<open>Fake_Client\<close>: the fake clientset for tests over the object tracker of client-go, and
    the server it should be (\<open>serve\<close>). \<open>Fake_Injection\<close>: the injectors for tests, which put it into a context.
    \<open>Scheme\<close>: the tables of kinds and Go types and what is registered in them.
  \<^item> \<open>Startup\<close>: \<open>cmd/controller/main.go\<close>, the \<open>Reconciler\<close> that \<open>controller.go\<close> makes from the context, \<open>init\<close> of
    \<open>taskgroup.go\<close>, \<open>NewImpl\<close> of the generated reconciler, and becoming the leader.
  \<^item> \<open>Examples\<close>: the concrete inputs at which properties are instantiated.

  \<^bold>\<open>How code is modelled.\<close> A struct is a record with the source's fields (those the code neither reads nor writes are
  one opaque field), an error result a pair or a sum, an assignment a new binding of the same name, a loop a
  recursive function over the list it ranges over. Where the order of a Go map can matter, the order is a parameter.
  Timeouts are 64 bit words. A reconcile threads a state of the Run, the decoded status and the log of effects.
  Contexts are lists of keys and values; factories live in a heap, because contexts share pointers to them, and fake
  clientsets in another. Methods guarded by a mutex are single steps.

  \<^bold>\<open>What is a parameter.\<close> Code outside \<open>src\<close> and library code that is not modelled is an argument of the model:
  \<open>Env\<close> (API server, listers, JSON, clock and random names of the reconciler), \<open>RunClient\<close> (the same for the generated
  reconciler, with leader election and the cluster's defaults), \<open>Merger\<close> (the strategic merge patch),
  \<open>Library\<close> (deep copies of library structs, with the contract \<open>library_ok\<close>), \<open>Codec\<close>, \<open>RestClient\<close>, \<open>Dynamic\<close> and
  \<open>Json\<close> (encoding and transport, with \<open>codec_ok\<close>), \<open>ConfigLib\<close> (connecting to a server), \<open>FakeLib\<close> (selector
  parsing and patches in the tracker), \<open>LibInjection\<close> (the clients and informers of the other packages in a context).
  Hypotheses about them state documented behaviour: the decoder finds what was
  encoded (the typed client's then clears the kind), a library's deep copy is deep, the lister answers from its cache. The witness of a theorem with such a
  hypothesis instantiates it with a concrete function.

  \<^bold>\<open>What is shown.\<close>

  \<^item> Resolution: \<open>TaskSpec\<close> returns the specified merge or exactly the first error of the code's order; the result
    does not depend on the order of maps; substitution replaces all references of a text at once and renames those
    of used tasks; which names the merged spec declares, and when it declares one twice.
  \<^item> Validation: exactly which TaskGroups are accepted, under which paths errors are reported, and that the text of
    an error does not depend on the order of a map.
  \<^item> Reconciling: exactly which TaskRuns are created or cancelled, with which condition the Run ends, when an error
    is returned, which events are emitted, that a created TaskRun is selected by later reconciles; the loop of
    reconciles ends after one change.
  \<^item> The worker: which Runs it reconciles, and what is written for them; that the status takes at most five requests
    and a key is let go only when its status is stored; which edits open a Run that is done; that a Run stays done once the
    informer has delivered that it is; that a TaskRun is only created when neither cache shows one, so that a Run gets
    at most one as long as a cache is fresh, also when status writes come late or get lost.
  \<^item> Control: the Run handler enqueues exactly what the reconciler deals with, every change of a created TaskRun
    wakes its Run, a Run whose TaskGroup cannot be fetched fails for good; no wake-up is lost, in any interleaving, and
    a TaskRun that ends, ends its Run.
  \<^item> Copies, clients and caches: deep copies read the same and share nothing; no request of the typed client leaves
    its namespace; the two clients agree but for the kind of an object, and the two kinds of lister agree; timeouts are exact
    up to a bound; informers are created once and run once.
  \<^item> Injection: when it completes, that no type assertion fails, that the informer lists over the configured
    server, and that filtered informers all use the last selector; how many rate limiters a clientset has.
  \<^item> Start: from the command line to the reconciler, its TaskGroup lister reads the one informer that is started, over
    the configured server and namespace; a process that becomes the leader writes to Runs of other custom tasks.
  \<^item> Schemes: registering the types twice or into a scheme in use keeps its tables inverse to each other.
  \<^item> Tests: the fake clientset refines the specified server, but for \<open>DeleteCollection\<close>, which deletes nothing;
    the informer injected for a test lists what the test has put into the injected clientset.

  Interfaces between parts are locales with an interpretation on the model: \<open>condition_store\<close> (the Mark operations
  over conditions), \<open>named_merge\<close> and \<open>spec_merge\<close> (the merge transformers), \<open>deep_copy\<close> and \<open>array_copy\<close> (the copies
  of all types), \<open>task_group_lister\<close> and \<open>lister_pair\<close> (the listers over cache and server).

  \<^bold>\<open>Bounds.\<close> Names of TaskRuns have at most 63 bytes (57 of the Run's name, a dash and a suffix of 5). A fake watcher's
  channel has 100 places, so the refinement is for at most 100 operations, and a lemma shows that it is sharp.
  Timeouts above 9223372036 seconds wrap around. The status of a Run is
  written in at most five attempts (\<open>retry.DefaultRetry\<close>). Nothing needs fuel: every loop ranges over a list or counts
  attempts, and the one unbounded loop, reconciling while the Run changes, is \<open>while_option\<close> with a proof that it ends.

  \<^bold>\<open>Not modelled.\<close> Flags, signals and \<open>sharedmain\<close>, which sets up the injected informers and runs the
  controllers; logging and metrics; the injection functions that panic with \<open>NYI\<close>; the informers' goroutines, the
  work queue's rate limiting and the transport, which are library code; finalizers and observers of the generated
  reconciler, which this controller does not have. Go may iterate over one map in a
  different order each time; here the order is a function of the map for a whole run.
\<close>

end
